theory Spec2Isabelle
  imports Main "HOL-Library.AList"
begin

section \<open>Python string operations used by kicad-import.py\<close>

text \<open>
  A \<^typ>\<open>string\<close> stands for a Python \<open>str\<close> whose characters have code points
  below 256; a \<^typ>\<open>char\<close> is one such character. The functions of this section are
  the library functions the script calls (\<open>str.startswith\<close>, \<open>str.strip\<close>,
  \<open>str.split\<close>, \<open>str.replace\<close>, \<open>str.splitlines\<close>, \<open>str.join\<close>, \<open>str.lower\<close>,
  \<open>re.match\<close> with the one pattern of the script, and line iteration over a file
  opened in text mode).
\<close>

definition LF :: char where "LF = CHR 0x0A"
definition CR :: char where "CR = CHR 0x0D"

definition startswith :: "string \<Rightarrow> string \<Rightarrow> bool" where
  "startswith s p = (take (length p) s = p)"

definition endswith :: "string \<Rightarrow> string \<Rightarrow> bool" where
  "endswith s x = (length x \<le> length s \<and> drop (length s - length x) s = x)"

text \<open>\<open>str.isspace\<close> on the characters below 256.\<close>

definition is_space :: "char \<Rightarrow> bool" where
  "is_space c = (c \<in> {CHR 0x09, CHR 0x0A, CHR 0x0B, CHR 0x0C, CHR 0x0D,
                       CHR 0x1C, CHR 0x1D, CHR 0x1E, CHR 0x1F, CHR 0x20, CHR 0x85, CHR 0xA0})"

text \<open>The line boundaries of \<open>str.splitlines\<close> below 256, apart from \<open>\r\n\<close>.\<close>

definition is_linebreak :: "char \<Rightarrow> bool" where
  "is_linebreak c = (c \<in> {CHR 0x0A, CHR 0x0B, CHR 0x0C, CHR 0x0D,
                           CHR 0x1C, CHR 0x1D, CHR 0x1E, CHR 0x85})"

definition strip :: "string \<Rightarrow> string" where
  "strip s = rev (dropWhile is_space (rev (dropWhile is_space s)))"

definition strip_chars :: "string \<Rightarrow> string \<Rightarrow> string" where
  "strip_chars cs s =
     rev (dropWhile (\<lambda>c. c \<in> set cs) (rev (dropWhile (\<lambda>c. c \<in> set cs) s)))"

text \<open>\<open>s.split()\<close>: the maximal runs of non-whitespace characters, in order.\<close>

fun split_acc :: "string \<Rightarrow> string \<Rightarrow> string list" where
  "split_acc cur [] = (if cur = [] then [] else [cur])"
| "split_acc cur (c # cs) =
     (if is_space c then (if cur = [] then split_acc [] cs else cur # split_acc [] cs)
      else split_acc (cur @ [c]) cs)"

definition py_split :: "string \<Rightarrow> string list" where
  "py_split s = split_acc [] s"

text \<open>\<open>s.replace(old, new, 1)\<close>: the first occurrence only; an empty \<open>old\<close> matches at
  position 0.\<close>

fun replace1 :: "string \<Rightarrow> string \<Rightarrow> string \<Rightarrow> string" where
  "replace1 old new [] = (if old = [] then new else [])"
| "replace1 old new (c # cs) =
     (if startswith (c # cs) old then new @ drop (length old) (c # cs)
      else c # replace1 old new cs)"

text \<open>\<open>s.splitlines()\<close>; the flag says that the previous character was a carriage
  return, so that \<open>\r\n\<close> counts as one boundary.\<close>

fun splitlines_acc :: "bool \<Rightarrow> string \<Rightarrow> string \<Rightarrow> string list" where
  "splitlines_acc p cur [] = (if cur = [] then [] else [cur])"
| "splitlines_acc p cur (c # cs) =
     (if c = LF \<and> p then splitlines_acc False cur cs
      else if is_linebreak c then cur # splitlines_acc (c = CR) [] cs
      else splitlines_acc False (cur @ [c]) cs)"

definition splitlines :: "string \<Rightarrow> string list" where
  "splitlines s = splitlines_acc False [] s"

text \<open>\<open>'\n'.join(xs) + '\n'\<close>.\<close>

fun join_nl :: "string list \<Rightarrow> string" where
  "join_nl [] = []"
| "join_nl [x] = x"
| "join_nl (x # y # ys) = x @ LF # join_nl (y # ys)"

definition join_lines :: "string list \<Rightarrow> string" where
  "join_lines xs = join_nl xs @ [LF]"

text \<open>Python's slice \<open>xs[a:b]\<close> for \<open>0 \<le> a\<close>, \<open>0 \<le> b\<close>.\<close>

definition slice :: "nat \<Rightarrow> nat \<Rightarrow> 'a list \<Rightarrow> 'a list" where
  "slice a b xs = take (b - a) (drop a xs)"

text \<open>\<open>str.lower\<close> on the ASCII letters.\<close>

definition lower_char :: "char \<Rightarrow> char" where
  "lower_char c = (let n = (of_char c :: nat) in if 65 \<le> n \<and> n \<le> 90 then char_of (n + 32) else c)"

definition lower :: "string \<Rightarrow> string" where
  "lower s = map lower_char s"

text \<open>\<open>re.match('# *end ', line, re.IGNORECASE)\<close>: a hash, any number of spaces, the
  letters e, n, d in either case, and a space, at the start of the line.\<close>

definition is_trailer :: "string \<Rightarrow> bool" where
  "is_trailer line =
     (case line of
        [] \<Rightarrow> False
      | c # rest \<Rightarrow> c = CHR ''#'' \<and> lower (take 4 (dropWhile (\<lambda>x. x = CHR '' '') rest)) = ''end '')"

text \<open>Reading a file opened with \<open>open('rt')\<close>: universal newlines turn \<open>\r\n\<close> and
  \<open>\r\<close> into \<open>\n\<close>, and iterating yields the lines with their terminator.\<close>

fun universal_newlines_acc :: "bool \<Rightarrow> string \<Rightarrow> string" where
  "universal_newlines_acc p [] = []"
| "universal_newlines_acc p (c # cs) =
     (if c = CR then LF # universal_newlines_acc True cs
      else if c = LF \<and> p then universal_newlines_acc False cs
      else c # universal_newlines_acc False cs)"

definition universal_newlines :: "string \<Rightarrow> string" where
  "universal_newlines s = universal_newlines_acc False s"

fun keepends_acc :: "string \<Rightarrow> string \<Rightarrow> string list" where
  "keepends_acc cur [] = (if cur = [] then [] else [cur])"
| "keepends_acc cur (c # cs) =
     (if c = LF then (cur @ [c]) # keepends_acc [] cs else keepends_acc (cur @ [c]) cs)"

definition readlines :: "string \<Rightarrow> string list" where
  "readlines s = keepends_acc [] (universal_newlines s)"

section \<open>Enumerations, exceptions and the world\<close>

datatype Modification = MKDIR | TOUCH_FILE | MODIFIED_FILE | EXTRACTED_FILE

datatype REMOTE_TYPES = OCTOPART | SAMACSYS | ULTRA_LIBRARIAN | SNAPEDA

fun remote_name :: "REMOTE_TYPES \<Rightarrow> string" where
  "remote_name OCTOPART = ''OCTOPART''"
| "remote_name SAMACSYS = ''SAMACSYS''"
| "remote_name ULTRA_LIBRARIAN = ''ULTRA_LIBRARIAN''"
| "remote_name SNAPEDA = ''SNAPEDA''"

text \<open>The exceptions the script can leave a function with. \<open>Warning\<close> carries the
  argument tuple it is raised with.\<close>

datatype exn =
    Warning "string list"
  | IndexError
  | AttributeError
  | EOFError
  | KeyError
  | ValueError
  | AssertionError
  | FileNotFoundError
  | FileExistsError
  | NotADirectoryError
  | IsADirectoryError

text \<open>A path is the list of its components; \<open>p / name\<close> appends one component and
  \<open>p.parent\<close> drops the last.\<close>

type_synonym path = "string list"

definition pjoin :: "path \<Rightarrow> string \<Rightarrow> path" where
  "pjoin p n = p @ [n]"

definition parent :: "path \<Rightarrow> path" where
  "parent p = butlast p"

text \<open>The keys of the modification dictionary: paths of the local file system and
  members of the archive. A member is a \<open>zipfile.Path\<close> object, which is a key of its
  own; a run records at most one (\<open>import_model\<close> returns after the first extraction),
  so within a run the object is told by its name.\<close>

datatype obj = Local path | Member string

text \<open>The world the script runs in: the regular files with their text, the
  directories, the replies the operator will give to \<open>input\<close>, in order, and the
  dictionary of the module-level \<open>modified_objects\<close>, in insertion order.\<close>

record world =
  files :: "path \<Rightarrow> string option"
  dirs :: "path set"
  stdin :: "string list"
  modified_objects :: "(obj \<times> Modification) list"

text \<open>The constants imported from \<open>config\<close>.\<close>

record config =
  REMOTE_LIB_PATH :: path
  REMOTE_FOOTPRINTS_PATH :: path
  REMOTE_3DMODEL_PATH :: path

text \<open>\<open>ModifiedObject.append\<close> is the dictionary assignment \<open>self.dict[obj] = modification\<close>:
  a key that is present keeps its place and gets the new value, a new key goes to the
  end.\<close>

definition ModifiedObject_append :: "obj \<Rightarrow> Modification \<Rightarrow> world \<Rightarrow> world" where
  "ModifiedObject_append ob m w = w\<lparr>modified_objects := AList.update ob m (modified_objects w)\<rparr>"

text \<open>\<open>input(prompt)\<close> on the replies still to come: the next reply and the rest, or
  \<open>EOFError\<close> at the end of the input.\<close>

definition input :: "string list \<Rightarrow> (exn + string) \<times> string list" where
  "input replies = (case replies of [] \<Rightarrow> (Inl EOFError, [])
                    | r # rs \<Rightarrow> (Inr r, rs))"

section \<open>The file system\<close>

definition path_exists :: "world \<Rightarrow> path \<Rightarrow> bool" where
  "path_exists w p = (files w p \<noteq> None \<or> p \<in> dirs w)"

definition is_dir :: "world \<Rightarrow> path \<Rightarrow> bool" where
  "is_dir w p = (p \<in> dirs w)"

definition ancestors :: "path \<Rightarrow> path list" where
  "ancestors p = map (\<lambda>n. take n p) [0..<length p]"

text \<open>\<open>p.mkdir(parents=True)\<close>.\<close>

definition mkdir_parents :: "path \<Rightarrow> world \<Rightarrow> exn + world" where
  "mkdir_parents p w =
     (if path_exists w p then Inl FileExistsError
      else if list_ex (\<lambda>q. files w q \<noteq> None) (ancestors p) then Inl NotADirectoryError
      else Inr (w\<lparr>dirs := dirs w \<union> set (ancestors p) \<union> {p}\<rparr>))"

text \<open>\<open>p.open('wt')\<close> followed by writing \<open>text\<close> and closing: the file is created or
  truncated. Opening fails with \<open>IsADirectoryError\<close> on a directory, with
  \<open>NotADirectoryError\<close> where a regular file stands in the place of a directory of the
  path, and with \<open>FileNotFoundError\<close> where the parent directory is missing. On the
  platform the script names (Ubuntu) a written \<open>\n\<close> stays \<open>\n\<close>.\<close>

definition write_text :: "path \<Rightarrow> string \<Rightarrow> world \<Rightarrow> exn + world" where
  "write_text p text w =
     (if is_dir w p then Inl IsADirectoryError
      else if files w p = None \<and> \<not> is_dir w (parent p) then
        Inl (if list_ex (\<lambda>q. files w q \<noteq> None) (ancestors p)
             then NotADirectoryError else FileNotFoundError)
      else Inr (w\<lparr>files := (files w)(p \<mapsto> text)\<rparr>))"

text \<open>\<open>src.replace(dst)\<close> for a regular file \<open>src\<close>.\<close>

definition path_replace :: "path \<Rightarrow> path \<Rightarrow> world \<Rightarrow> exn + world" where
  "path_replace src dst w =
     (case files w src of
        None \<Rightarrow> Inl (if is_dir w src then NotADirectoryError else FileNotFoundError)
      | Some text \<Rightarrow>
          if is_dir w dst then Inl IsADirectoryError
          else if files w dst = None \<and> \<not> is_dir w (parent dst) then Inl FileNotFoundError
          else Inr (w\<lparr>files := ((files w)(src := None))(dst \<mapsto> text)\<rparr>))"

text \<open>\<open>check_file\<close>, lines 92 to 102.\<close>

definition check_file :: "path \<Rightarrow> world \<Rightarrow> (exn + unit) \<times> world" where
  "check_file p w =
     (if \<not> path_exists w p then
        (if \<not> is_dir w (parent p) then
           (case mkdir_parents (parent p) w of
              Inl e \<Rightarrow> (Inl e, w)
            | Inr w1 \<Rightarrow>
                let w2 = ModifiedObject_append (Local (parent p)) MKDIR w1;
                    w3 = w2\<lparr>files := (files w2)(p \<mapsto> [])\<rparr>
                in (Inr (), ModifiedObject_append (Local p) TOUCH_FILE w3))
         else
           let w3 = w\<lparr>files := (files w)(p \<mapsto> [])\<rparr>
           in (Inr (), ModifiedObject_append (Local p) TOUCH_FILE w3))
      else (Inr (), w))"

section \<open>Locating the record in the archive's files\<close>

text \<open>The three cursors of the scans: \<open>index_start\<close>, \<open>index_end\<close> and
  \<open>index_header_start\<close>, each \<open>None\<close> until it is set.\<close>

record scan =
  index_start :: "nat option"
  index_end :: "nat option"
  index_header_start :: "nat option"

definition scan_init :: scan where
  "scan_init = \<lparr>index_start = None, index_end = None, index_header_start = None\<rparr>"

definition DQ :: char where "DQ = CHR 0x22"

text \<open>One turn of the first loop of \<open>import_lib\<close> (lines 381 to 405): the line at
  \<open>line_idx\<close>, as the loop leaves it in \<open>lib_lines\<close>, and the cursors. \<open>name\<close> is
  \<open>lib_path.name\<close>.\<close>

definition lib_scan_line ::
  "string \<Rightarrow> REMOTE_TYPES \<Rightarrow> string \<Rightarrow> nat \<Rightarrow> string \<Rightarrow> scan \<Rightarrow> exn + (string \<times> scan)" where
  "lib_scan_line device remote_type name line_idx line s =
     (if index_start s = None then
        (if startswith line ''#'' then
           (if strip line = ''#'' \<and> index_header_start s = None
            then Inr (line, s\<lparr>index_header_start := Some line_idx\<rparr>)
            else Inr (line, s))
         else if startswith line ''DEF '' then
           (case py_split line of
              _ # component_name # _ \<Rightarrow>
                if \<not> startswith component_name device
                then Inl (Warning [''Unexpected device in'' @ name])
                else Inr (replace1 component_name device line, s\<lparr>index_start := Some line_idx\<rparr>)
            | _ \<Rightarrow> Inl IndexError)
         else Inr (line, s\<lparr>index_header_start := None\<rparr>))
      else if index_end s = None then
        (if startswith line ''F2'' then
           (case py_split line of
              _ # footprint # _ \<Rightarrow>
                let footprint = strip_chars [DQ] footprint
                in Inr (replace1 footprint (remote_name remote_type @ '':'' @ footprint) line, s)
            | _ \<Rightarrow> Inl IndexError)
         else if startswith line ''ENDDEF'' then Inr (line, s\<lparr>index_end := Some (line_idx + 1)\<rparr>)
         else if startswith line ''F1 '' then Inr (replace1 device device line, s)
         else Inr (line, s))
      else if startswith line ''DEF '' then Inl (Warning [''Multiple devices in'', name])
      else Inr (line, s))"

fun lib_scan_loop ::
  "string \<Rightarrow> REMOTE_TYPES \<Rightarrow> string \<Rightarrow> nat \<Rightarrow> string list \<Rightarrow> scan \<Rightarrow> exn + (string list \<times> scan)" where
  "lib_scan_loop device remote_type name line_idx [] s = Inr ([], s)"
| "lib_scan_loop device remote_type name line_idx (line # rest) s =
     (case lib_scan_line device remote_type name line_idx line s of
        Inl e \<Rightarrow> Inl e
      | Inr (line', s') \<Rightarrow>
          (case lib_scan_loop device remote_type name (Suc line_idx) rest s' of
             Inl e \<Rightarrow> Inl e
           | Inr (rest', s'') \<Rightarrow> Inr (line' # rest', s'')))"

text \<open>Lines 375 to 407 of \<open>import_lib\<close>: \<open>lib_path\<close> is the archive member, as its name
  and the text \<open>read_text\<close> returns.\<close>

definition lib_scan :: "string \<Rightarrow> REMOTE_TYPES \<Rightarrow> string \<times> string \<Rightarrow> exn + (string list \<times> scan)" where
  "lib_scan device remote_type lib_path =
     (case lib_scan_loop device remote_type (fst lib_path) 0 (splitlines (snd lib_path)) scan_init of
        Inl e \<Rightarrow> Inl e
      | Inr (lib_lines, s) \<Rightarrow>
          if index_end s = None then Inl (Warning [device @ '' not found in '', fst lib_path])
          else Inr (lib_lines, s))"

text \<open>The two slices the merge writes: \<open>lines[index_start:index_end]\<close> and
  \<open>lines[index_start if index_header_start is None else index_header_start:index_end]\<close>,
  each joined with \<open>\n\<close> and followed by \<open>\n\<close>. A bound that is \<open>None\<close> is the start of
  the list, as in Python.\<close>

definition bound :: "nat option \<Rightarrow> nat" where
  "bound b = (case b of None \<Rightarrow> 0 | Some n \<Rightarrow> n)"

definition record_lines :: "string list \<Rightarrow> scan \<Rightarrow> string list" where
  "record_lines lines s = slice (bound (index_start s)) (bound (index_end s)) lines"

definition record_lines_with_header :: "string list \<Rightarrow> scan \<Rightarrow> string list" where
  "record_lines_with_header lines s =
     slice (case index_header_start s of None \<Rightarrow> bound (index_start s) | Some h \<Rightarrow> h)
           (bound (index_end s)) lines"

text \<open>The exception of \<open>raise Warning(msg + dcm_path.name)\<close>: without a \<open>dcm_path\<close>
  the attribute access fails first.\<close>

definition dcm_warning :: "string \<Rightarrow> (string \<times> string) option \<Rightarrow> exn" where
  "dcm_warning msg dcm_path =
     (case dcm_path of None \<Rightarrow> AttributeError | Some p \<Rightarrow> Warning [msg @ fst p])"

text \<open>One turn of the first loop of \<open>import_dcm\<close> (lines 200 to 226); the description
  line asks the operator.\<close>

definition dcm_scan_line ::
  "string \<Rightarrow> (string \<times> string) option \<Rightarrow> nat \<Rightarrow> string \<Rightarrow> scan \<Rightarrow> string list
     \<Rightarrow> (exn + (string \<times> scan)) \<times> string list" where
  "dcm_scan_line device dcm_path attribute_idx attribute s replies =
     (if index_start s = None then
        (if startswith attribute ''#'' then
           (if strip attribute = ''#'' \<and> index_header_start s = None
            then (Inr (attribute, s\<lparr>index_header_start := Some attribute_idx\<rparr>), replies)
            else (Inr (attribute, s), replies))
         else if startswith attribute ''$CMP '' then
           (let component_name = strip (drop 5 attribute)
            in if \<not> startswith component_name device
               then (Inl (dcm_warning ''Unexpected device in'' dcm_path), replies)
               else (Inr (replace1 component_name device attribute,
                          s\<lparr>index_start := Some attribute_idx\<rparr>), replies))
         else (Inr (attribute, s\<lparr>index_header_start := None\<rparr>), replies))
      else if index_end s = None then
        (if startswith attribute ''$CMP '' then
           (Inl (dcm_warning ''Multiple devices in'' dcm_path), replies)
         else if startswith attribute ''$ENDCMP'' then
           (Inr (attribute, s\<lparr>index_end := Some (attribute_idx + 1)\<rparr>), replies)
         else if startswith attribute ''D'' then
           (case input replies of
              (Inl e, replies') \<Rightarrow> (Inl e, replies')
            | (Inr reply, replies') \<Rightarrow>
                let description = strip (drop 2 attribute);
                    description = (if reply \<noteq> [] then reply else description)
                in if description \<noteq> [] then (Inr (''D '' @ description, s), replies')
                   else (Inr (attribute, s), replies'))
         else if startswith attribute ''F'' then
           (let datasheet = strip (drop 2 attribute)
            in if datasheet \<noteq> [] then (Inr (''F '' @ datasheet, s), replies)
               else (Inr (attribute, s), replies))
         else (Inr (attribute, s), replies))
      else (Inr (attribute, s), replies))"

fun dcm_scan_loop ::
  "string \<Rightarrow> (string \<times> string) option \<Rightarrow> nat \<Rightarrow> string list \<Rightarrow> scan \<Rightarrow> string list
     \<Rightarrow> (exn + (string list \<times> scan)) \<times> string list" where
  "dcm_scan_loop device dcm_path attribute_idx [] s replies = (Inr ([], s), replies)"
| "dcm_scan_loop device dcm_path attribute_idx (attribute # rest) s replies =
     (case dcm_scan_line device dcm_path attribute_idx attribute s replies of
        (Inl e, replies') \<Rightarrow> (Inl e, replies')
      | (Inr (attribute', s'), replies') \<Rightarrow>
          (case dcm_scan_loop device dcm_path (Suc attribute_idx) rest s' replies' of
             (Inl e, replies'') \<Rightarrow> (Inl e, replies'')
           | (Inr (rest', s''), replies'') \<Rightarrow> (Inr (attribute' # rest', s''), replies'')))"

text \<open>Lines 192 to 228 of \<open>import_dcm\<close>; without a \<open>dcm_path\<close> the attributes are the
  built-in record for the device.\<close>

definition dcm_scan ::
  "string \<Rightarrow> (string \<times> string) option \<Rightarrow> string list
     \<Rightarrow> (exn + (string list \<times> scan)) \<times> string list" where
  "dcm_scan device dcm_path replies =
     (let dcm_attributes =
            (case dcm_path of
               Some p \<Rightarrow> splitlines (snd p)
             | None \<Rightarrow> [''#'', ''# '' @ device, ''#'', ''$CMP '' @ device, ''D'', ''F'', ''$ENDCMP''])
      in case dcm_scan_loop device dcm_path 0 dcm_attributes scan_init replies of
           (Inl e, replies') \<Rightarrow> (Inl e, replies')
         | (Inr (attrs, s), replies') \<Rightarrow>
             if index_end s = None
             then (Inl (dcm_warning (device @ ''not found in'') dcm_path), replies')
             else (Inr (attrs, s), replies'))"

section \<open>Merging the record into the target library\<close>

text \<open>How the second loop of a merge ends: it runs to its end (or to the trailer), or
  the operator declines and the function returns from inside the loop.\<close>

datatype outcome = Merged | Skipped

definition dcm_confirmed :: "string \<Rightarrow> bool" where
  "dcm_confirmed reply =
     (let overwrite_existing = (if reply \<noteq> [] then reply else ''Yes'')
      in overwrite_existing \<in> set [''y'', ''yes'', ''Yes'', ''Y'', ''YES''])"

definition lib_confirmed :: "string \<Rightarrow> bool" where
  "lib_confirmed reply =
     (let yes = (if reply \<noteq> [] then reply else ''Yes'')
      in yes \<noteq> [] \<and> startswith ''yes'' (lower yes))"

text \<open>The loop over the lines of the target \<open>.dcm\<close> file (lines 247 to 271). \<open>full\<close> and
  \<open>body\<close> are the texts of the record with and without its header; the result is how
  the loop ends, the text it writes to \<open>dcm_file_write\<close> and the replies left.\<close>

fun dcm_merge_loop ::
  "string \<Rightarrow> string \<Rightarrow> string \<Rightarrow> string list \<Rightarrow> bool \<Rightarrow> bool \<Rightarrow> string list
     \<Rightarrow> (exn + outcome) \<times> string \<times> string list" where
  "dcm_merge_loop device full body [] overwrite_existing overwrote_existing replies =
     (Inr Merged, [], replies)"
| "dcm_merge_loop device full body (line # rest) overwrite_existing overwrote_existing replies =
     (if is_trailer line then
        (Inr Merged, (if \<not> overwrote_existing then full else []) @ line, replies)
      else if startswith line ''$CMP '' then
        (let component_name = strip (drop 5 line)
         in if startswith component_name device then
              (case input replies of
                 (Inl e, replies') \<Rightarrow> (Inl e, [], replies')
               | (Inr reply, replies') \<Rightarrow>
                   if \<not> dcm_confirmed reply then (Inr Skipped, [], replies')
                   else (case dcm_merge_loop device full body rest True True replies' of
                           (r, out, replies'') \<Rightarrow> (r, body @ out, replies'')))
            else (case dcm_merge_loop device full body rest overwrite_existing overwrote_existing replies of
                    (r, out, replies') \<Rightarrow> (r, line @ out, replies')))
      else if overwrite_existing then
        dcm_merge_loop device full body rest (\<not> startswith line ''$ENDCMP'') overwrote_existing replies
      else (case dcm_merge_loop device full body rest overwrite_existing overwrote_existing replies of
              (r, out, replies') \<Rightarrow> (r, line @ out, replies')))"

text \<open>The loop over the lines of the target \<open>.lib\<close> file (lines 428 to 459).\<close>

fun lib_merge_loop ::
  "string \<Rightarrow> string \<Rightarrow> string \<Rightarrow> string list \<Rightarrow> bool \<Rightarrow> bool \<Rightarrow> string list
     \<Rightarrow> (exn + outcome) \<times> string \<times> string list" where
  "lib_merge_loop device full body [] overwrite_existing overwrote_existing replies =
     (Inr Merged, [], replies)"
| "lib_merge_loop device full body (line # rest) overwrite_existing overwrote_existing replies =
     (if is_trailer line then
        (Inr Merged, (if \<not> overwrote_existing then full else []) @ line, replies)
      else if startswith line ''DEF '' then
        (case py_split line of
           _ # component_name # _ \<Rightarrow>
             if startswith component_name device then
               (case input replies of
                  (Inl e, replies') \<Rightarrow> (Inl e, [], replies')
                | (Inr reply, replies') \<Rightarrow>
                    if \<not> lib_confirmed reply then (Inr Skipped, [], replies')
                    else (case lib_merge_loop device full body rest True True replies' of
                            (r, out, replies'') \<Rightarrow> (r, body @ out, replies'')))
             else (case lib_merge_loop device full body rest overwrite_existing overwrote_existing replies of
                     (r, out, replies') \<Rightarrow> (r, line @ out, replies'))
         | _ \<Rightarrow> (Inl IndexError, [], replies))
      else if overwrite_existing then
        lib_merge_loop device full body rest (\<not> startswith line ''ENDDEF'') overwrote_existing replies
      else (case lib_merge_loop device full body rest overwrite_existing overwrote_existing replies of
              (r, out, replies') \<Rightarrow> (r, line @ out, replies')))"

section \<open>The four stages\<close>

definition dcm_template :: string where
  "dcm_template = ''EESchema-DOCLIB  Version 2.0'' @ [LF] @ ''#End Doc Library'' @ [LF]"

definition lib_template :: string where
  "lib_template = ''EESchema-LIBRARY Version 2.4'' @ [LF] @ ''#encoding utf-8'' @ [LF]
                   @ ''# End Library'' @ [LF]"

text \<open>Lines 240 to 245 and 419 to 424: a target of size 0 gets the template, written
  to the target itself.\<close>

definition write_template :: "path \<Rightarrow> string \<Rightarrow> world \<Rightarrow> world" where
  "write_template p template w =
     (if files w p = Some [] then w\<lparr>files := (files w)(p \<mapsto> template)\<rparr> else w)"

definition dcm_file_read :: "config \<Rightarrow> REMOTE_TYPES \<Rightarrow> path" where
  "dcm_file_read cfg remote_type = pjoin (REMOTE_LIB_PATH cfg) (remote_name remote_type @ ''.dcm'')"

definition dcm_file_write :: "config \<Rightarrow> REMOTE_TYPES \<Rightarrow> path" where
  "dcm_file_write cfg remote_type = pjoin (REMOTE_LIB_PATH cfg) (remote_name remote_type @ ''.dcm~'')"

definition lib_file_read :: "config \<Rightarrow> REMOTE_TYPES \<Rightarrow> path" where
  "lib_file_read cfg remote_type = pjoin (REMOTE_LIB_PATH cfg) (remote_name remote_type @ ''.lib'')"

definition lib_file_write :: "config \<Rightarrow> REMOTE_TYPES \<Rightarrow> path" where
  "lib_file_write cfg remote_type = pjoin (REMOTE_LIB_PATH cfg) (remote_name remote_type @ ''.lib~'')"

text \<open>\<open>import_dcm\<close>, lines 180 to 273. The text written to \<open>dcm_file_write\<close> reaches the
  file when the \<open>with\<close> block is left, also by \<open>return\<close> or by an exception.\<close>

definition import_dcm ::
  "config \<Rightarrow> string \<Rightarrow> REMOTE_TYPES \<Rightarrow> (string \<times> string) option \<Rightarrow> world
     \<Rightarrow> (exn + (path \<times> path)) \<times> world" where
  "import_dcm cfg device remote_type dcm_path w =
     (case dcm_scan device dcm_path (stdin w) of
        (Inl e, replies) \<Rightarrow> (Inl e, w\<lparr>stdin := replies\<rparr>)
      | (Inr (dcm_attributes, s), replies) \<Rightarrow>
          let rd = dcm_file_read cfg remote_type;
              wr = dcm_file_write cfg remote_type
          in (case check_file rd (w\<lparr>stdin := replies\<rparr>) of
               (Inl e, w1) \<Rightarrow> (Inl e, w1)
             | (Inr _, w1) \<Rightarrow>
          (case check_file wr w1 of
               (Inl e, w2) \<Rightarrow> (Inl e, w2)
             | (Inr _, w2) \<Rightarrow>
          (case files w2 rd of
               None \<Rightarrow> (Inl IsADirectoryError, w2)
             | Some _ \<Rightarrow>
          (case write_text wr [] w2 of
               Inl e \<Rightarrow> (Inl e, w2)
             | Inr w3 \<Rightarrow>
          (let w4 = write_template rd dcm_template w3
           in case files w4 rd of
                None \<Rightarrow> (Inl IsADirectoryError, w4)
              | Some text \<Rightarrow>
                  (case dcm_merge_loop device
                          (join_lines (record_lines_with_header dcm_attributes s))
                          (join_lines (record_lines dcm_attributes s))
                          (readlines text) False False (stdin w4) of
                     (r, out, replies') \<Rightarrow>
                       let w5 = w4\<lparr>files := (files w4)(wr \<mapsto> out), stdin := replies'\<rparr>
                       in (case r of Inl e \<Rightarrow> (Inl e, w5) | Inr _ \<Rightarrow> (Inr (rd, wr), w5)))))))))"

text \<open>\<open>import_lib\<close>, lines 364 to 461.\<close>

definition import_lib ::
  "config \<Rightarrow> string \<Rightarrow> REMOTE_TYPES \<Rightarrow> string \<times> string \<Rightarrow> world
     \<Rightarrow> (exn + (path \<times> path)) \<times> world" where
  "import_lib cfg device remote_type lib_path w =
     (case lib_scan device remote_type lib_path of
        Inl e \<Rightarrow> (Inl e, w)
      | Inr (lib_lines, s) \<Rightarrow>
          let rd = lib_file_read cfg remote_type;
              wr = lib_file_write cfg remote_type
          in (case check_file rd w of
               (Inl e, w1) \<Rightarrow> (Inl e, w1)
             | (Inr _, w1) \<Rightarrow>
          (case check_file wr w1 of
               (Inl e, w2) \<Rightarrow> (Inl e, w2)
             | (Inr _, w2) \<Rightarrow>
          (case files w2 rd of
               None \<Rightarrow> (Inl IsADirectoryError, w2)
             | Some _ \<Rightarrow>
          (case write_text wr [] w2 of
               Inl e \<Rightarrow> (Inl e, w2)
             | Inr w3 \<Rightarrow>
          (let w4 = write_template rd lib_template w3
           in case files w4 rd of
                None \<Rightarrow> (Inl IsADirectoryError, w4)
              | Some text \<Rightarrow>
                  (case lib_merge_loop device
                          (join_lines (record_lines_with_header lib_lines s))
                          (join_lines (record_lines lib_lines s))
                          (readlines text) False False (stdin w4) of
                     (r, out, replies') \<Rightarrow>
                       let w5 = w4\<lparr>files := (files w4)(wr \<mapsto> out), stdin := replies'\<rparr>
                       in (case r of Inl e \<Rightarrow> (Inl e, w5) | Inr _ \<Rightarrow> (Inr (rd, wr), w5)))))))))"

text \<open>\<open>import_model\<close>, lines 276 to 296. \<open>items\<close> are the names \<open>model_path.iterdir()\<close>
  yields and \<open>members\<close> the archive's members by name, for \<open>zf.extract\<close>; the result is
  the name of the model found, or \<open>None\<close>.\<close>

fun import_model_loop ::
  "config \<Rightarrow> string list \<Rightarrow> (string \<Rightarrow> string option) \<Rightarrow> world \<Rightarrow> (exn + string option) \<times> world" where
  "import_model_loop cfg [] members w = (Inr None, w)"
| "import_model_loop cfg (name # rest) members w =
     (if endswith name ''.step'' then
        (let target = pjoin (REMOTE_3DMODEL_PATH cfg) name;
             asked = (if path_exists w target then input (stdin w) else (Inr [], stdin w))
         in case asked of
              (Inl e, replies) \<Rightarrow> (Inl e, w\<lparr>stdin := replies\<rparr>)
            | (Inr reply, replies) \<Rightarrow>
                if \<not> dcm_confirmed reply then (Inr None, w\<lparr>stdin := replies\<rparr>)
                else (case members name of
                        None \<Rightarrow> (Inl KeyError, w\<lparr>stdin := replies\<rparr>)
                      | Some text \<Rightarrow>
                          (case write_text target text (w\<lparr>stdin := replies\<rparr>) of
                             Inl e \<Rightarrow> (Inl e, w\<lparr>stdin := replies\<rparr>)
                           | Inr w1 \<Rightarrow> (Inr (Some name),
                                        ModifiedObject_append (Member name) EXTRACTED_FILE w1))))
      else import_model_loop cfg rest members w)"

definition import_model ::
  "config \<Rightarrow> exn + string list \<Rightarrow> (string \<Rightarrow> string option) \<Rightarrow> world
     \<Rightarrow> (exn + string option) \<times> world" where
  "import_model cfg model_path members w =
     (case (if \<not> is_dir w (REMOTE_3DMODEL_PATH cfg)
            then (case mkdir_parents (REMOTE_3DMODEL_PATH cfg) w of
                    Inl e \<Rightarrow> Inl e
                  | Inr w1 \<Rightarrow> Inr (ModifiedObject_append (Local (REMOTE_3DMODEL_PATH cfg)) MKDIR w1))
            else Inr w) of
        Inl e \<Rightarrow> (Inl e, w)
      | Inr w1 \<Rightarrow>
          (case model_path of
             Inl e \<Rightarrow> (Inl e, w1)
           | Inr items \<Rightarrow> import_model_loop cfg items members w1))"

text \<open>The model block of lines 319 and 320, each line with its \<open>\n\<close>.\<close>

definition model_block :: "string \<Rightarrow> string" where
  "model_block name =
     ''  (model '' @ [DQ] @ ''${REMOTE_3DMODEL_DIR}/'' @ name @ [DQ] @ [LF]
     @ ''    (offset (xyz 0 0 0))'' @ [LF]
     @ ''    (scale (xyz 1 1 1))'' @ [LF]
     @ ''    (rotate (xyz 0 0 0))'' @ [LF]
     @ ''  )'' @ [LF]"

text \<open>Lines 347 to 355: every line but the last, the model block, the last line.\<close>

definition with_model :: "string \<Rightarrow> string list \<Rightarrow> string" where
  "with_model name lines =
     (if lines = [] then [] else concat (butlast lines) @ model_block name @ last lines)"

text \<open>\<open>import_footprint\<close>, lines 299 to 361. \<open>items\<close> are the entries
  \<open>footprint_path.iterdir()\<close> yields, each with its name and its text; \<open>rw\<close> is the pair
  \<open>footprint_file_read\<close>, \<open>footprint_file_write\<close> so far.\<close>

fun import_footprint_loop ::
  "config \<Rightarrow> REMOTE_TYPES \<Rightarrow> string option \<Rightarrow> (string \<times> string) list \<Rightarrow> path option \<times> path option
     \<Rightarrow> world \<Rightarrow> (exn + (path option \<times> path option)) \<times> world" where
  "import_footprint_loop cfg remote_type found_model [] rw w = (Inr rw, w)"
| "import_footprint_loop cfg remote_type found_model (item # rest) rw w =
     (if endswith (fst item) ''.kicad_mod'' \<or> endswith (fst item) ''.mod'' then
        (let footprint = snd item;
             footprint_write_path = pjoin (REMOTE_FOOTPRINTS_PATH cfg) (remote_name remote_type @ ''.pretty'');
             rd = pjoin footprint_write_path (fst item);
             wr = pjoin footprint_write_path (fst item @ ''~'')
         in case found_model of
              Some model_name \<Rightarrow>
                (let asked = (if path_exists w rd then input (stdin w) else (Inr [], stdin w))
                 in case asked of
                      (Inl e, replies) \<Rightarrow> (Inl e, w\<lparr>stdin := replies\<rparr>)
                    | (Inr reply, replies) \<Rightarrow>
                        if \<not> dcm_confirmed reply then (Inr (Some rd, Some wr), w\<lparr>stdin := replies\<rparr>)
                        else
                          (case check_file rd (w\<lparr>stdin := replies\<rparr>) of
                             (Inl e, w1) \<Rightarrow> (Inl e, w1)
                           | (Inr _, w1) \<Rightarrow>
                          (case write_text rd footprint w1 of
                             Inl e \<Rightarrow> (Inl e, w1)
                           | Inr w2 \<Rightarrow>
                          (case check_file wr w2 of
                             (Inl e, w3) \<Rightarrow> (Inl e, w3)
                           | (Inr _, w3) \<Rightarrow>
                          (case files w3 rd of
                             None \<Rightarrow> (Inl IsADirectoryError, w3)
                           | Some text \<Rightarrow>
                          (case write_text wr (with_model model_name (readlines text)) w3 of
                             Inl e \<Rightarrow> (Inl e, w3)
                           | Inr w4 \<Rightarrow>
                               import_footprint_loop cfg remote_type found_model rest
                                 (Some rd, Some wr) w4))))))
            | None \<Rightarrow>
                (case write_text rd footprint w of
                   Inl e \<Rightarrow> (Inl e, w)
                 | Inr w1 \<Rightarrow>
                     import_footprint_loop cfg remote_type found_model rest (Some rd, Some wr) w1))
      else import_footprint_loop cfg remote_type found_model rest rw w)"

definition import_footprint ::
  "config \<Rightarrow> REMOTE_TYPES \<Rightarrow> exn + (string \<times> string) list \<Rightarrow> string option \<Rightarrow> world
     \<Rightarrow> (exn + (path option \<times> path option)) \<times> world" where
  "import_footprint cfg remote_type footprint_path found_model w =
     (case footprint_path of
        Inl e \<Rightarrow> (Inl e, w)
      | Inr items \<Rightarrow> import_footprint_loop cfg remote_type found_model items (None, None) w)"

section \<open>The whole import\<close>

text \<open>What \<open>get_remote_info\<close> returns for an archive: the members the stages read.\<close>

record remote_info =
  dcm_path :: "(string \<times> string) option"
  lib_path :: "string \<times> string"
  footprint_path :: "exn + (string \<times> string) list"
  model_path :: "exn + string list"
  remote_type :: REMOTE_TYPES

text \<open>The zip file chosen: \<open>zip_file.name\<close>, \<open>zipfile.is_zipfile(zip_file)\<close>, the outcome
  of \<open>get_remote_info\<close> on its root, and its members by name.\<close>

record zip_file =
  zip_name :: string
  is_zipfile :: bool
  get_remote_info :: "exn + remote_info"
  zip_members :: "string \<Rightarrow> string option"

record staged =
  dcm_files :: "path \<times> path"
  footprint_files :: "path option \<times> path option"
  lib_files :: "path \<times> path"

text \<open>Lines 474 to 482: the four stages, in order.\<close>

definition import_stages ::
  "config \<Rightarrow> string \<Rightarrow> remote_info \<Rightarrow> (string \<Rightarrow> string option) \<Rightarrow> world
     \<Rightarrow> (exn + staged) \<times> world" where
  "import_stages cfg device info members w =
     (case import_dcm cfg device (remote_type info) (dcm_path info) w of
        (Inl e, w1) \<Rightarrow> (Inl e, w1)
      | (Inr dcm, w1) \<Rightarrow>
     (case import_model cfg (model_path info) members w1 of
        (Inl e, w2) \<Rightarrow> (Inl e, w2)
      | (Inr found_model, w2) \<Rightarrow>
     (case import_footprint cfg (remote_type info) (footprint_path info) found_model w2 of
        (Inl e, w3) \<Rightarrow> (Inl e, w3)
      | (Inr fp, w3) \<Rightarrow>
     (case import_lib cfg device (remote_type info) (lib_path info) w3 of
        (Inl e, w4) \<Rightarrow> (Inl e, w4)
      | (Inr lib, w4) \<Rightarrow>
          (Inr \<lparr>dcm_files = dcm, footprint_files = fp, lib_files = lib\<rparr>, w4)))))"

text \<open>Lines 485 to 487: the three renames. A \<open>None\<close> has no \<open>replace\<close>.\<close>

definition promote :: "staged \<Rightarrow> world \<Rightarrow> (exn + unit) \<times> world" where
  "promote st w =
     (case path_replace (snd (dcm_files st)) (fst (dcm_files st)) w of
        Inl e \<Rightarrow> (Inl e, w)
      | Inr w1 \<Rightarrow>
     (case footprint_files st of
        (Some rd, Some wr) \<Rightarrow>
          (case path_replace wr rd w1 of
             Inl e \<Rightarrow> (Inl e, w1)
           | Inr w2 \<Rightarrow>
          (case path_replace (snd (lib_files st)) (fst (lib_files st)) w2 of
             Inl e \<Rightarrow> (Inl e, w2)
           | Inr w3 \<Rightarrow> (Inr (), w3)))
      | _ \<Rightarrow> (Inl AttributeError, w1)))"

text \<open>\<open>import_all\<close>, lines 464 to 489: \<open>None\<close> for a file that is no zip file, \<open>('OK:',)\<close>
  at the end.\<close>

definition import_all :: "config \<Rightarrow> zip_file \<Rightarrow> world \<Rightarrow> (exn + string list option) \<times> world" where
  "import_all cfg zf w =
     (if \<not> is_zipfile zf then (Inr None, w)
      else
        let device = take (length (zip_name zf) - 4) (zip_name zf)
        in case get_remote_info zf of
             Inl e \<Rightarrow> (Inl e, w)
           | Inr info \<Rightarrow>
               (case import_stages cfg device info (zip_members zf) w of
                  (Inl e, w1) \<Rightarrow> (Inl e, w1)
                | (Inr st, w1) \<Rightarrow>
                    (case promote st w1 of
                       (Inl e, w2) \<Rightarrow> (Inl e, w2)
                     | (Inr _, w2) \<Rightarrow> (Inr (Some [''OK:'']), w2))))"

section \<open>The merge the two formats share\<close>

text \<open>The second loops of \<open>import_dcm\<close> and \<open>import_lib\<close> are one loop, written twice
  with the markers of each format. \<open>merge_loop\<close> is that loop with the markers as
  parameters, and \<open>merge_into\<close> is the code around it (lines 230 to 273 and 409 to
  461); the section on the merge proves that the two functions are its instances.\<close>

datatype line_kind = NotOpening | Opening string | Malformed

definition lib_opening :: "string \<Rightarrow> line_kind" where
  "lib_opening line =
     (if startswith line ''DEF '' then
        (case py_split line of _ # component_name # _ \<Rightarrow> Opening component_name | _ \<Rightarrow> Malformed)
      else NotOpening)"

definition dcm_opening :: "string \<Rightarrow> line_kind" where
  "dcm_opening line =
     (if startswith line ''$CMP '' then Opening (strip (drop 5 line)) else NotOpening)"

definition lib_closing :: "string \<Rightarrow> bool" where
  "lib_closing line = startswith line ''ENDDEF''"

definition dcm_closing :: "string \<Rightarrow> bool" where
  "dcm_closing line = startswith line ''$ENDCMP''"

fun merge_loop ::
  "(string \<Rightarrow> line_kind) \<Rightarrow> (string \<Rightarrow> bool) \<Rightarrow> (string \<Rightarrow> bool) \<Rightarrow> string \<Rightarrow> string \<Rightarrow> string
     \<Rightarrow> string list \<Rightarrow> bool \<Rightarrow> bool \<Rightarrow> string list \<Rightarrow> (exn + outcome) \<times> string \<times> string list" where
  "merge_loop opn cls conf device full body [] overwrite_existing overwrote_existing replies =
     (Inr Merged, [], replies)"
| "merge_loop opn cls conf device full body (line # rest) overwrite_existing overwrote_existing replies =
     (if is_trailer line then
        (Inr Merged, (if \<not> overwrote_existing then full else []) @ line, replies)
      else
        (case opn line of
           Malformed \<Rightarrow> (Inl IndexError, [], replies)
         | Opening component_name \<Rightarrow>
             if startswith component_name device then
               (case input replies of
                  (Inl e, replies') \<Rightarrow> (Inl e, [], replies')
                | (Inr reply, replies') \<Rightarrow>
                    if \<not> conf reply then (Inr Skipped, [], replies')
                    else (case merge_loop opn cls conf device full body rest True True replies' of
                            (r, out, replies'') \<Rightarrow> (r, body @ out, replies'')))
             else (case merge_loop opn cls conf device full body rest
                          overwrite_existing overwrote_existing replies of
                     (r, out, replies') \<Rightarrow> (r, line @ out, replies'))
         | NotOpening \<Rightarrow>
             if overwrite_existing then
               merge_loop opn cls conf device full body rest (\<not> cls line) overwrote_existing replies
             else (case merge_loop opn cls conf device full body rest
                          overwrite_existing overwrote_existing replies of
                     (r, out, replies') \<Rightarrow> (r, line @ out, replies'))))"

text \<open>The text the second loop reads from the target: the template for a target that
  is absent or empty, the target's own text otherwise.\<close>

definition target_text :: "string option \<Rightarrow> string \<Rightarrow> string" where
  "target_text content template =
     (case content of None \<Rightarrow> template | Some t \<Rightarrow> if t = [] then template else t)"

definition merge_into ::
  "path \<Rightarrow> path \<Rightarrow> string \<Rightarrow> (string list \<Rightarrow> string list \<Rightarrow> (exn + outcome) \<times> string \<times> string list)
     \<Rightarrow> world \<Rightarrow> (exn + (path \<times> path)) \<times> world" where
  "merge_into rd wr template loop w =
     (case check_file rd w of
        (Inl e, w1) \<Rightarrow> (Inl e, w1)
      | (Inr _, w1) \<Rightarrow>
     (case check_file wr w1 of
        (Inl e, w2) \<Rightarrow> (Inl e, w2)
      | (Inr _, w2) \<Rightarrow>
     (case files w2 rd of
        None \<Rightarrow> (Inl IsADirectoryError, w2)
      | Some _ \<Rightarrow>
     (case write_text wr [] w2 of
        Inl e \<Rightarrow> (Inl e, w2)
      | Inr w3 \<Rightarrow>
     (let w4 = write_template rd template w3
      in case files w4 rd of
           None \<Rightarrow> (Inl IsADirectoryError, w4)
         | Some text \<Rightarrow>
             (case loop (readlines text) (stdin w4) of
                (r, out, replies') \<Rightarrow>
                  let w5 = w4\<lparr>files := (files w4)(wr \<mapsto> out), stdin := replies'\<rparr>
                  in (case r of Inl e \<Rightarrow> (Inl e, w5) | Inr _ \<Rightarrow> (Inr (rd, wr), w5))))))))"

text \<open>The lines of a target, as the loop tells them apart: a line it copies (neither
  the trailer nor the opening line of a record of the device), the opening line of a
  record of the device, a line inside such a record, and the line that closes it.\<close>

definition other_line :: "(string \<Rightarrow> line_kind) \<Rightarrow> string \<Rightarrow> string \<Rightarrow> bool" where
  "other_line opn device l =
     (\<not> is_trailer l \<and>
      (case opn l of NotOpening \<Rightarrow> True | Opening n \<Rightarrow> \<not> startswith n device | Malformed \<Rightarrow> False))"

definition matching_line :: "(string \<Rightarrow> line_kind) \<Rightarrow> string \<Rightarrow> string \<Rightarrow> bool" where
  "matching_line opn device l =
     (\<not> is_trailer l \<and>
      (case opn l of NotOpening \<Rightarrow> False | Opening n \<Rightarrow> startswith n device | Malformed \<Rightarrow> False))"

definition inner_line :: "(string \<Rightarrow> line_kind) \<Rightarrow> (string \<Rightarrow> bool) \<Rightarrow> string \<Rightarrow> bool" where
  "inner_line opn cls l = (\<not> is_trailer l \<and> opn l = NotOpening \<and> \<not> cls l)"

definition closing_line :: "(string \<Rightarrow> line_kind) \<Rightarrow> (string \<Rightarrow> bool) \<Rightarrow> string \<Rightarrow> bool" where
  "closing_line opn cls l = (\<not> is_trailer l \<and> opn l = NotOpening \<and> cls l)"

text \<open>The names \<open>import_footprint\<close> takes for footprint files, and the paths it gives
  them in the footprint library of the remote type.\<close>

definition footprint_name :: "string \<Rightarrow> bool" where
  "footprint_name n = (endswith n ''.kicad_mod'' \<or> endswith n ''.mod'')"

definition footprint_file_read :: "config \<Rightarrow> REMOTE_TYPES \<Rightarrow> string \<Rightarrow> path" where
  "footprint_file_read cfg rt n =
     pjoin (pjoin (REMOTE_FOOTPRINTS_PATH cfg) (remote_name rt @ ''.pretty'')) n"

definition footprint_file_write :: "config \<Rightarrow> REMOTE_TYPES \<Rightarrow> string \<Rightarrow> path" where
  "footprint_file_write cfg rt n =
     pjoin (pjoin (REMOTE_FOOTPRINTS_PATH cfg) (remote_name rt @ ''.pretty'')) (n @ ''~'')"

text \<open>The lines a text yields when it is read: every line ends with its newline and
  holds no other, except that the last line may lack it; no line is empty and none
  holds a carriage return.\<close>

definition terminated :: "string \<Rightarrow> bool" where
  "terminated l = (l \<noteq> [] \<and> last l = LF \<and> LF \<notin> set (butlast l) \<and> CR \<notin> set l)"

fun text_lines :: "string list \<Rightarrow> bool" where
  "text_lines [] = True"
| "text_lines [l] = (l \<noteq> [] \<and> LF \<notin> set (butlast l) \<and> CR \<notin> set l)"
| "text_lines (l # m # ls) = (terminated l \<and> text_lines (m # ls))"

text \<open>A record as the merge can find it again in the library it has written it to.
  \<open>with_header\<close> and \<open>record\<close> are the two slices of the scan, as lists of lines without
  their newline: the record opens with a line the second loop takes for the opening
  line of the device, closes with a closing line, and has neither in between; the
  header lines before it are lines the loop copies; and no line holds a line break.\<close>

definition record_well_formed ::
  "(string \<Rightarrow> line_kind) \<Rightarrow> (string \<Rightarrow> bool) \<Rightarrow> string \<Rightarrow> string list \<Rightarrow> string list \<Rightarrow> bool" where
  "record_well_formed opn cls device with_header record =
     (2 \<le> length record \<and> length record \<le> length with_header
      \<and> drop (length with_header - length record) with_header = record
      \<and> (\<forall>l\<in>set with_header. LF \<notin> set l \<and> CR \<notin> set l)
      \<and> (\<forall>l\<in>set (take (length with_header - length record) with_header).
             other_line opn device (l @ [LF]))
      \<and> matching_line opn device (hd record @ [LF])
      \<and> (\<forall>l\<in>set (butlast (tl record)). inner_line opn cls (l @ [LF]))
      \<and> closing_line opn cls (last record @ [LF]))"

section \<open>A sample archive and library\<close>

text \<open>The inputs the concrete runs below start from: an archive \<open>X.zip\<close> in the flat
  layout with a description record, a symbol record, one footprint and one model, and
  a library directory whose description library already holds the records \<open>A\<close> and \<open>X\<close>.\<close>

definition unlines :: "string list \<Rightarrow> string" where
  "unlines xs = concat (map (\<lambda>l. l @ [LF]) xs)"

definition sample_config :: config where
  "sample_config = \<lparr>REMOTE_LIB_PATH = [''lib''], REMOTE_FOOTPRINTS_PATH = [''fp''],
                      REMOTE_3DMODEL_PATH = [''3d'']\<rparr>"

definition sample_dcm :: string where
  "sample_dcm = unlines [''EESchema-DOCLIB  Version 2.0'', ''#'', ''$CMP X'', ''D new'', ''F url'',
                         ''$ENDCMP'', ''#'', ''#End Doc Library'']"

definition sample_lib :: string where
  "sample_lib = unlines [''EESchema-LIBRARY Version 2.3'', ''#'', ''# X'', ''#'', ''DEF X U 0'',
                         ''F2 '' @ [DQ] @ ''FP1'' @ [DQ] @ '' 0'', ''ENDDEF'', ''#'', ''# End Library'']"

definition sample_info :: remote_info where
  "sample_info =
     \<lparr>dcm_path = Some (''X.dcm'', sample_dcm),
      lib_path = (''X.lib'', sample_lib),
      footprint_path = Inr [(''X.kicad_mod'', unlines [''(module X'', '')''])],
      model_path = Inr [''X.step''],
      remote_type = SNAPEDA\<rparr>"

definition sample_zip :: zip_file where
  "sample_zip = \<lparr>zip_name = ''X.zip'', is_zipfile = True, get_remote_info = Inr sample_info,
                  zip_members = [''X.step'' \<mapsto> ''STEP'']\<rparr>"

definition old_dcm :: string where
  "old_dcm = unlines [''EESchema-DOCLIB  Version 2.0'', ''#'', ''$CMP A'', ''D a'', ''$ENDCMP'', ''#'',
                      ''$CMP X'', ''D old'', ''$ENDCMP'', ''#'', ''#End Doc Library'']"

definition sample_world :: "string list \<Rightarrow> world" where
  "sample_world replies =
     \<lparr>files = [[''lib'', ''SNAPEDA.dcm''] \<mapsto> old_dcm],
      dirs = {[], [''lib'']}, stdin = replies, modified_objects = []\<rparr>"

definition old_lib :: string where
  "old_lib = unlines [''EESchema-LIBRARY Version 2.4'', ''#encoding utf-8'', ''#'', ''# A'', ''#'',
                      ''DEF A U 0'', ''ENDDEF'', ''#'', ''#End Library'']"

definition other_dcm :: string where
  "other_dcm = unlines [''EESchema-DOCLIB  Version 2.0'', ''#'', ''$CMP A'', ''D a'', ''$ENDCMP'', ''#'',
                        ''#End Doc Library'']"

text \<open>A library directory with the given description and symbol libraries.\<close>

definition library_world :: "string \<Rightarrow> string \<Rightarrow> string list \<Rightarrow> world" where
  "library_world dcm lib replies =
     \<lparr>files = [[''lib'', ''SNAPEDA.dcm''] \<mapsto> dcm, [''lib'', ''SNAPEDA.lib''] \<mapsto> lib],
      dirs = {[], [''lib'']}, stdin = replies, modified_objects = []\<rparr>"

text \<open>A symbol library that holds a record \<open>X\<close> under a header block of its own.\<close>

definition x_lib :: string where
  "x_lib = unlines [''EESchema-LIBRARY Version 2.4'', ''#encoding utf-8'', ''#'', ''# X old'', ''#'',
                    ''DEF X U 0'', ''F0 old'', ''ENDDEF'', ''#'', ''#End Library'']"

text \<open>Following the spec's words (section 8, second property, with the range
  \<open>[headerStart ?? start, end)\<close> of section 4.1): the target with its lines from \<open>a\<close> to
  \<open>b\<close>, \<open>b\<close> excluded, replaced by \<open>record\<close>, and every other line unchanged.\<close>

definition range_replaced :: "string list \<Rightarrow> nat \<Rightarrow> nat \<Rightarrow> string \<Rightarrow> string" where
  "range_replaced target a b record = concat (take a target) @ record @ concat (drop b target)"

text \<open>What the scans of the sample archive return for the device \<open>X\<close>: the lines as the
  scan leaves them, and the cursors.\<close>

definition scanned_lib :: "string list \<times> scan" where
  "scanned_lib =
     ([''EESchema-LIBRARY Version 2.3'', ''#'', ''# X'', ''#'', ''DEF X U 0'',
       ''F2 '' @ [DQ] @ ''SNAPEDA:FP1'' @ [DQ] @ '' 0'', ''ENDDEF'', ''#'', ''# End Library''],
      \<lparr>index_start = Some 4, index_end = Some 7, index_header_start = Some 1\<rparr>)"

definition scanned_dcm :: "string list \<times> scan" where
  "scanned_dcm =
     ([''EESchema-DOCLIB  Version 2.0'', ''#'', ''$CMP X'', ''D new'', ''F url'',
       ''$ENDCMP'', ''#'', ''#End Doc Library''],
      \<lparr>index_start = Some 2, index_end = Some 6, index_header_start = Some 1\<rparr>)"


text \<open>A symbol file of an archive with a second \<open>DEF\<close> line before the \<open>ENDDEF\<close> line,
  and a description library with a second \<open>$CMP\<close> line before the \<open>$ENDCMP\<close> line.\<close>

definition nested_lib :: "string \<times> string" where
  "nested_lib = (''X.lib'', unlines [''DEF X U 0'', ''DEF X U 1'', ''ENDDEF''])"

definition nested_dcm :: string where
  "nested_dcm = unlines [''EESchema-DOCLIB  Version 2.0'', ''$CMP A'', ''$CMP B'', ''$ENDCMP'',
                         ''#End Doc Library'']"

text \<open>An archive without a model, a library directory with a footprint library, and
  the same directory with a staging file left under the name of the footprint.\<close>

definition no_model_zip :: zip_file where
  "no_model_zip =
     \<lparr>zip_name = ''X.zip'', is_zipfile = True,
      get_remote_info = Inr (sample_info\<lparr>model_path := Inr []\<rparr>),
      zip_members = Map.empty\<rparr>"

definition footprint_world :: "string list \<Rightarrow> world" where
  "footprint_world replies =
     \<lparr>files = [[''lib'', ''SNAPEDA.dcm''] \<mapsto> old_dcm],
      dirs = {[], [''lib''], [''fp''], [''fp'', ''SNAPEDA.pretty'']},
      stdin = replies, modified_objects = []\<rparr>"

definition stale_world :: "string list \<Rightarrow> world" where
  "stale_world replies =
     \<lparr>files = [[''lib'', ''SNAPEDA.dcm''] \<mapsto> old_dcm,
               [''fp'', ''SNAPEDA.pretty'', ''X.kicad_mod~''] \<mapsto> ''stale''],
      dirs = {[], [''lib''], [''fp''], [''fp'', ''SNAPEDA.pretty'']},
      stdin = replies, modified_objects = []\<rparr>"

text \<open>An archive whose symbol file holds a record of another device, and a library
  directory with an empty description library and a footprint installed earlier.\<close>

definition unexpected_zip :: zip_file where
  "unexpected_zip =
     \<lparr>zip_name = ''X.zip'', is_zipfile = True,
      get_remote_info = Inr (sample_info\<lparr>lib_path := (''X.lib'', unlines [''DEF Y U 0'', ''ENDDEF''])\<rparr>),
      zip_members = [''X.step'' \<mapsto> ''STEP'']\<rparr>"

definition installed_world :: "string list \<Rightarrow> world" where
  "installed_world replies =
     \<lparr>files = [[''lib'', ''SNAPEDA.dcm''] \<mapsto> [],
               [''fp'', ''SNAPEDA.pretty'', ''X.kicad_mod''] \<mapsto> unlines [''(module old'', '')'']],
      dirs = {[], [''lib''], [''fp''], [''fp'', ''SNAPEDA.pretty'']},
      stdin = replies, modified_objects = []\<rparr>"


section \<open>Declining an overwrite\<close>

lemma declined_run_ok:
  "fst (import_all sample_config sample_zip (sample_world ['''', ''n''])) = Inr (Some [''OK:''])"
  by code_simp

lemma declined_run_dcm:
  "files (snd (import_all sample_config sample_zip (sample_world ['''', ''n''])))
         [''lib'', ''SNAPEDA.dcm'']
   = Some (unlines [''EESchema-DOCLIB  Version 2.0'', ''#'', ''$CMP A'', ''D a'', ''$ENDCMP'', ''#''])"
  by code_simp

text \<open>
  C2. The operator keeps the description (empty reply) and answers \<open>n\<close> when asked
  whether to replace the record \<open>X\<close> of the description library. The import returns
  \<open>('OK:',)\<close>, and the description library, which held the records \<open>A\<close> and \<open>X\<close> and the
  trailer, is left with the lines that precede the record \<open>X\<close>: the partly written
  staging file has been renamed over it.
\<close>

theorem declined_overwrite_truncates_target:
  "fst (import_all sample_config sample_zip (sample_world ['''', ''n''])) = Inr (Some [''OK:''])
   \<and> files (sample_world ['''', ''n'']) [''lib'', ''SNAPEDA.dcm''] = Some old_dcm
   \<and> files (snd (import_all sample_config sample_zip (sample_world ['''', ''n''])))
        [''lib'', ''SNAPEDA.dcm'']
      = Some (unlines [''EESchema-DOCLIB  Version 2.0'', ''#'', ''$CMP A'', ''D a'', ''$ENDCMP'', ''#''])
   \<and> old_dcm \<noteq> unlines [''EESchema-DOCLIB  Version 2.0'', ''#'', ''$CMP A'', ''D a'', ''$ENDCMP'', ''#'']"
proof -
  have "files (sample_world ['''', ''n'']) [''lib'', ''SNAPEDA.dcm''] = Some old_dcm"
    by (simp add: sample_world_def)
  moreover have "old_dcm \<noteq> unlines [''EESchema-DOCLIB  Version 2.0'', ''#'', ''$CMP A'', ''D a'', ''$ENDCMP'', ''#'']"
    by code_simp
  ultimately show ?thesis
    using declined_run_ok declined_run_dcm by simp
qed

section \<open>Facts about the string operations\<close>

lemma startswith_simps [simp]:
  "startswith s [] = True"
  "startswith [] (p # ps) = False"
  "startswith (c # cs) (p # ps) = (c = p \<and> startswith cs ps)"
  by (auto simp: startswith_def)

lemma startswith_first: "startswith l (p # ps) \<Longrightarrow> startswith l (q # qs) \<Longrightarrow> p = q"
  by (cases l) auto

section \<open>A record that is not the device\<close>

lemma lib_scan_line_other:
  assumes "index_start s = None" "\<not> startswith l ''DEF ''"
  shows "\<exists>s'. lib_scan_line device rt n idx l s = Inr (l, s') \<and> index_start s' = None"
  using assms by (simp add: lib_scan_line_def)

lemma lib_scan_loop_unexpected:
  assumes "index_start s = None" "\<forall>l\<in>set pre. \<not> startswith l ''DEF ''"
    "startswith line ''DEF ''" "1 < length (py_split line)"
    "\<not> startswith (py_split line ! 1) device"
  shows "lib_scan_loop device rt n idx (pre @ line # post) s
         = Inl (Warning [''Unexpected device in'' @ n])"
  using assms
proof (induction pre arbitrary: idx s)
  case Nil
  from Nil(4) obtain a name ts where sp: "py_split line = a # name # ts"
    by (cases "py_split line"; cases "tl (py_split line)") auto
  with Nil show ?case by (auto simp: lib_scan_line_def dest: startswith_first)
next
  case (Cons l pre)
  from Cons.prems obtain s' where
    "lib_scan_line device rt n idx l s = Inr (l, s')" "index_start s' = None"
    using lib_scan_line_other[of s l device rt n idx] by auto
  with Cons show ?case by simp
qed

lemma dcm_scan_line_other:
  assumes "index_start s = None" "\<not> startswith l ''$CMP ''"
  shows "\<exists>s'. dcm_scan_line device dp idx l s replies = (Inr (l, s'), replies) \<and> index_start s' = None"
  using assms by (simp add: dcm_scan_line_def)

lemma dcm_scan_loop_unexpected:
  assumes "index_start s = None" "\<forall>l\<in>set pre. \<not> startswith l ''$CMP ''"
    "startswith line ''$CMP ''" "\<not> startswith (strip (drop 5 line)) device"
  shows "dcm_scan_loop device dp idx (pre @ line # post) s replies
         = (Inl (dcm_warning ''Unexpected device in'' dp), replies)"
  using assms
proof (induction pre arbitrary: idx s)
  case Nil
  then show ?case by (auto simp: dcm_scan_line_def dest: startswith_first)
next
  case (Cons l pre)
  from Cons.prems obtain s' where
    "dcm_scan_line device dp idx l s replies = (Inr (l, s'), replies)" "index_start s' = None"
    using dcm_scan_line_other[of s l device dp idx replies] by auto
  with Cons show ?case by simp
qed

text \<open>
  C6. When the first record-opening line of the archive's symbol file (the first line
  that starts with \<open>DEF \<close>, carrying a name as its second word) or of its
  description file (the first line that starts with \<open>$CMP \<close>) has a name that
  does not start with the device, the merge raises the warning \<open>Unexpected device in\<close>
  and returns the world as it found it: no file, directory, reply or log entry has
  changed.
\<close>

theorem unexpected_device_no_write:
  "(splitlines (snd lp) = pre @ line # post \<longrightarrow>
      (\<forall>l\<in>set pre. \<not> startswith l ''DEF '') \<longrightarrow> startswith line ''DEF '' \<longrightarrow>
      1 < length (py_split line) \<longrightarrow> \<not> startswith (py_split line ! 1) device \<longrightarrow>
      import_lib cfg device rt lp w
        = (Inl (Warning [''Unexpected device in'' @ fst lp]), w))
   \<and> (splitlines text = pre' @ line' # post' \<longrightarrow>
      (\<forall>l\<in>set pre'. \<not> startswith l ''$CMP '') \<longrightarrow> startswith line' ''$CMP '' \<longrightarrow>
      \<not> startswith (strip (drop 5 line')) device \<longrightarrow>
      import_dcm cfg device rt (Some (name, text)) w
        = (Inl (Warning [''Unexpected device in'' @ name]), w))"
proof (intro conjI impI)
  assume "splitlines (snd lp) = pre @ line # post"
    "\<forall>l\<in>set pre. \<not> startswith l ''DEF ''" "startswith line ''DEF ''"
    "1 < length (py_split line)" "\<not> startswith (py_split line ! 1) device"
  then show "import_lib cfg device rt lp w
        = (Inl (Warning [''Unexpected device in'' @ fst lp]), w)"
    by (simp add: import_lib_def lib_scan_def lib_scan_loop_unexpected scan_init_def)
next
  assume "splitlines text = pre' @ line' # post'"
    "\<forall>l\<in>set pre'. \<not> startswith l ''$CMP ''" "startswith line' ''$CMP ''"
    "\<not> startswith (strip (drop 5 line')) device"
  then show "import_dcm cfg device rt (Some (name, text)) w
        = (Inl (Warning [''Unexpected device in'' @ name]), w)"
    by (simp add: import_dcm_def dcm_scan_def dcm_scan_loop_unexpected scan_init_def dcm_warning_def)
qed

theorem unexpected_device_no_write_witness:
  "import_lib sample_config ''X'' SNAPEDA (''Y.lib'', unlines [''#'', ''DEF Y U 0'', ''ENDDEF'']) (sample_world [])
     = (Inl (Warning [''Unexpected device inY.lib'']), sample_world [])
   \<and> import_dcm sample_config ''X'' SNAPEDA (Some (''Y.dcm'', unlines [''#'', ''$CMP Y'', ''$ENDCMP''])) (sample_world [])
     = (Inl (Warning [''Unexpected device inY.dcm'']), sample_world [])"
proof -
  have a: "splitlines (snd (''Y.lib'', unlines [''#'', ''DEF Y U 0'', ''ENDDEF''])) = [''#''] @ ''DEF Y U 0'' # [''ENDDEF'']"
    by code_simp
  have b: "\<forall>l\<in>set [''#'']. \<not> startswith l ''DEF ''" by code_simp
  have c: "startswith ''DEF Y U 0'' ''DEF ''" by code_simp
  have d: "1 < length (py_split ''DEF Y U 0'')" by code_simp
  have e: "\<not> startswith (py_split ''DEF Y U 0'' ! 1) ''X''" by code_simp
  have a': "splitlines (unlines [''#'', ''$CMP Y'', ''$ENDCMP'']) = [''#''] @ ''$CMP Y'' # [''$ENDCMP'']"
    by code_simp
  have b': "\<forall>l\<in>set [''#'']. \<not> startswith l ''$CMP ''" by code_simp
  have c': "startswith ''$CMP Y'' ''$CMP ''" by code_simp
  have e': "\<not> startswith (strip (drop 5 ''$CMP Y'')) ''X''" by code_simp
  show ?thesis
    using unexpected_device_no_write[of "(''Y.lib'', unlines [''#'', ''DEF Y U 0'', ''ENDDEF''])"
        "[''#'']" "''DEF Y U 0''" "[''ENDDEF'']" "''X''" sample_config SNAPEDA "sample_world []"
        "unlines [''#'', ''$CMP Y'', ''$ENDCMP'']" "[''#'']" "''$CMP Y''" "[''$ENDCMP'']" "''Y.dcm''"]
      a b c d e a' b' c' e' by simp
qed

section \<open>The two merges are instances of one\<close>

lemma lib_merge_loop_eq:
  "lib_merge_loop device full body ls ov ow replies
   = merge_loop lib_opening lib_closing lib_confirmed device full body ls ov ow replies"
proof (induction ls arbitrary: ov ow replies)
  case Nil
  show ?case by simp
next
  case (Cons l ls)
  show ?case
    by (simp add: Cons lib_opening_def lib_closing_def input_def
        split: list.splits prod.splits sum.splits)
qed

lemma dcm_merge_loop_eq:
  "dcm_merge_loop device full body ls ov ow replies
   = merge_loop dcm_opening dcm_closing dcm_confirmed device full body ls ov ow replies"
proof (induction ls arbitrary: ov ow replies)
  case Nil
  show ?case by simp
next
  case (Cons l ls)
  show ?case
    by (simp add: Cons dcm_opening_def dcm_closing_def input_def Let_def
        split: list.splits prod.splits sum.splits)
qed

lemma import_lib_eq:
  "import_lib cfg device rt lp w =
     (case lib_scan device rt lp of
        Inl e \<Rightarrow> (Inl e, w)
      | Inr (lines, s) \<Rightarrow>
          merge_into (lib_file_read cfg rt) (lib_file_write cfg rt) lib_template
            (\<lambda>ls replies. merge_loop lib_opening lib_closing lib_confirmed device
                 (join_lines (record_lines_with_header lines s))
                 (join_lines (record_lines lines s)) ls False False replies) w)"
  unfolding import_lib_def merge_into_def lib_merge_loop_eq Let_def by (simp split: sum.splits)

lemma import_dcm_eq:
  "import_dcm cfg device rt dp w =
     (case dcm_scan device dp (stdin w) of
        (Inl e, replies) \<Rightarrow> (Inl e, w\<lparr>stdin := replies\<rparr>)
      | (Inr (lines, s), replies) \<Rightarrow>
          merge_into (dcm_file_read cfg rt) (dcm_file_write cfg rt) dcm_template
            (\<lambda>ls replies. merge_loop dcm_opening dcm_closing dcm_confirmed device
                 (join_lines (record_lines_with_header lines s))
                 (join_lines (record_lines lines s)) ls False False replies)
            (w\<lparr>stdin := replies\<rparr>))"
  unfolding import_dcm_def merge_into_def dcm_merge_loop_eq Let_def by (simp split: sum.splits prod.splits)

section \<open>The file system and the merge, step by step\<close>

lemma append_simps [simp]:
  "files (ModifiedObject_append ob m w) = files w"
  "dirs (ModifiedObject_append ob m w) = dirs w"
  "stdin (ModifiedObject_append ob m w) = stdin w"
  by (simp_all add: ModifiedObject_append_def)

lemma check_file_stdin [simp]: "stdin (snd (check_file p w)) = stdin w"
  by (simp add: check_file_def mkdir_parents_def Let_def split: sum.splits)

lemma check_file_ok:
  assumes "is_dir w (parent p)" "\<not> is_dir w p"
  shows "fst (check_file p w) = Inr ()"
    "files (snd (check_file p w)) = (files w)(p \<mapsto> (case files w p of None \<Rightarrow> [] | Some t \<Rightarrow> t))"
    "dirs (snd (check_file p w)) = dirs w"
  using assms by (auto simp: check_file_def Let_def path_exists_def is_dir_def split: option.splits)

lemma parent_pjoin [simp]: "parent (pjoin p n) = p"
  by (simp add: parent_def pjoin_def)

lemma pjoin_eq [simp]: "(pjoin p n = pjoin q m) = (p = q \<and> n = m)"
  by (simp add: pjoin_def)

lemma read_write_neq [simp]:
  "lib_file_read cfg rt \<noteq> lib_file_write cfg rt" "lib_file_write cfg rt \<noteq> lib_file_read cfg rt"
  "dcm_file_read cfg rt \<noteq> dcm_file_write cfg rt" "dcm_file_write cfg rt \<noteq> dcm_file_read cfg rt"
  by (simp_all add: lib_file_read_def lib_file_write_def dcm_file_read_def dcm_file_write_def)

lemma merge_into_run:
  assumes d: "is_dir w (parent rd)" "parent wr = parent rd" "\<not> is_dir w rd" "\<not> is_dir w wr"
    and ne: "rd \<noteq> wr" and tne: "template \<noteq> []"
    and loop: "loop (readlines (target_text (files w rd) template)) (stdin w) = (r, out, rs)"
  shows "fst (merge_into rd wr template loop w)
           = (case r of Inl e \<Rightarrow> Inl e | Inr _ \<Rightarrow> Inr (rd, wr))"
    and "files (snd (merge_into rd wr template loop w))
           = (files w)(rd \<mapsto> target_text (files w rd) template, wr \<mapsto> out)"
    and "stdin (snd (merge_into rd wr template loop w)) = rs"
    and "dirs (snd (merge_into rd wr template loop w)) = dirs w"
proof -
  obtain w1 where w1: "check_file rd w = (Inr (), w1)"
    "files w1 = (files w)(rd \<mapsto> (case files w rd of None \<Rightarrow> [] | Some t \<Rightarrow> t))"
    "dirs w1 = dirs w" "stdin w1 = stdin w"
    using check_file_ok[of w rd] d
    by (metis check_file_stdin prod.collapse)
  have d1: "is_dir w1 (parent wr)" "\<not> is_dir w1 wr"
    using d w1 by (simp_all add: is_dir_def)
  obtain w2 where w2: "check_file wr w1 = (Inr (), w2)"
    "files w2 = (files w1)(wr \<mapsto> (case files w1 wr of None \<Rightarrow> [] | Some t \<Rightarrow> t))"
    "dirs w2 = dirs w1" "stdin w2 = stdin w1"
    using check_file_ok[OF d1]
    by (metis check_file_stdin prod.collapse)
  have f2: "files w2 = (files w)(rd \<mapsto> (case files w rd of None \<Rightarrow> [] | Some t \<Rightarrow> t),
                                wr \<mapsto> (case files w wr of None \<Rightarrow> [] | Some t \<Rightarrow> t))"
    using w1(2) w2(2) ne by simp
  have r2: "files w2 rd = Some (case files w rd of None \<Rightarrow> [] | Some t \<Rightarrow> t)"
    using ne by (simp add: f2)
  have nd: "\<not> is_dir w2 wr" using d1 w2(3) by (simp add: is_dir_def)
  let ?t = "target_text (files w rd) template"
  let ?w3 = "w2\<lparr>files := (files w2)(wr \<mapsto> [])\<rparr>"
  have wt: "write_text wr [] w2 = Inr ?w3"
    using nd f2 by (simp add: write_text_def)
  define w4 where "w4 = write_template rd template ?w3"
  have tpl: "files w4 = (files w)(rd \<mapsto> ?t, wr \<mapsto> [])"
    "stdin w4 = stdin w" "dirs w4 = dirs w"
    using f2 w1(3,4) w2(3,4) ne tne unfolding w4_def
    by (auto simp: write_template_def target_text_def fun_upd_twist split: option.splits)
  have r4: "files w4 rd = Some ?t" using ne by (simp add: tpl)
  have eq: "merge_into rd wr template loop w =
      (let w5 = w4\<lparr>files := (files w4)(wr \<mapsto> out), stdin := rs\<rparr>
       in (case r of Inl e \<Rightarrow> (Inl e, w5) | Inr _ \<Rightarrow> (Inr (rd, wr), w5)))"
    unfolding merge_into_def using w1(1) w2(1) wt loop r2 r4 tpl(2)
    by (simp add: Let_def w4_def[symmetric])
  show "fst (merge_into rd wr template loop w)
           = (case r of Inl e \<Rightarrow> Inl e | Inr _ \<Rightarrow> Inr (rd, wr))"
    and "files (snd (merge_into rd wr template loop w))
           = (files w)(rd \<mapsto> target_text (files w rd) template, wr \<mapsto> out)"
    and "stdin (snd (merge_into rd wr template loop w)) = rs"
    and "dirs (snd (merge_into rd wr template loop w)) = dirs w"
    unfolding eq using tpl by (simp_all add: Let_def split: sum.splits)
qed

lemma two_words: "1 < length xs \<Longrightarrow> \<exists>a b ts. xs = a # b # ts"
  by (cases xs; cases "tl xs") auto

lemma merge_loop_copy:
  assumes "\<forall>l\<in>set pre. other_line opn device l"
  shows "merge_loop opn cls conf device full body (pre @ rest) False ow replies
         = (case merge_loop opn cls conf device full body rest False ow replies of
              (r, out, rs) \<Rightarrow> (r, concat pre @ out, rs))"
  using assms
proof (induction pre)
  case Nil
  show ?case by simp
next
  case (Cons l pre)
  then show ?case
    by (cases "opn l") (auto simp: other_line_def split: prod.splits)
qed

lemma merge_loop_trailer:
  "is_trailer t \<Longrightarrow>
   merge_loop opn cls conf device full body (t # rest) ov ow replies
   = (Inr Merged, (if ow then [] else full) @ t, replies)"
  by simp

lemma merge_loop_match:
  assumes "matching_line opn device l" "conf reply"
  shows "merge_loop opn cls conf device full body (l # rest) ov ow (reply # replies)
         = (case merge_loop opn cls conf device full body rest True True replies of
              (r, out, rs) \<Rightarrow> (r, body @ out, rs))"
  using assms by (cases "opn l") (auto simp: matching_line_def input_def)

lemma merge_loop_skip:
  assumes "\<forall>l\<in>set inner. inner_line opn cls l" "closing_line opn cls c"
  shows "merge_loop opn cls conf device full body (inner @ c # rest) True ow replies
         = merge_loop opn cls conf device full body rest False ow replies"
  using assms
proof (induction inner)
  case Nil
  then show ?case by (simp add: closing_line_def)
next
  case (Cons l inner)
  then show ?case by (simp add: inner_line_def)
qed

section \<open>Inserting a new record\<close>

lemma concat_keepends: "concat (keepends_acc cur s) = cur @ s"
  by (induction s arbitrary: cur) auto

lemma universal_newlines_id: "CR \<notin> set s \<Longrightarrow> universal_newlines_acc False s = s"
  by (induction s) auto

lemma concat_readlines: "CR \<notin> set s \<Longrightarrow> concat (readlines s) = s"
  by (simp add: readlines_def concat_keepends universal_newlines_def universal_newlines_id)

lemma readlines_Nil [simp]: "readlines [] = []"
  by (simp add: readlines_def universal_newlines_def)

lemma templates_nonempty [simp]: "lib_template \<noteq> []" "dcm_template \<noteq> []"
  by (simp_all add: lib_template_def dcm_template_def)

lemma lib_paths [simp]:
  "parent (lib_file_read cfg rt) = REMOTE_LIB_PATH cfg" "parent (lib_file_write cfg rt) = REMOTE_LIB_PATH cfg"
  "parent (dcm_file_read cfg rt) = REMOTE_LIB_PATH cfg" "parent (dcm_file_write cfg rt) = REMOTE_LIB_PATH cfg"
  by (simp_all add: lib_file_read_def lib_file_write_def dcm_file_read_def dcm_file_write_def)


section \<open>Replacing an existing record\<close>

lemma merge_loop_replace:
  assumes "\<forall>l\<in>set pre. other_line opn device l" "matching_line opn device opener"
    "\<forall>l\<in>set inner. inner_line opn cls l" "closing_line opn cls closer"
    "\<forall>l\<in>set post. other_line opn device l" "is_trailer t" "conf reply"
  shows "merge_loop opn cls conf device full body (pre @ opener # inner @ closer # post @ t # rest)
           False False (reply # replies)
         = (Inr Merged, concat pre @ body @ concat post @ t, replies)"
  by (simp del: merge_loop.simps
      add: merge_loop_copy[OF assms(1)] merge_loop_match[where conf=conf, OF assms(2,7)]
      merge_loop_skip[OF assms(3,4)] merge_loop_copy[OF assms(5)] merge_loop_trailer[OF assms(6)])

lemma merge_into_replace:
  assumes d: "is_dir w (parent rd)" "parent wr = parent rd" "\<not> is_dir w rd" "\<not> is_dir w wr"
    and ne: "rd \<noteq> wr" and tne: "template \<noteq> []"
    and t: "files w rd = Some tgt" "readlines tgt = pre @ opener # inner @ closer # post @ [t]"
       "\<forall>l\<in>set pre. other_line opn device l" "matching_line opn device opener"
       "\<forall>l\<in>set inner. inner_line opn cls l" "closing_line opn cls closer"
       "\<forall>l\<in>set post. other_line opn device l" "is_trailer t"
       "stdin w = reply # replies" "conf reply"
  shows "fst (merge_into rd wr template (\<lambda>ls replies. merge_loop opn cls conf device full body ls False False replies) w) = Inr (rd, wr)"
    and "files (snd (merge_into rd wr template (\<lambda>ls replies. merge_loop opn cls conf device full body ls False False replies) w)) wr
           = Some (concat pre @ body @ concat post @ t)"
    and "files (snd (merge_into rd wr template (\<lambda>ls replies. merge_loop opn cls conf device full body ls False False replies) w)) rd
           = Some tgt"
    and "stdin (snd (merge_into rd wr template (\<lambda>ls replies. merge_loop opn cls conf device full body ls False False replies) w)) = replies"
proof -
  have ne': "tgt \<noteq> []" using t(2) by auto
  then have tt: "target_text (files w rd) template = tgt" by (simp add: target_text_def t(1))
  have loop: "merge_loop opn cls conf device full body (readlines (target_text (files w rd) template)) False False (stdin w)
       = (Inr Merged, concat pre @ body @ concat post @ t, replies)"
    unfolding tt t(2) t(9) by (rule merge_loop_replace[where conf=conf, OF t(3-8) t(10)])
  note r = merge_into_run[where loop="\<lambda>ls replies. merge_loop opn cls conf device full body ls False False replies",
      OF d ne tne loop]
  show "fst (merge_into rd wr template (\<lambda>ls replies. merge_loop opn cls conf device full body ls False False replies) w) = Inr (rd, wr)"
    using r(1) by simp
  show "files (snd (merge_into rd wr template (\<lambda>ls replies. merge_loop opn cls conf device full body ls False False replies) w)) wr
           = Some (concat pre @ body @ concat post @ t)"
    using r(2) by simp
  show "files (snd (merge_into rd wr template (\<lambda>ls replies. merge_loop opn cls conf device full body ls False False replies) w)) rd
           = Some tgt"
    using r(2) ne tt by simp
  show "stdin (snd (merge_into rd wr template (\<lambda>ls replies. merge_loop opn cls conf device full body ls False False replies) w)) = replies"
    using r(3) by simp
qed

lemma scanned_lib_eq: "lib_scan ''X'' SNAPEDA (lib_path sample_info) = Inr scanned_lib"
  by code_simp

lemma scanned_dcm_eq:
  "dcm_scan ''X'' (dcm_path sample_info) (r # rs) = (Inr scanned_dcm, rs)" if "r = []"
  unfolding that by code_simp

lemma replaced_run_staged:
  "files (snd (import_lib sample_config ''X'' SNAPEDA (lib_path sample_info)
                 (library_world old_dcm x_lib [''y'']))) (lib_file_write sample_config SNAPEDA)
   = Some (unlines [''EESchema-LIBRARY Version 2.4'', ''#encoding utf-8'', ''#'', ''# X old'', ''#'',
                    ''DEF X U 0'', ''F2 '' @ [DQ] @ ''SNAPEDA:FP1'' @ [DQ] @ '' 0'', ''ENDDEF'', ''#'',
                    ''#End Library''])"
  by code_simp

lemma replaced_run_claimed:
  "range_replaced (readlines x_lib) 2 8 (join_lines (record_lines_with_header (fst scanned_lib) (snd scanned_lib)))
   = unlines [''EESchema-LIBRARY Version 2.4'', ''#encoding utf-8'', ''#'', ''# X'', ''#'',
              ''DEF X U 0'', ''F2 '' @ [DQ] @ ''SNAPEDA:FP1'' @ [DQ] @ '' 0'', ''ENDDEF'', ''#'',
              ''#End Library'']"
  by code_simp

lemma replaced_run_differs:
  "unlines [''EESchema-LIBRARY Version 2.4'', ''#encoding utf-8'', ''#'', ''# X old'', ''#'',
            ''DEF X U 0'', ''F2 '' @ [DQ] @ ''SNAPEDA:FP1'' @ [DQ] @ '' 0'', ''ENDDEF'', ''#'',
            ''#End Library'']
   \<noteq> unlines [''EESchema-LIBRARY Version 2.4'', ''#encoding utf-8'', ''#'', ''# X'', ''#'',
              ''DEF X U 0'', ''F2 '' @ [DQ] @ ''SNAPEDA:FP1'' @ [DQ] @ '' 0'', ''ENDDEF'', ''#'',
              ''#End Library'']"
  by code_simp

text \<open>
  C3 as stated fails. The symbol library holds the record \<open>X\<close> under the header block
  \<open>#\<close>, \<open># X old\<close>, \<open>#\<close> (its lines 2 to 4; the record ends before line 8), the archive's
  record comes with the header block \<open>#\<close>, \<open># X\<close>, \<open>#\<close>, and the operator confirms. The
  staging file still holds the header line \<open># X old\<close>: it is not the target with the
  range from the header block to the closing line replaced by the archive's record.
\<close>

theorem header_block_not_replaced:
  "files (snd (import_lib sample_config ''X'' SNAPEDA (lib_path sample_info)
                 (library_world old_dcm x_lib [''y'']))) (lib_file_write sample_config SNAPEDA)
   = Some (unlines [''EESchema-LIBRARY Version 2.4'', ''#encoding utf-8'', ''#'', ''# X old'', ''#'',
                    ''DEF X U 0'', ''F2 '' @ [DQ] @ ''SNAPEDA:FP1'' @ [DQ] @ '' 0'', ''ENDDEF'', ''#'',
                    ''#End Library''])
   \<and> files (snd (import_lib sample_config ''X'' SNAPEDA (lib_path sample_info)
                 (library_world old_dcm x_lib [''y'']))) (lib_file_write sample_config SNAPEDA)
   \<noteq> Some (range_replaced (readlines x_lib) 2 8
              (join_lines (record_lines_with_header (fst scanned_lib) (snd scanned_lib))))"
  using replaced_run_staged replaced_run_claimed replaced_run_differs by simp

section \<open>Qualifying the footprint field\<close>

lemma lib_scan_line_start:
  assumes "lib_scan_line device rt n idx l s = Inr (l', s')"
  shows "index_start s = Some a \<Longrightarrow> index_start s' = Some a"
    and "index_start s = None \<Longrightarrow> index_start s' = None \<or> index_start s' = Some idx"
    and "index_end s = Some e \<Longrightarrow> index_end s' = Some e"
    and "index_end s = None \<Longrightarrow> index_end s' = None \<or> index_end s' = Some (idx + 1)"
    and "index_start s = None \<Longrightarrow> index_end s = None \<Longrightarrow> index_end s' = None"
  using assms
  by (auto simp: lib_scan_line_def Let_def split: if_splits list.splits)

lemma lib_scan_loop_Cons:
  assumes "lib_scan_loop device rt n idx (x # xs) s = Inr (ls, s')"
  shows "\<exists>x' s0 rest'. lib_scan_line device rt n idx x s = Inr (x', s0)
            \<and> lib_scan_loop device rt n (Suc idx) xs s0 = Inr (rest', s') \<and> ls = x' # rest'"
proof (cases "lib_scan_line device rt n idx x s")
  case (Inl e)
  with assms show ?thesis by simp
next
  case (Inr p)
  obtain x' s0 where p: "p = (x', s0)" by (cases p)
  show ?thesis
  proof (cases "lib_scan_loop device rt n (Suc idx) xs s0")
    case (Inl e)
    with assms Inr p show ?thesis by simp
  next
    case r: (Inr q)
    obtain rest' s2 where q: "q = (rest', s2)" by (cases q)
    with assms Inr p r show ?thesis by simp
  qed
qed

lemma lib_scan_loop_split:
  assumes "lib_scan_loop device rt n idx (xs @ ys) s = Inr (ls, s')"
  shows "\<exists>xs' ys' s1. lib_scan_loop device rt n idx xs s = Inr (xs', s1)
            \<and> lib_scan_loop device rt n (idx + length xs) ys s1 = Inr (ys', s')
            \<and> ls = xs' @ ys' \<and> length xs' = length xs"
  using assms
proof (induction xs arbitrary: idx s ls)
  case Nil
  then show ?case by simp
next
  case (Cons x xs)
  from lib_scan_loop_Cons[of device rt n idx x "xs @ ys" s ls s'] Cons.prems
  obtain x' s0 rest' where x: "lib_scan_line device rt n idx x s = Inr (x', s0)"
    and r: "lib_scan_loop device rt n (Suc idx) (xs @ ys) s0 = Inr (rest', s')" "ls = x' # rest'"
    by auto
  from Cons.IH[OF r(1)] obtain xs' ys' s1 where
    "lib_scan_loop device rt n (Suc idx) xs s0 = Inr (xs', s1)"
    "lib_scan_loop device rt n (Suc idx + length xs) ys s1 = Inr (ys', s')"
    "rest' = xs' @ ys'" "length xs' = length xs"
    by blast
  with x r(2) show ?case by simp
qed








lemma join_lines_concat: "xs \<noteq> [] \<Longrightarrow> join_lines xs = concat (map (\<lambda>l. l @ [LF]) xs)"
proof (induction xs rule: join_nl.induct)
  case 1
  then show ?case by simp
next
  case (2 x)
  show ?case by (simp add: join_lines_def)
next
  case (3 x y ys)
  then show ?case by (simp add: join_lines_def)
qed






section \<open>Several records in one file\<close>

lemma dcm_scan_line_inside:
  assumes "index_start s \<noteq> None" "index_end s = None"
    "\<not> startswith l ''$CMP ''" "\<not> startswith l ''$ENDCMP''"
    "startswith l ''D'' \<longrightarrow> replies \<noteq> []"
  shows "\<exists>l'. dcm_scan_line device dp idx l s replies
           = (Inr (l', s), if startswith l ''D'' then tl replies else replies)"
  using assms
  by (cases replies) (auto simp: dcm_scan_line_def input_def Let_def)

lemma dcm_scan_loop_second:
  assumes "index_start s \<noteq> None" "index_end s = None"
    "\<forall>l\<in>set mid. \<not> startswith l ''$CMP '' \<and> \<not> startswith l ''$ENDCMP''"
    "startswith l2 ''$CMP ''"
    "length (filter (\<lambda>l. startswith l ''D'') mid) \<le> length replies"
  shows "fst (dcm_scan_loop device dp idx (mid @ l2 # post) s replies)
         = Inl (dcm_warning ''Multiple devices in'' dp)"
  using assms
proof (induction mid arbitrary: idx replies)
  case Nil
  then show ?case by (auto simp: dcm_scan_line_def)
next
  case (Cons l mid)
  have r: "startswith l ''D'' \<longrightarrow> replies \<noteq> []" using Cons.prems(5) by auto
  from dcm_scan_line_inside[OF Cons.prems(1,2) _ _ r, of device dp idx] Cons.prems(3)
  obtain l' where l': "dcm_scan_line device dp idx l s replies
           = (Inr (l', s), if startswith l ''D'' then tl replies else replies)"
    by auto
  let ?r = "if startswith l ''D'' then tl replies else replies"
  have len: "length (filter (\<lambda>l. startswith l ''D'') mid) \<le> length ?r"
    using Cons.prems(5) by (cases replies) (auto split: if_splits)
  from Cons.IH[OF Cons.prems(1,2) _ Cons.prems(4) len, of "Suc idx"] Cons.prems(3)
  have "fst (dcm_scan_loop device dp (Suc idx) (mid @ l2 # post) s ?r)
         = Inl (dcm_warning ''Multiple devices in'' dp)"
    by simp
  then show ?case
    using l' by (cases "dcm_scan_loop device dp (Suc idx) (mid @ l2 # post) s ?r")
      (auto split: sum.splits)
qed

lemma dcm_scan_loop_multiple:
  assumes "index_start s = None" "index_end s = None"
    "\<forall>l\<in>set pre. \<not> startswith l ''$CMP ''"
    "startswith l1 ''$CMP ''" "startswith (strip (drop 5 l1)) device"
    "\<forall>l\<in>set mid. \<not> startswith l ''$CMP '' \<and> \<not> startswith l ''$ENDCMP''"
    "startswith l2 ''$CMP ''"
    "length (filter (\<lambda>l. startswith l ''D'') mid) \<le> length replies"
  shows "fst (dcm_scan_loop device dp idx (pre @ l1 # mid @ l2 # post) s replies)
         = Inl (dcm_warning ''Multiple devices in'' dp)"
  using assms(1,2,3)
proof (induction pre arbitrary: idx s)
  case Nil
  let ?s = "s\<lparr>index_start := Some idx\<rparr>"
  have l1: "dcm_scan_line device dp idx l1 s replies
        = (Inr (replace1 (strip (drop 5 l1)) device l1, ?s), replies)"
    using Nil(1) assms(4,5) by (auto simp: dcm_scan_line_def Let_def dest: startswith_first)
  have "fst (dcm_scan_loop device dp (Suc idx) (mid @ l2 # post) ?s replies)
         = Inl (dcm_warning ''Multiple devices in'' dp)"
    by (rule dcm_scan_loop_second[OF _ _ assms(6,7,8)]) (simp_all add: Nil(2))
  then show ?case
    using l1 by (cases "dcm_scan_loop device dp (Suc idx) (mid @ l2 # post) ?s replies")
      (auto split: sum.splits)
next
  case (Cons l pre)
  have "\<not> startswith l ''$CMP ''" using Cons.prems(3) by simp
  then have "dcm_scan_line device dp idx l s replies
      = (Inr (l, if startswith l ''#''
                 then (if strip l = ''#'' \<and> index_header_start s = None
                       then s\<lparr>index_header_start := Some idx\<rparr> else s)
                 else s\<lparr>index_header_start := None\<rparr>), replies)"
    (is "_ = (Inr (l, ?s), replies)")
    using Cons.prems(1) by (simp add: dcm_scan_line_def)
  moreover have "fst (dcm_scan_loop device dp (Suc idx) (pre @ l1 # mid @ l2 # post) ?s replies)
         = Inl (dcm_warning ''Multiple devices in'' dp)"
    by (rule Cons.IH) (use Cons.prems in auto)
  ultimately show ?case
    by (cases "dcm_scan_loop device dp (Suc idx) (pre @ l1 # mid @ l2 # post) ?s replies")
      (auto split: sum.splits)
qed

lemma import_dcm_scan_error:
  assumes "fst (dcm_scan device dp (stdin w)) = Inl e"
  shows "fst (import_dcm cfg device rt dp w) = Inl e"
    and "files (snd (import_dcm cfg device rt dp w)) = files w"
    and "dirs (snd (import_dcm cfg device rt dp w)) = dirs w"
    and "modified_objects (snd (import_dcm cfg device rt dp w)) = modified_objects w"
  using assms
  by (cases "dcm_scan device dp (stdin w)"; simp add: import_dcm_def)+

lemma lib_scan_loop_end_after_start:
  assumes "lib_scan_loop device rt n idx ls s = Inr (ls', s')"
    and "index_start s = None \<longrightarrow> index_end s = None"
  shows "index_start s' = None \<longrightarrow> index_end s' = None"
  using assms
proof (induction ls arbitrary: idx s ls')
  case Nil
  then show ?case by simp
next
  case (Cons x xs)
  from lib_scan_loop_Cons[OF Cons.prems(1)]
  obtain x' s0 rest' where x: "lib_scan_line device rt n idx x s = Inr (x', s0)"
    and r: "lib_scan_loop device rt n (Suc idx) xs s0 = Inr (rest', s')"
    by auto
  have "index_start s0 = None \<longrightarrow> index_end s0 = None"
  proof (cases "index_start s")
    case None
    with Cons.prems(2) lib_scan_line_start(5)[OF x] show ?thesis by simp
  next
    case (Some a)
    with lib_scan_line_start(1)[OF x] show ?thesis by simp
  qed
  from Cons.IH[OF r this] show ?case .
qed

lemma lib_scan_loop_append_error:
  assumes "lib_scan_loop device rt n idx xs s = Inr (xs', s1)"
    and "lib_scan_loop device rt n (idx + length xs) ys s1 = Inl e"
  shows "lib_scan_loop device rt n idx (xs @ ys) s = Inl e"
  using assms
proof (induction xs arbitrary: idx s xs')
  case Nil
  then show ?case by simp
next
  case (Cons x xs)
  from lib_scan_loop_Cons[OF Cons.prems(1)]
  obtain x' s0 rest' where x: "lib_scan_line device rt n idx x s = Inr (x', s0)"
    and r: "lib_scan_loop device rt n (Suc idx) xs s0 = Inr (rest', s1)"
    by auto
  from Cons.IH[OF r] Cons.prems(2) have "lib_scan_loop device rt n (Suc idx) (xs @ ys) s0 = Inl e"
    by simp
  with x show ?case by simp
qed

text \<open>
  C7, as the code has it. In the archive's description file, a second \<open>$CMP\<close> line
  after the opening line of the device's record and before any \<open>$ENDCMP\<close> line raises
  the warning \<open>Multiple devices in\<close>, with no file, directory or log entry changed
  (the description lines in between take one reply each). In the archive's symbol
  file the warning is raised for a \<open>DEF\<close> line that follows the lines in which the
  scan has found the closing line of the record, and the world is returned as it was.
\<close>

theorem multiple_devices_in_source:
  "(splitlines src = pre @ opener # mid @ second # post \<longrightarrow>
      (\<forall>l\<in>set pre. \<not> startswith l ''$CMP '') \<longrightarrow>
      startswith opener ''$CMP '' \<longrightarrow> startswith (strip (drop 5 opener)) device \<longrightarrow>
      (\<forall>l\<in>set mid. \<not> startswith l ''$CMP '' \<and> \<not> startswith l ''$ENDCMP'') \<longrightarrow>
      startswith second ''$CMP '' \<longrightarrow>
      length (filter (\<lambda>l. startswith l ''D'') mid) \<le> length (stdin w) \<longrightarrow>
      fst (import_dcm cfg device rt (Some (name, src)) w) = Inl (Warning [''Multiple devices in'' @ name])
      \<and> files (snd (import_dcm cfg device rt (Some (name, src)) w)) = files w
      \<and> dirs (snd (import_dcm cfg device rt (Some (name, src)) w)) = dirs w
      \<and> modified_objects (snd (import_dcm cfg device rt (Some (name, src)) w)) = modified_objects w)
   \<and> (splitlines (snd lp) = pre' @ l # post' \<longrightarrow>
      lib_scan_loop device rt (fst lp) 0 pre' scan_init = Inr (ls, s) \<longrightarrow>
      index_end s \<noteq> None \<longrightarrow> startswith l ''DEF '' \<longrightarrow>
      import_lib cfg device rt lp w = (Inl (Warning [''Multiple devices in'', fst lp]), w))"
proof (intro conjI impI)
  assume a: "splitlines src = pre @ opener # mid @ second # post"
    "\<forall>l\<in>set pre. \<not> startswith l ''$CMP ''"
    "startswith opener ''$CMP ''" "startswith (strip (drop 5 opener)) device"
    "\<forall>l\<in>set mid. \<not> startswith l ''$CMP '' \<and> \<not> startswith l ''$ENDCMP''"
    "startswith second ''$CMP ''"
    "length (filter (\<lambda>l. startswith l ''D'') mid) \<le> length (stdin w)"
  have "fst (dcm_scan_loop device (Some (name, src)) 0 (pre @ opener # mid @ second # post) scan_init (stdin w))
         = Inl (dcm_warning ''Multiple devices in'' (Some (name, src)))"
    by (rule dcm_scan_loop_multiple[OF _ _ a(2-7)]) (simp_all add: scan_init_def)
  then have e: "fst (dcm_scan device (Some (name, src)) (stdin w))
         = Inl (Warning [''Multiple devices in'' @ name])"
    by (cases "dcm_scan_loop device (Some (name, src)) 0 (pre @ opener # mid @ second # post) scan_init (stdin w)")
      (simp add: dcm_scan_def a(1) dcm_warning_def)
  note r = import_dcm_scan_error[OF e]
  show "fst (import_dcm cfg device rt (Some (name, src)) w) = Inl (Warning [''Multiple devices in'' @ name])"
    by (rule r(1))
  show "files (snd (import_dcm cfg device rt (Some (name, src)) w)) = files w" by (rule r(2))
  show "dirs (snd (import_dcm cfg device rt (Some (name, src)) w)) = dirs w" by (rule r(3))
  show "modified_objects (snd (import_dcm cfg device rt (Some (name, src)) w)) = modified_objects w"
    by (rule r(4))
next
  assume a: "splitlines (snd lp) = pre' @ l # post'"
    "lib_scan_loop device rt (fst lp) 0 pre' scan_init = Inr (ls, s)"
    "index_end s \<noteq> None" "startswith l ''DEF ''"
  have "index_start s = None \<longrightarrow> index_end s = None"
    by (rule lib_scan_loop_end_after_start[OF a(2)]) (simp add: scan_init_def)
  with a(3) have st: "index_start s \<noteq> None" by auto
  have "lib_scan_line device rt (fst lp) (0 + length pre') l s = Inl (Warning [''Multiple devices in'', fst lp])"
    using st a(3,4) by (auto simp: lib_scan_line_def)
  then have "lib_scan_loop device rt (fst lp) (0 + length pre') (l # post') s
             = Inl (Warning [''Multiple devices in'', fst lp])"
    by simp
  from lib_scan_loop_append_error[OF a(2) this]
  have "lib_scan device rt lp = Inl (Warning [''Multiple devices in'', fst lp])"
    by (simp add: lib_scan_def a(1))
  then show "import_lib cfg device rt lp w = (Inl (Warning [''Multiple devices in'', fst lp]), w)"
    by (simp add: import_lib_def)
qed

theorem multiple_devices_in_source_witness:
  "(fst (import_dcm sample_config ''X'' SNAPEDA
           (Some (''X.dcm'', unlines [''#'', ''$CMP X'', ''D one'', ''$CMP X2'', ''$ENDCMP'']))
           (sample_world [''''])) = Inl (Warning [''Multiple devices in'' @ ''X.dcm''])
    \<and> files (snd (import_dcm sample_config ''X'' SNAPEDA
           (Some (''X.dcm'', unlines [''#'', ''$CMP X'', ''D one'', ''$CMP X2'', ''$ENDCMP'']))
           (sample_world ['''']))) = files (sample_world [''''])
    \<and> dirs (snd (import_dcm sample_config ''X'' SNAPEDA
           (Some (''X.dcm'', unlines [''#'', ''$CMP X'', ''D one'', ''$CMP X2'', ''$ENDCMP'']))
           (sample_world ['''']))) = dirs (sample_world [''''])
    \<and> modified_objects (snd (import_dcm sample_config ''X'' SNAPEDA
           (Some (''X.dcm'', unlines [''#'', ''$CMP X'', ''D one'', ''$CMP X2'', ''$ENDCMP'']))
           (sample_world ['''']))) = modified_objects (sample_world ['''']))
   \<and> import_lib sample_config ''X'' SNAPEDA
         (''X.lib'', unlines [''DEF X U 0'', ''ENDDEF'', ''#'', ''DEF Y U 0'', ''ENDDEF''])
         (sample_world [''''])
       = (Inl (Warning [''Multiple devices in'',
                        fst (''X.lib'', unlines [''DEF X U 0'', ''ENDDEF'', ''#'', ''DEF Y U 0'', ''ENDDEF''])]),
          sample_world [''''])"
proof -
  let ?txt = "unlines [''#'', ''$CMP X'', ''D one'', ''$CMP X2'', ''$ENDCMP'']"
  let ?lp = "(''X.lib'', unlines [''DEF X U 0'', ''ENDDEF'', ''#'', ''DEF Y U 0'', ''ENDDEF''])"
  have 1: "splitlines ?txt = [''#''] @ ''$CMP X'' # [''D one''] @ ''$CMP X2'' # [''$ENDCMP'']"
    by code_simp
  have 2: "\<forall>l\<in>set [''#'']. \<not> startswith l ''$CMP ''" by code_simp
  have 3: "startswith ''$CMP X'' ''$CMP ''" "startswith (strip (drop 5 ''$CMP X'')) ''X''"
    by code_simp+
  have 4: "\<forall>l\<in>set [''D one'']. \<not> startswith l ''$CMP '' \<and> \<not> startswith l ''$ENDCMP''"
    by code_simp
  have 5: "startswith ''$CMP X2'' ''$CMP ''" by code_simp
  have 6: "length (filter (\<lambda>l. startswith l ''D'') [''D one'']) \<le> length (stdin (sample_world ['''']))"
    by code_simp
  have 7: "splitlines (snd ?lp) = [''DEF X U 0'', ''ENDDEF'', ''#''] @ ''DEF Y U 0'' # [''ENDDEF'']"
    by code_simp
  have 8: "lib_scan_loop ''X'' SNAPEDA (fst ?lp) 0 [''DEF X U 0'', ''ENDDEF'', ''#''] scan_init
      = Inr ([''DEF X U 0'', ''ENDDEF'', ''#''],
             \<lparr>index_start = Some 0, index_end = Some 2, index_header_start = None\<rparr>)"
    by code_simp
  have 9: "index_end \<lparr>index_start = Some 0, index_end = Some 2, index_header_start = None\<rparr> \<noteq> None"
    by simp
  have 10: "startswith ''DEF Y U 0'' ''DEF ''" by code_simp
  show ?thesis
    using multiple_devices_in_source[where src="?txt" and pre="[''#'']" and opener="''$CMP X''"
        and mid="[''D one'']" and second="''$CMP X2''" and post="[''$ENDCMP'']" and device="''X''"
        and w="sample_world ['''']" and cfg=sample_config and rt=SNAPEDA and name="''X.dcm''"
        and lp="?lp" and pre'="[''DEF X U 0'', ''ENDDEF'', ''#'']" and l="''DEF Y U 0''"
        and post'="[''ENDDEF'']" and ls="[''DEF X U 0'', ''ENDDEF'', ''#'']"
        and s="\<lparr>index_start = Some 0, index_end = Some 2, index_header_start = None\<rparr>"]
      1 2 3 4 5 6 7 8 9 10
    by blast
qed

lemma nested_lib_run:
  "fst (import_lib sample_config ''X'' SNAPEDA nested_lib (library_world other_dcm old_lib []))
   = Inr ([''lib'', ''SNAPEDA.lib''], [''lib'', ''SNAPEDA.lib~''])"
  by code_simp

lemma nested_lib_staged:
  "files (snd (import_lib sample_config ''X'' SNAPEDA nested_lib (library_world other_dcm old_lib [])))
         [''lib'', ''SNAPEDA.lib~'']
   = Some (unlines [''EESchema-LIBRARY Version 2.4'', ''#encoding utf-8'', ''#'', ''# A'', ''#'',
                    ''DEF A U 0'', ''ENDDEF'', ''#'', ''DEF X U 0'', ''DEF X U 1'', ''ENDDEF'',
                    ''#End Library''])"
  by code_simp

lemma nested_dcm_run:
  "fst (import_dcm sample_config ''X'' SNAPEDA (dcm_path sample_info) (library_world nested_dcm old_lib ['''']))
   = Inr ([''lib'', ''SNAPEDA.dcm''], [''lib'', ''SNAPEDA.dcm~''])"
  by code_simp

lemma nested_dcm_staged:
  "files (snd (import_dcm sample_config ''X'' SNAPEDA (dcm_path sample_info)
                 (library_world nested_dcm old_lib ['''']))) [''lib'', ''SNAPEDA.dcm~'']
   = Some (unlines [''EESchema-DOCLIB  Version 2.0'', ''$CMP A'', ''$CMP B'', ''$ENDCMP'', ''#'',
                    ''$CMP X'', ''D new'', ''F url'', ''$ENDCMP'', ''#End Doc Library''])"
  by code_simp

text \<open>
  C7 as stated fails. The symbol file of the archive has the lines \<open>DEF X U 0\<close>,
  \<open>DEF X U 1\<close>, \<open>ENDDEF\<close>: the merge raises nothing and writes the staging file with both
  opening lines. The description library has \<open>$CMP A\<close>, \<open>$CMP B\<close>, \<open>$ENDCMP\<close>: the
  merge raises nothing, copies the three lines and writes the staging file.
\<close>

theorem nested_opening_lines_accepted:
  "fst (import_lib sample_config ''X'' SNAPEDA nested_lib (library_world other_dcm old_lib []))
     = Inr ([''lib'', ''SNAPEDA.lib''], [''lib'', ''SNAPEDA.lib~''])
   \<and> files (snd (import_lib sample_config ''X'' SNAPEDA nested_lib (library_world other_dcm old_lib [])))
         [''lib'', ''SNAPEDA.lib~'']
     = Some (unlines [''EESchema-LIBRARY Version 2.4'', ''#encoding utf-8'', ''#'', ''# A'', ''#'',
                      ''DEF A U 0'', ''ENDDEF'', ''#'', ''DEF X U 0'', ''DEF X U 1'', ''ENDDEF'',
                      ''#End Library''])
   \<and> fst (import_dcm sample_config ''X'' SNAPEDA (dcm_path sample_info) (library_world nested_dcm old_lib ['''']))
     = Inr ([''lib'', ''SNAPEDA.dcm''], [''lib'', ''SNAPEDA.dcm~''])
   \<and> files (snd (import_dcm sample_config ''X'' SNAPEDA (dcm_path sample_info)
                 (library_world nested_dcm old_lib ['''']))) [''lib'', ''SNAPEDA.dcm~'']
     = Some (unlines [''EESchema-DOCLIB  Version 2.0'', ''$CMP A'', ''$CMP B'', ''$ENDCMP'', ''#'',
                      ''$CMP X'', ''D new'', ''F url'', ''$ENDCMP'', ''#End Doc Library''])"
  using nested_lib_run nested_lib_staged nested_dcm_run nested_dcm_staged by simp

section \<open>The modification log\<close>

lemma confirmed_run_ok:
  "fst (import_all sample_config sample_zip (sample_world ['''', ''y''])) = Inr (Some [''OK:''])"
  by code_simp

lemma confirmed_run_dcm:
  "files (snd (import_all sample_config sample_zip (sample_world ['''', ''y''])))
         [''lib'', ''SNAPEDA.dcm'']
   = Some (unlines [''EESchema-DOCLIB  Version 2.0'', ''#'', ''$CMP A'', ''D a'', ''$ENDCMP'', ''#'',
                    ''$CMP X'', ''D new'', ''F url'', ''$ENDCMP'', ''#'', ''#End Doc Library''])"
  by code_simp

lemma confirmed_run_log:
  "modified_objects (snd (import_all sample_config sample_zip (sample_world ['''', ''y''])))
   = [(Local [''lib'', ''SNAPEDA.dcm~''], TOUCH_FILE), (Local [''3d''], MKDIR),
      (Member ''X.step'', EXTRACTED_FILE),
      (Local [''fp'', ''SNAPEDA.pretty''], MKDIR),
      (Local [''fp'', ''SNAPEDA.pretty'', ''X.kicad_mod''], TOUCH_FILE),
      (Local [''fp'', ''SNAPEDA.pretty'', ''X.kicad_mod~''], TOUCH_FILE),
      (Local [''lib'', ''SNAPEDA.lib''], TOUCH_FILE),
      (Local [''lib'', ''SNAPEDA.lib~''], TOUCH_FILE)]"
  by code_simp

lemma old_dcm_replaced:
  "old_dcm \<noteq> unlines [''EESchema-DOCLIB  Version 2.0'', ''#'', ''$CMP A'', ''D a'', ''$ENDCMP'', ''#'',
                       ''$CMP X'', ''D new'', ''F url'', ''$ENDCMP'', ''#'', ''#End Doc Library'']"
  by code_simp

text \<open>
  C9. A run that modifies a file does not record it. The description library holds the
  records \<open>A\<close> and \<open>X\<close>; the operator keeps the description and confirms the overwrite.
  The run returns \<open>('OK:',)\<close> and the description library has a new text: the record
  \<open>X\<close> has been replaced and the staging file renamed over the library. The log of the
  run, which starts empty, ends with eight entries, in the order of the side effects
  they record; none of them names the description library, and none has the
  modification \<open>MODIFIED_FILE\<close>.
\<close>

theorem modified_library_not_logged:
  "modified_objects (sample_world ['''', ''y'']) = []
   \<and> fst (import_all sample_config sample_zip (sample_world ['''', ''y''])) = Inr (Some [''OK:''])
   \<and> files (sample_world ['''', ''y'']) [''lib'', ''SNAPEDA.dcm''] = Some old_dcm
   \<and> files (snd (import_all sample_config sample_zip (sample_world ['''', ''y''])))
         [''lib'', ''SNAPEDA.dcm'']
       = Some (unlines [''EESchema-DOCLIB  Version 2.0'', ''#'', ''$CMP A'', ''D a'', ''$ENDCMP'', ''#'',
                        ''$CMP X'', ''D new'', ''F url'', ''$ENDCMP'', ''#'', ''#End Doc Library''])
   \<and> old_dcm \<noteq> unlines [''EESchema-DOCLIB  Version 2.0'', ''#'', ''$CMP A'', ''D a'', ''$ENDCMP'', ''#'',
                          ''$CMP X'', ''D new'', ''F url'', ''$ENDCMP'', ''#'', ''#End Doc Library'']
   \<and> modified_objects (snd (import_all sample_config sample_zip (sample_world ['''', ''y''])))
       = [(Local [''lib'', ''SNAPEDA.dcm~''], TOUCH_FILE), (Local [''3d''], MKDIR),
          (Member ''X.step'', EXTRACTED_FILE),
          (Local [''fp'', ''SNAPEDA.pretty''], MKDIR),
          (Local [''fp'', ''SNAPEDA.pretty'', ''X.kicad_mod''], TOUCH_FILE),
          (Local [''fp'', ''SNAPEDA.pretty'', ''X.kicad_mod~''], TOUCH_FILE),
          (Local [''lib'', ''SNAPEDA.lib''], TOUCH_FILE),
          (Local [''lib'', ''SNAPEDA.lib~''], TOUCH_FILE)]
   \<and> Local [''lib'', ''SNAPEDA.dcm'']
        \<notin> fst ` set (modified_objects (snd (import_all sample_config sample_zip (sample_world ['''', ''y'']))))
   \<and> MODIFIED_FILE
        \<notin> snd ` set (modified_objects (snd (import_all sample_config sample_zip (sample_world ['''', ''y'']))))"
proof -
  have "modified_objects (sample_world ['''', ''y'']) = []"
    "files (sample_world ['''', ''y'']) [''lib'', ''SNAPEDA.dcm''] = Some old_dcm"
    by (simp_all add: sample_world_def)
  moreover have "Local [''lib'', ''SNAPEDA.dcm'']
        \<notin> fst ` set (modified_objects (snd (import_all sample_config sample_zip (sample_world ['''', ''y'']))))"
    unfolding confirmed_run_log by simp
  moreover have "MODIFIED_FILE
        \<notin> snd ` set (modified_objects (snd (import_all sample_config sample_zip (sample_world ['''', ''y'']))))"
    unfolding confirmed_run_log by simp
  ultimately show ?thesis
    using confirmed_run_ok confirmed_run_dcm confirmed_run_log old_dcm_replaced by simp
qed

section \<open>What a merge changes\<close>

lemma check_file_files_other: "q \<noteq> p \<Longrightarrow> files (snd (check_file p w)) q = files w q"
  by (simp add: check_file_def mkdir_parents_def Let_def split: sum.splits)

lemma check_file_files_self:
  "files (snd (check_file p w)) p = files w p
   \<or> (files w p = None \<and> files (snd (check_file p w)) p = Some [])"
  by (auto simp: check_file_def mkdir_parents_def Let_def path_exists_def split: sum.splits)

lemma check_file_created:
  assumes "fst (check_file p w) = Inr ()"
  shows "files (snd (check_file p w)) p = Some (case files w p of None \<Rightarrow> [] | Some t \<Rightarrow> t)
         \<or> files (snd (check_file p w)) p = None"
  using assms
  by (auto simp: check_file_def mkdir_parents_def Let_def path_exists_def
      split: sum.splits option.splits if_splits)

lemma write_text_Inr:
  "write_text p t w = Inr w' \<Longrightarrow> w' = w\<lparr>files := (files w)(p \<mapsto> t)\<rparr>"
  by (auto simp: write_text_def split: if_splits)

lemma write_template_files:
  "files (write_template p t w) q = (if q = p \<and> files w p = Some [] then Some t else files w q)"
  by (simp add: write_template_def)

lemma write_template_other [simp]:
  "stdin (write_template p t w) = stdin w" "dirs (write_template p t w) = dirs w"
  "modified_objects (write_template p t w) = modified_objects w"
  by (simp_all add: write_template_def)

text \<open>The worlds \<open>merge_into\<close> can end in: after the first check, after the second,
  after the template, and after the loop.\<close>

lemma merge_into_world:
  fixes rd wr template loop w
  defines "W1 \<equiv> snd (check_file rd w)"
  defines "W2 \<equiv> snd (check_file wr W1)"
  defines "W4 \<equiv> write_template rd template (W2\<lparr>files := (files W2)(wr \<mapsto> [])\<rparr>)"
  shows "(\<exists>e. fst (merge_into rd wr template loop w) = Inl e
            \<and> snd (merge_into rd wr template loop w) \<in> {W1, W2, W4})
       \<or> (\<exists>tx r out rs. files W4 rd = Some tx \<and> files W2 rd \<noteq> None
            \<and> loop (readlines tx) (stdin W4) = (r, out, rs)
            \<and> fst (merge_into rd wr template loop w)
                = (case r of Inl e \<Rightarrow> Inl e | Inr _ \<Rightarrow> Inr (rd, wr))
            \<and> snd (merge_into rd wr template loop w)
                = W4\<lparr>files := (files W4)(wr \<mapsto> out), stdin := rs\<rparr>)"
proof (cases "check_file rd w")
  case c1: (Pair r1 w1)
  then have w1: "W1 = w1" by (simp add: W1_def)
  show ?thesis
  proof (cases r1)
    case (Inl e)
    with c1 w1 show ?thesis by (simp add: merge_into_def)
  next
    case r1: (Inr u1)
    show ?thesis
    proof (cases "check_file wr w1")
      case c2: (Pair r2 w2)
      then have w2: "W2 = w2" by (simp add: W2_def w1)
      show ?thesis
      proof (cases r2)
        case (Inl e)
        with c1 r1 c2 w2 show ?thesis by (simp add: merge_into_def)
      next
        case r2: (Inr u2)
        show ?thesis
        proof (cases "files w2 rd")
          case None
          with c1 r1 c2 r2 w2 show ?thesis by (simp add: merge_into_def)
        next
          case f2: (Some t2)
          show ?thesis
          proof (cases "write_text wr [] w2")
            case (Inl e)
            with c1 r1 c2 r2 f2 w2 show ?thesis by (simp add: merge_into_def)
          next
            case wt: (Inr w3)
            from write_text_Inr[OF wt] have w3: "w3 = w2\<lparr>files := (files w2)(wr \<mapsto> [])\<rparr>" .
            have w4: "W4 = write_template rd template w3" by (simp add: W4_def w2 w3)
            show ?thesis
            proof (cases "files (write_template rd template w3) rd")
              case None
              with c1 r1 c2 r2 f2 wt w4 show ?thesis by (simp add: merge_into_def)
            next
              case f4: (Some tx)
              obtain r out rs where l: "loop (readlines tx) (stdin (write_template rd template w3)) = (r, out, rs)"
                by (cases "loop (readlines tx) (stdin (write_template rd template w3))") auto
              have "fst (merge_into rd wr template loop w)
                      = (case r of Inl e \<Rightarrow> Inl e | Inr _ \<Rightarrow> Inr (rd, wr))"
                "snd (merge_into rd wr template loop w)
                      = W4\<lparr>files := (files W4)(wr \<mapsto> out), stdin := rs\<rparr>"
                using c1 r1 c2 r2 f2 wt f4 l w4
                by (simp_all add: merge_into_def Let_def split: sum.splits)
              moreover have "files W4 rd = Some tx" "files W2 rd \<noteq> None"
                "loop (readlines tx) (stdin W4) = (r, out, rs)"
                using f4 l w4 f2 w2 by simp_all
              ultimately show ?thesis by blast
            qed
          qed
        qed
      qed
    qed
  qed
qed

lemma merge_into_files_other:
  assumes "q \<noteq> rd" "q \<noteq> wr"
  shows "files (snd (merge_into rd wr template loop w)) q = files w q"
proof -
  let ?W1 = "snd (check_file rd w)"
  let ?W2 = "snd (check_file wr ?W1)"
  let ?W4 = "write_template rd template (?W2\<lparr>files := (files ?W2)(wr \<mapsto> [])\<rparr>)"
  have 1: "files ?W1 q = files w q" using assms by (simp add: check_file_files_other)
  have 2: "files ?W2 q = files w q" using assms 1 by (simp add: check_file_files_other)
  have 4: "files ?W4 q = files w q" using assms 2 by (simp add: write_template_files)
  from merge_into_world[of rd wr template loop w] show ?thesis
    using 1 2 4 assms by auto
qed

lemma merge_into_Inr:
  assumes "merge_into rd wr template loop w = (Inr p, w')" "rd \<noteq> wr" "template \<noteq> []"
  shows "p = (rd, wr)
       \<and> (\<exists>r out rs. loop (readlines (target_text (files w rd) template)) (stdin w) = (Inr r, out, rs)
            \<and> files w' = (files w)(rd \<mapsto> target_text (files w rd) template, wr \<mapsto> out)
            \<and> stdin w' = rs)"
proof -
  let ?W1 = "snd (check_file rd w)"
  let ?W2 = "snd (check_file wr ?W1)"
  let ?W3 = "?W2\<lparr>files := (files ?W2)(wr \<mapsto> [])\<rparr>"
  let ?W4 = "write_template rd template ?W3"
  from merge_into_world[of rd wr template loop w] assms(1)
  obtain tx r out rs where t: "files ?W4 rd = Some tx" "files ?W2 rd \<noteq> None"
    and l: "loop (readlines tx) (stdin ?W4) = (r, out, rs)"
    and f: "Inr p = (case r of Inl e \<Rightarrow> Inl e | Inr _ \<Rightarrow> Inr (rd, wr))"
    and s: "w' = ?W4\<lparr>files := (files ?W4)(wr \<mapsto> out), stdin := rs\<rparr>"
    by auto
  from f obtain r' where r: "r = Inr r'" "p = (rd, wr)" by (cases r) auto
  have s4: "stdin ?W4 = stdin w" by simp
  have frd: "files ?W2 rd = files ?W1 rd" using assms(2) by (simp add: check_file_files_other)
  have f1: "files ?W1 rd = Some (case files w rd of None \<Rightarrow> [] | Some t \<Rightarrow> t)"
    using check_file_files_self[of rd w] t(2) frd by (auto split: option.splits)
  have tx: "tx = target_text (files w rd) template"
    using t(1) frd f1 assms(2,3)
    by (auto simp: write_template_files target_text_def split: option.splits if_splits)
  have "files w' = (files w)(rd \<mapsto> target_text (files w rd) template, wr \<mapsto> out)"
  proof
    fix q
    show "files w' q = ((files w)(rd \<mapsto> target_text (files w rd) template, wr \<mapsto> out)) q"
    proof (cases "q = wr")
      case True
      then show ?thesis by (simp add: s)
    next
      case nw: False
      show ?thesis
      proof (cases "q = rd")
        case True
        with nw t(1) tx show ?thesis by (simp add: s)
      next
        case False
        with nw have "files w' q = files ?W4 q" by (simp add: s)
        also have "\<dots> = files ?W2 q" using False nw by (simp add: write_template_files)
        also have "\<dots> = files w q" using False nw by (simp add: check_file_files_other)
        finally show ?thesis using False nw by simp
      qed
    qed
  qed
  moreover have "stdin w' = rs" by (simp add: s)
  moreover have "loop (readlines (target_text (files w rd) template)) (stdin w) = (Inr r', out, rs)"
    using l tx r s4 by simp
  ultimately show ?thesis using r(2) by blast
qed

lemma merge_into_read_kept:
  assumes "rd \<noteq> wr"
  shows "files (snd (merge_into rd wr template loop w)) rd = files w rd
       \<or> ((files w rd = None \<or> files w rd = Some [])
          \<and> (files (snd (merge_into rd wr template loop w)) rd = Some []
             \<or> files (snd (merge_into rd wr template loop w)) rd = Some template))"
proof -
  let ?W1 = "snd (check_file rd w)"
  let ?W2 = "snd (check_file wr ?W1)"
  let ?W4 = "write_template rd template (?W2\<lparr>files := (files ?W2)(wr \<mapsto> [])\<rparr>)"
  have 1: "files ?W1 rd = files w rd \<or> (files w rd = None \<and> files ?W1 rd = Some [])"
    by (rule check_file_files_self)
  have 2: "files ?W2 rd = files ?W1 rd" using assms by (simp add: check_file_files_other)
  have 4: "files ?W4 rd = (if files ?W2 rd = Some [] then Some template else files ?W2 rd)"
    using assms by (simp add: write_template_files)
  from merge_into_world[of rd wr template loop w]
  have "files (snd (merge_into rd wr template loop w)) rd \<in> {files ?W1 rd, files ?W2 rd, files ?W4 rd}"
    using assms by auto
  with 1 2 4 show ?thesis by (auto split: if_splits)
qed

section \<open>What the other stages change\<close>

lemma check_file_result_other:
  "check_file p w = (r, w') \<Longrightarrow> q \<noteq> p \<Longrightarrow> files w' q = files w q"
  using check_file_files_other[of q p w] by simp

lemma mkdir_parents_files: "mkdir_parents p w = Inr w' \<Longrightarrow> files w' = files w"
  by (auto simp: mkdir_parents_def split: if_splits)

lemma import_model_loop_files:
  "files (snd (import_model_loop cfg items members w)) q = files w q
   \<or> (\<exists>n. endswith n ''.step'' \<and> q = pjoin (REMOTE_3DMODEL_PATH cfg) n)"
proof (induction items)
  case Nil
  show ?case by simp
next
  case (Cons n items)
  show ?case
  proof (cases "endswith n ''.step''")
    case False
    with Cons show ?thesis by simp
  next
    case True
    show ?thesis
    proof (cases "q = pjoin (REMOTE_3DMODEL_PATH cfg) n")
      case True
      with \<open>endswith n ''.step''\<close> show ?thesis by blast
    next
      case False
      with True have "files (snd (import_model_loop cfg (n # items) members w)) q = files w q"
        by (auto simp: Let_def input_def write_text_def ModifiedObject_append_def
            split: prod.splits sum.splits option.splits list.splits if_splits)
      then show ?thesis by blast
    qed
  qed
qed

lemma import_model_loop_None:
  "import_model_loop cfg items members w = (Inr None, w') \<Longrightarrow> files w' = files w"
proof (induction items)
  case Nil
  then show ?case by simp
next
  case (Cons n items)
  show ?case
  proof (cases "endswith n ''.step''")
    case False
    with Cons show ?thesis by simp
  next
    case True
    with Cons.prems show ?thesis
      by (auto simp: Let_def input_def write_text_def ModifiedObject_append_def
          split: prod.splits sum.splits option.splits list.splits if_splits)
  qed
qed

lemma import_model_files:
  "files (snd (import_model cfg mp members w)) q = files w q
   \<or> (\<exists>n. endswith n ''.step'' \<and> q = pjoin (REMOTE_3DMODEL_PATH cfg) n)"
proof -
  have "\<And>w1. files w1 = files w \<Longrightarrow>
      files (snd (case mp of Inl e \<Rightarrow> (Inl e, w1)
                   | Inr items \<Rightarrow> import_model_loop cfg items members w1)) q = files w q
      \<or> (\<exists>n. endswith n ''.step'' \<and> q = pjoin (REMOTE_3DMODEL_PATH cfg) n)"
    subgoal for w1
      using import_model_loop_files[of cfg _ members w1 q] by (cases mp) auto
    done
  then show ?thesis
    by (auto simp: import_model_def ModifiedObject_append_def dest: mkdir_parents_files
        split: sum.splits)
qed

lemma import_model_None:
  assumes "import_model cfg mp members w = (Inr None, w')"
  shows "files w' = files w"
proof (cases "is_dir w (REMOTE_3DMODEL_PATH cfg)")
  case True
  with assms obtain items where "import_model_loop cfg items members w = (Inr None, w')"
    by (auto simp: import_model_def split: sum.splits)
  then show ?thesis by (rule import_model_loop_None)
next
  case False
  with assms obtain w1 items where m: "mkdir_parents (REMOTE_3DMODEL_PATH cfg) w = Inr w1"
    and l: "import_model_loop cfg items members
              (ModifiedObject_append (Local (REMOTE_3DMODEL_PATH cfg)) MKDIR w1) = (Inr None, w')"
    by (auto simp: import_model_def split: sum.splits)
  from import_model_loop_None[OF l] mkdir_parents_files[OF m] show ?thesis
    by (simp add: ModifiedObject_append_def)
qed

lemma footprint_loop_no_model_files:
  "files (snd (import_footprint_loop cfg rt None items rw w)) q = files w q
   \<or> (\<exists>item\<in>set items. footprint_name (fst item) \<and> q = footprint_file_read cfg rt (fst item))"
proof (induction items arbitrary: rw w)
  case Nil
  show ?case by simp
next
  case (Cons item items)
  show ?case
  proof (cases "footprint_name (fst item)")
    case False
    with Cons[of rw w] show ?thesis by (auto simp: footprint_name_def)
  next
    case True
    let ?rd = "footprint_file_read cfg rt (fst item)"
    let ?wr = "footprint_file_write cfg rt (fst item)"
    show ?thesis
    proof (cases "write_text ?rd (snd item) w")
      case (Inl e)
      with True show ?thesis
        by (simp add: footprint_name_def footprint_file_read_def Let_def)
    next
      case (Inr w1)
      from write_text_Inr[OF Inr] have w1: "files w1 = (files w)(?rd \<mapsto> snd item)" by simp
      from True Inr have s: "import_footprint_loop cfg rt None (item # items) rw w
          = import_footprint_loop cfg rt None items (Some ?rd, Some ?wr) w1"
        by (simp add: footprint_name_def footprint_file_read_def footprint_file_write_def Let_def)
      from Cons[of "(Some ?rd, Some ?wr)" w1] True w1 show ?thesis
        unfolding s by (cases "q = ?rd") auto
    qed
  qed
qed

lemma footprint_loop_no_model_result:
  assumes "import_footprint_loop cfg rt None items rw w = (Inr (r, wr), w')"
  shows "(r, wr) = rw
       \<or> (\<exists>item\<in>set items. footprint_name (fst item)
             \<and> r = Some (footprint_file_read cfg rt (fst item))
             \<and> wr = Some (footprint_file_write cfg rt (fst item)))"
  using assms
proof (induction items arbitrary: rw w)
  case Nil
  then show ?case by simp
next
  case (Cons item items)
  show ?case
  proof (cases "footprint_name (fst item)")
    case False
    with Cons.prems have "import_footprint_loop cfg rt None items rw w = (Inr (r, wr), w')"
      by (simp add: footprint_name_def)
    from Cons.IH[OF this] show ?thesis by auto
  next
    case True
    let ?rd = "footprint_file_read cfg rt (fst item)"
    let ?wr = "footprint_file_write cfg rt (fst item)"
    show ?thesis
    proof (cases "write_text ?rd (snd item) w")
      case (Inl e)
      with True Cons.prems show ?thesis
        by (simp add: footprint_name_def footprint_file_read_def Let_def)
    next
      case (Inr w1)
      with True Cons.prems
      have "import_footprint_loop cfg rt None items (Some ?rd, Some ?wr) w1 = (Inr (r, wr), w')"
        by (simp add: footprint_name_def footprint_file_read_def footprint_file_write_def Let_def)
      from Cons.IH[OF this] True show ?thesis by auto
    qed
  qed
qed
lemma endswith_last: "endswith s x \<Longrightarrow> x \<noteq> [] \<Longrightarrow> s \<noteq> [] \<and> last s = last x"
proof -
  assume e: "endswith s x" and x: "x \<noteq> []"
  from e have l: "length x \<le> length s" and d: "drop (length s - length x) s = x"
    by (simp_all add: endswith_def)
  from l x have s: "s \<noteq> []" by auto
  have "last s = last (drop (length s - length x) s)"
    using l x s by (simp add: last_drop)
  with d s show ?thesis by simp
qed

lemma footprint_name_last: "footprint_name n \<Longrightarrow> n \<noteq> [] \<and> last n = CHR ''d''"
  using endswith_last[of n "''.kicad_mod''"] endswith_last[of n "''.mod''"]
  by (auto simp: footprint_name_def)

lemma step_name_last: "endswith n ''.step'' \<Longrightarrow> n \<noteq> [] \<and> last n = CHR ''p''"
  using endswith_last[of n "''.step''"] by simp

lemma staging_name_eq: "(n @ ''~'' = m @ x @ ''~'') = (n = m @ x)"
proof
  assume "n @ ''~'' = m @ x @ ''~''"
  then have "butlast (n @ ''~'') = butlast ((m @ x) @ ''~'')" by simp
  then show "n = m @ x" unfolding butlast_snoc .
qed simp

lemma last_neq: "last a \<noteq> last b \<Longrightarrow> a \<noteq> b"
  by auto

text \<open>The paths of the stages are pairwise distinct: a footprint file and its staging
  file are neither a library nor the staging file of one, and a model is none of
  them.\<close>

lemma footprint_names_distinct:
  assumes "footprint_name n"
  shows "n \<noteq> m @ ''.dcm''" "n \<noteq> m @ ''.lib''" "n \<noteq> m @ ''.dcm~''" "n \<noteq> m @ ''.lib~''"
    "n @ ''~'' \<noteq> m @ ''.dcm''" "n @ ''~'' \<noteq> m @ ''.lib''"
    "n @ ''~'' \<noteq> m @ ''.dcm~''" "n @ ''~'' \<noteq> m @ ''.lib~''"
proof -
  from footprint_name_last[OF assms] have n: "last n = CHR ''d''" by simp
  show a: "n \<noteq> m @ ''.dcm''" by (rule last_neq) (simp add: n)
  show b: "n \<noteq> m @ ''.lib''" by (rule last_neq) (simp add: n)
  show "n \<noteq> m @ ''.dcm~''" by (rule last_neq) (simp add: n)
  show "n \<noteq> m @ ''.lib~''" by (rule last_neq) (simp add: n)
  show "n @ ''~'' \<noteq> m @ ''.dcm''" by (rule last_neq) simp
  show "n @ ''~'' \<noteq> m @ ''.lib''" by (rule last_neq) simp
  show "n @ ''~'' \<noteq> m @ ''.dcm~''" using staging_name_eq[of n m "''.dcm''"] a by simp
  show "n @ ''~'' \<noteq> m @ ''.lib~''" using staging_name_eq[of n m "''.lib''"] b by simp
qed

lemma footprint_paths_distinct:
  assumes "footprint_name n"
  shows "footprint_file_read cfg rt n \<noteq> dcm_file_read cfg' rt'"
    "footprint_file_read cfg rt n \<noteq> dcm_file_write cfg' rt'"
    "footprint_file_read cfg rt n \<noteq> lib_file_read cfg' rt'"
    "footprint_file_read cfg rt n \<noteq> lib_file_write cfg' rt'"
    "footprint_file_write cfg rt n \<noteq> dcm_file_read cfg' rt'"
    "footprint_file_write cfg rt n \<noteq> dcm_file_write cfg' rt'"
    "footprint_file_write cfg rt n \<noteq> lib_file_read cfg' rt'"
    "footprint_file_write cfg rt n \<noteq> lib_file_write cfg' rt'"
  using footprint_names_distinct[OF assms, of "remote_name rt'"]
  by (simp_all add: footprint_file_read_def footprint_file_write_def dcm_file_read_def
      dcm_file_write_def lib_file_read_def lib_file_write_def)

lemma footprint_read_write_distinct:
  assumes "footprint_name n"
  shows "footprint_file_write cfg rt m \<noteq> footprint_file_read cfg' rt' n"
proof -
  from footprint_name_last[OF assms] have "last n = CHR ''d''" by simp
  then have "m @ ''~'' \<noteq> n" by (intro last_neq) simp
  then show ?thesis by (simp add: footprint_file_read_def footprint_file_write_def)
qed

lemma model_paths_distinct:
  assumes "endswith n ''.step''"
  shows "pjoin p n \<noteq> dcm_file_read cfg rt" "pjoin p n \<noteq> dcm_file_write cfg rt"
    "pjoin p n \<noteq> lib_file_read cfg rt" "pjoin p n \<noteq> lib_file_write cfg rt"
proof -
  from step_name_last[OF assms] have n: "last n = CHR ''p''" by simp
  have "n \<noteq> remote_name rt @ ''.dcm''" by (rule last_neq) (simp add: n)
  moreover have "n \<noteq> remote_name rt @ ''.lib''" by (rule last_neq) (simp add: n)
  moreover have "n \<noteq> remote_name rt @ ''.dcm~''" by (rule last_neq) (simp add: n)
  moreover have "n \<noteq> remote_name rt @ ''.lib~''" by (rule last_neq) (simp add: n)
  ultimately show "pjoin p n \<noteq> dcm_file_read cfg rt" "pjoin p n \<noteq> dcm_file_write cfg rt"
    "pjoin p n \<noteq> lib_file_read cfg rt" "pjoin p n \<noteq> lib_file_write cfg rt"
    by (simp_all add: dcm_file_read_def dcm_file_write_def lib_file_read_def lib_file_write_def)
qed

lemma library_paths_distinct [simp]:
  "dcm_file_read cfg rt \<noteq> lib_file_read cfg rt" "dcm_file_read cfg rt \<noteq> lib_file_write cfg rt"
  "dcm_file_write cfg rt \<noteq> lib_file_read cfg rt" "dcm_file_write cfg rt \<noteq> lib_file_write cfg rt"
  "lib_file_read cfg rt \<noteq> dcm_file_read cfg rt" "lib_file_read cfg rt \<noteq> dcm_file_write cfg rt"
  "lib_file_write cfg rt \<noteq> dcm_file_read cfg rt" "lib_file_write cfg rt \<noteq> dcm_file_write cfg rt"
  by (simp_all add: dcm_file_read_def dcm_file_write_def lib_file_read_def lib_file_write_def)

text \<open>Renaming one file over another.\<close>

lemma path_replace_Inr:
  assumes "path_replace src dst w = Inr w'"
  shows "\<exists>t. files w src = Some t \<and> w' = w\<lparr>files := ((files w)(src := None))(dst \<mapsto> t)\<rparr>"
  using assms by (auto simp: path_replace_def split: option.splits if_splits)

lemma path_replace_missing:
  assumes "files w src = None"
  shows "path_replace src dst w = Inl FileNotFoundError
       \<or> path_replace src dst w = Inl NotADirectoryError"
  using assms by (simp add: path_replace_def)

lemma path_replace_ok:
  assumes "files w src = Some t" "files w dst \<noteq> None" "dst \<notin> dirs w"
  shows "path_replace src dst w = Inr (w\<lparr>files := ((files w)(src := None))(dst \<mapsto> t)\<rparr>)"
  using assms by (auto simp: path_replace_def is_dir_def)

text \<open>A regular file stays one: no stage removes a file, and no stage makes a
  directory where a file is.\<close>

lemma mkdir_parents_keeps:
  assumes "mkdir_parents p w = Inr w'" "files w q \<noteq> None" "q \<notin> dirs w"
  shows "q \<notin> dirs w'"
proof -
  from assms(1) have ne: "\<not> path_exists w p" "\<not> list_ex (\<lambda>q. files w q \<noteq> None) (ancestors p)"
    and w': "dirs w' = dirs w \<union> set (ancestors p) \<union> {p}"
    by (auto simp: mkdir_parents_def split: if_splits)
  from ne(1) assms(2) have "q \<noteq> p" by (auto simp: path_exists_def)
  moreover from ne(2) assms(2) have "q \<notin> set (ancestors p)" by (auto simp: list_ex_iff)
  ultimately show ?thesis using w' assms(3) by simp
qed

lemma mkdir_parents_self:
  assumes "mkdir_parents (parent p) w = Inr w'" "p \<notin> dirs w" "p \<noteq> []"
  shows "p \<notin> dirs w'"
proof -
  from assms(1) have w': "dirs w' = dirs w \<union> set (ancestors (parent p)) \<union> {parent p}"
    by (auto simp: mkdir_parents_def split: if_splits)
  have "\<forall>a\<in>set (ancestors (parent p)). length a < length p"
    by (auto simp: ancestors_def parent_def)
  then have "p \<notin> set (ancestors (parent p))" by auto
  moreover have "length (parent p) < length p" using assms(3) by (simp add: parent_def)
  then have "p \<noteq> parent p" by auto
  ultimately show ?thesis using w' assms(2) by simp
qed

section \<open>What a stage keeps\<close>

lemma check_file_dirs:
  "dirs (snd (check_file p w)) = dirs w
   \<or> (\<exists>w1. mkdir_parents (parent p) w = Inr w1 \<and> dirs (snd (check_file p w)) = dirs w1)"
  by (auto simp: check_file_def Let_def ModifiedObject_append_def split: sum.splits)

lemma check_file_keeps:
  assumes "files w q \<noteq> None" "q \<notin> dirs w"
  shows "files (snd (check_file p w)) q \<noteq> None \<and> q \<notin> dirs (snd (check_file p w))"
proof -
  have "files (snd (check_file p w)) q \<noteq> None"
    using check_file_files_other[of q p w] check_file_files_self[of p w] assms(1)
    by (cases "q = p") auto
  moreover have "q \<notin> dirs (snd (check_file p w))"
    using check_file_dirs[of p w] mkdir_parents_keeps[OF _ assms] assms(2) by auto
  ultimately show ?thesis by simp
qed

lemma check_file_self_not_dir:
  assumes "p \<notin> dirs w" "p \<noteq> []"
  shows "p \<notin> dirs (snd (check_file p w))"
  using check_file_dirs[of p w] mkdir_parents_self[OF _ assms] assms(1) by auto

lemma write_template_keeps:
  "files w q \<noteq> None \<Longrightarrow> files (write_template p t w) q \<noteq> None"
  by (simp add: write_template_files)

lemma merge_into_keeps:
  assumes "files w q \<noteq> None" "q \<notin> dirs w"
  shows "files (snd (merge_into rd wr template loop w)) q \<noteq> None
       \<and> q \<notin> dirs (snd (merge_into rd wr template loop w))"
proof -
  let ?W1 = "snd (check_file rd w)"
  let ?W2 = "snd (check_file wr ?W1)"
  let ?W3 = "?W2\<lparr>files := (files ?W2)(wr \<mapsto> [])\<rparr>"
  let ?W4 = "write_template rd template ?W3"
  have 1: "files ?W1 q \<noteq> None \<and> q \<notin> dirs ?W1" using assms by (rule check_file_keeps)
  then have 2: "files ?W2 q \<noteq> None \<and> q \<notin> dirs ?W2" by (simp add: check_file_keeps)
  then have "files ?W3 q \<noteq> None" by simp
  then have 4: "files ?W4 q \<noteq> None \<and> q \<notin> dirs ?W4" using 2 by (simp add: write_template_keeps)
  from merge_into_world[of rd wr template loop w] show ?thesis
    using 1 2 4 by auto
qed

lemma merge_into_read_not_dir:
  assumes m: "merge_into rd wr template loop w = (Inr p, w')" and ne: "rd \<noteq> wr"
    and nd: "rd \<notin> dirs w" "rd \<noteq> []"
  shows "rd \<notin> dirs w'"
proof -
  let ?W1 = "snd (check_file rd w)"
  let ?W2 = "snd (check_file wr ?W1)"
  let ?W3 = "?W2\<lparr>files := (files ?W2)(wr \<mapsto> [])\<rparr>"
  let ?W4 = "write_template rd template ?W3"
  from merge_into_world[of rd wr template loop w] m
  obtain out rs where f: "files ?W2 rd \<noteq> None"
    and s: "w' = ?W4\<lparr>files := (files ?W4)(wr \<mapsto> out), stdin := rs\<rparr>"
    by auto
  have 1: "rd \<notin> dirs ?W1" using nd by (rule check_file_self_not_dir)
  have "files ?W1 rd \<noteq> None" using f ne by (simp add: check_file_files_other)
  with 1 have "rd \<notin> dirs ?W2" by (simp add: check_file_keeps)
  then show ?thesis by (simp add: s)
qed

text \<open>The two library stages, as the worlds they end in show them.\<close>

lemma import_dcm_files_other:
  assumes "q \<noteq> dcm_file_read cfg rt" "q \<noteq> dcm_file_write cfg rt"
  shows "files (snd (import_dcm cfg device rt dp w)) q = files w q"
proof (cases "dcm_scan device dp (stdin w)")
  case (Pair r replies)
  show ?thesis
  proof (cases r)
    case (Inl e)
    with Pair show ?thesis by (simp add: import_dcm_eq)
  next
    case (Inr sc)
    obtain lines s where "sc = (lines, s)" by (cases sc)
    with Pair Inr show ?thesis
      using merge_into_files_other[OF assms, of dcm_template _ "w\<lparr>stdin := replies\<rparr>"]
      by (simp add: import_dcm_eq)
  qed
qed

lemma import_lib_files_other:
  assumes "q \<noteq> lib_file_read cfg rt" "q \<noteq> lib_file_write cfg rt"
  shows "files (snd (import_lib cfg device rt lp w)) q = files w q"
proof (cases "lib_scan device rt lp")
  case (Inl e)
  then show ?thesis by (simp add: import_lib_eq)
next
  case (Inr sc)
  obtain lines s where "sc = (lines, s)" by (cases sc)
  with Inr show ?thesis
    using merge_into_files_other[OF assms, of lib_template _ w]
    by (simp add: import_lib_eq)
qed

lemma import_dcm_read_kept:
  "files (snd (import_dcm cfg device rt dp w)) (dcm_file_read cfg rt) = files w (dcm_file_read cfg rt)
   \<or> ((files w (dcm_file_read cfg rt) = None \<or> files w (dcm_file_read cfg rt) = Some [])
      \<and> (files (snd (import_dcm cfg device rt dp w)) (dcm_file_read cfg rt) = Some []
         \<or> files (snd (import_dcm cfg device rt dp w)) (dcm_file_read cfg rt) = Some dcm_template))"
proof (cases "dcm_scan device dp (stdin w)")
  case (Pair r replies)
  show ?thesis
  proof (cases r)
    case (Inl e)
    with Pair show ?thesis by (simp add: import_dcm_eq)
  next
    case (Inr sc)
    obtain lines s where "sc = (lines, s)" by (cases sc)
    with Pair Inr show ?thesis
      using merge_into_read_kept[of "dcm_file_read cfg rt" "dcm_file_write cfg rt" dcm_template _
          "w\<lparr>stdin := replies\<rparr>"]
      by (simp add: import_dcm_eq)
  qed
qed

lemma import_lib_read_kept:
  "files (snd (import_lib cfg device rt lp w)) (lib_file_read cfg rt) = files w (lib_file_read cfg rt)
   \<or> ((files w (lib_file_read cfg rt) = None \<or> files w (lib_file_read cfg rt) = Some [])
      \<and> (files (snd (import_lib cfg device rt lp w)) (lib_file_read cfg rt) = Some []
         \<or> files (snd (import_lib cfg device rt lp w)) (lib_file_read cfg rt) = Some lib_template))"
proof (cases "lib_scan device rt lp")
  case (Inl e)
  then show ?thesis by (simp add: import_lib_eq)
next
  case (Inr sc)
  obtain lines s where "sc = (lines, s)" by (cases sc)
  with Inr show ?thesis
    using merge_into_read_kept[of "lib_file_read cfg rt" "lib_file_write cfg rt" lib_template _ w]
    by (simp add: import_lib_eq)
qed

lemma import_lib_keeps:
  assumes "files w q \<noteq> None" "q \<notin> dirs w"
  shows "files (snd (import_lib cfg device rt lp w)) q \<noteq> None
       \<and> q \<notin> dirs (snd (import_lib cfg device rt lp w))"
proof (cases "lib_scan device rt lp")
  case (Inl e)
  with assms show ?thesis by (simp add: import_lib_eq)
next
  case (Inr sc)
  obtain lines s where "sc = (lines, s)" by (cases sc)
  with Inr show ?thesis
    using merge_into_keeps[OF assms, of "lib_file_read cfg rt" "lib_file_write cfg rt" lib_template]
    by (simp add: import_lib_eq)
qed

lemma library_paths_nonempty [simp]:
  "dcm_file_read cfg rt \<noteq> []" "dcm_file_write cfg rt \<noteq> []"
  "lib_file_read cfg rt \<noteq> []" "lib_file_write cfg rt \<noteq> []"
  by (simp_all add: dcm_file_read_def dcm_file_write_def lib_file_read_def lib_file_write_def
      pjoin_def)

text \<open>A description stage that succeeds returns its two paths, leaves both as files
  and changes no other file; the library is no directory afterwards if it was none
  before.\<close>

lemma import_dcm_Inr:
  assumes "import_dcm cfg device rt dp w = (Inr p, w')"
  shows "p = (dcm_file_read cfg rt, dcm_file_write cfg rt)"
    and "files w' (dcm_file_read cfg rt) \<noteq> None" and "files w' (dcm_file_write cfg rt) \<noteq> None"
    and "dcm_file_read cfg rt \<notin> dirs w \<Longrightarrow> dcm_file_read cfg rt \<notin> dirs w'"
proof -
  obtain r replies where sc: "dcm_scan device dp (stdin w) = (r, replies)"
    by (cases "dcm_scan device dp (stdin w)")
  with assms obtain lines s where r: "r = Inr (lines, s)"
    by (cases r) (auto simp: import_dcm_eq)
  let ?loop = "\<lambda>ls replies. merge_loop dcm_opening dcm_closing dcm_confirmed device
                 (join_lines (record_lines_with_header lines s))
                 (join_lines (record_lines lines s)) ls False False replies"
  from assms sc r
  have m: "merge_into (dcm_file_read cfg rt) (dcm_file_write cfg rt) dcm_template ?loop
             (w\<lparr>stdin := replies\<rparr>) = (Inr p, w')"
    by (simp add: import_dcm_eq)
  from merge_into_Inr[OF m] show "p = (dcm_file_read cfg rt, dcm_file_write cfg rt)"
    and "files w' (dcm_file_read cfg rt) \<noteq> None" and "files w' (dcm_file_write cfg rt) \<noteq> None"
    by auto
  show "dcm_file_read cfg rt \<notin> dirs w \<Longrightarrow> dcm_file_read cfg rt \<notin> dirs w'"
    using merge_into_read_not_dir[OF m] by simp
qed

lemma import_lib_Inr:
  assumes "import_lib cfg device rt lp w = (Inr p, w')"
  shows "p = (lib_file_read cfg rt, lib_file_write cfg rt)"
proof -
  from assms obtain lines s where r: "lib_scan device rt lp = Inr (lines, s)"
    by (cases "lib_scan device rt lp") (auto simp: import_lib_eq)
  let ?loop = "\<lambda>ls replies. merge_loop lib_opening lib_closing lib_confirmed device
                 (join_lines (record_lines_with_header lines s))
                 (join_lines (record_lines lines s)) ls False False replies"
  from assms r
  have m: "merge_into (lib_file_read cfg rt) (lib_file_write cfg rt) lib_template ?loop w = (Inr p, w')"
    by (simp add: import_lib_eq)
  from merge_into_Inr[OF m] show ?thesis by auto
qed

text \<open>The model stage makes no directory where a file is, and the footprint stage
  without a model makes none at all.\<close>

lemma import_model_loop_dirs: "dirs (snd (import_model_loop cfg items members w)) = dirs w"
proof (induction items)
  case Nil
  show ?case by simp
next
  case (Cons n items)
  then show ?case
    by (auto simp: Let_def input_def write_text_def ModifiedObject_append_def
        split: prod.splits sum.splits option.splits list.splits if_splits)
qed

lemma import_model_keeps:
  assumes "files w q \<noteq> None" "q \<notin> dirs w"
  shows "q \<notin> dirs (snd (import_model cfg mp members w))"
proof (cases "is_dir w (REMOTE_3DMODEL_PATH cfg)")
  case True
  with assms show ?thesis
    by (cases mp) (simp_all add: import_model_def import_model_loop_dirs)
next
  case False
  show ?thesis
  proof (cases "mkdir_parents (REMOTE_3DMODEL_PATH cfg) w")
    case (Inl e)
    with False assms show ?thesis by (simp add: import_model_def)
  next
    case (Inr w1)
    from mkdir_parents_keeps[OF Inr assms] have "q \<notin> dirs w1" .
    with False Inr show ?thesis
      by (cases mp) (simp_all add: import_model_def import_model_loop_dirs)
  qed
qed

lemma footprint_loop_no_model_dirs:
  "dirs (snd (import_footprint_loop cfg rt None items rw w)) = dirs w"
proof (induction items arbitrary: rw w)
  case Nil
  show ?case by simp
next
  case (Cons item items)
  show ?case
  proof (cases "write_text (footprint_file_read cfg rt (fst item)) (snd item) w")
    case (Inl e)
    with Cons[of rw w] show ?thesis by (simp add: footprint_file_read_def Let_def)
  next
    case (Inr w1)
    from write_text_Inr[OF Inr] have "dirs w1 = dirs w" by simp
    with Inr Cons[of rw w] Cons[of _ w1] show ?thesis
      by (simp add: footprint_file_read_def Let_def)
  qed
qed

text \<open>The stages of a run, one after the other.\<close>

lemma import_stages_Inr:
  assumes "import_stages cfg device info members w = (Inr st, w4)"
  shows "\<exists>dcm w1 fm w2 fp w3 lib.
           import_dcm cfg device (remote_type info) (dcm_path info) w = (Inr dcm, w1)
         \<and> import_model cfg (model_path info) members w1 = (Inr fm, w2)
         \<and> import_footprint cfg (remote_type info) (footprint_path info) fm w2 = (Inr fp, w3)
         \<and> import_lib cfg device (remote_type info) (lib_path info) w3 = (Inr lib, w4)
         \<and> st = \<lparr>dcm_files = dcm, footprint_files = fp, lib_files = lib\<rparr>"
  using assms unfolding import_stages_def
  by (auto split: prod.splits sum.splits)

lemma import_all_stages:
  assumes "is_zipfile zf" "get_remote_info zf = Inr info"
  shows "import_all cfg zf w =
     (case import_stages cfg (take (length (zip_name zf) - 4) (zip_name zf)) info (zip_members zf) w of
        (Inl e, w1) \<Rightarrow> (Inl e, w1)
      | (Inr st, w1) \<Rightarrow>
          (case promote st w1 of
             (Inl e, w2) \<Rightarrow> (Inl e, w2)
           | (Inr u, w2) \<Rightarrow> (Inr (Some [''OK:'']), w2)))"
  using assms by (simp add: import_all_def Let_def)

section \<open>A run without a model\<close>

lemma promote_without_staging:
  assumes "footprint_files st = (None, None)
         \<or> (\<exists>q p. footprint_files st = (Some q, Some p) \<and> files w p = None
                  \<and> p \<noteq> fst (dcm_files st))"
  shows "(\<exists>e. promote st w = (Inl e, w)
            \<and> path_replace (snd (dcm_files st)) (fst (dcm_files st)) w = Inl e)
       \<or> (\<exists>e w5. promote st w = (Inl e, w5)
            \<and> path_replace (snd (dcm_files st)) (fst (dcm_files st)) w = Inr w5
            \<and> e \<in> {FileNotFoundError, NotADirectoryError, AttributeError})"
proof (cases "path_replace (snd (dcm_files st)) (fst (dcm_files st)) w")
  case (Inl e)
  then show ?thesis by (simp add: promote_def)
next
  case (Inr w5)
  from path_replace_Inr[OF Inr] obtain t
    where w5: "w5 = w\<lparr>files := ((files w)(snd (dcm_files st) := None))(fst (dcm_files st) \<mapsto> t)\<rparr>"
    by blast
  from assms show ?thesis
  proof
    assume "footprint_files st = (None, None)"
    with Inr show ?thesis by (simp add: promote_def)
  next
    assume "\<exists>q p. footprint_files st = (Some q, Some p) \<and> files w p = None \<and> p \<noteq> fst (dcm_files st)"
    then obtain q p where fp: "footprint_files st = (Some q, Some p)" and n: "files w p = None"
      and ne: "p \<noteq> fst (dcm_files st)"
      by blast
    from n ne have "files w5 p = None" by (simp add: w5)
    from path_replace_missing[OF this, of q]
    show ?thesis using Inr fp by (auto simp: promote_def)
  qed
qed

lemma footprint_no_model_staging:
  assumes run: "import_footprint cfg rt fpath None w = (Inr fp, w')"
  shows "fp = (None, None)
       \<or> (\<exists>items item. fpath = Inr items \<and> item \<in> set items \<and> footprint_name (fst item)
             \<and> fp = (Some (footprint_file_read cfg rt (fst item)),
                     Some (footprint_file_write cfg rt (fst item)))
             \<and> files w' (footprint_file_write cfg rt (fst item))
                 = files w (footprint_file_write cfg rt (fst item)))"
proof -
  from run obtain items where items: "fpath = Inr items"
    and loop: "import_footprint_loop cfg rt None items (None, None) w = (Inr fp, w')"
    by (cases fpath) (auto simp: import_footprint_def)
  obtain r wr where fp: "fp = (r, wr)" by (cases fp)
  from footprint_loop_no_model_result[OF loop[unfolded fp]]
  show ?thesis
  proof
    assume "(r, wr) = (None, None)"
    with fp show ?thesis by simp
  next
    assume "\<exists>item\<in>set items. footprint_name (fst item)
             \<and> r = Some (footprint_file_read cfg rt (fst item))
             \<and> wr = Some (footprint_file_write cfg rt (fst item))"
    then obtain item where i: "item \<in> set items" "footprint_name (fst item)"
      "r = Some (footprint_file_read cfg rt (fst item))"
      "wr = Some (footprint_file_write cfg rt (fst item))"
      by blast
    have "files w' (footprint_file_write cfg rt (fst item))
            = files w (footprint_file_write cfg rt (fst item))"
      using footprint_loop_no_model_files[of cfg rt items "(None, None)" w
          "footprint_file_write cfg rt (fst item)"] loop
        footprint_read_write_distinct[of _ cfg rt "fst item" cfg rt]
      by auto
    with i items fp show ?thesis by blast
  qed
qed

lemma footprint_no_model_other:
  assumes "\<And>n. footprint_name n \<Longrightarrow> q \<noteq> footprint_file_read cfg rt n"
  shows "files (snd (import_footprint cfg rt fpath None w)) q = files w q"
proof (cases fpath)
  case (Inl e)
  then show ?thesis by (simp add: import_footprint_def)
next
  case (Inr items)
  then show ?thesis
    using footprint_loop_no_model_files[of cfg rt items "(None, None)" w q] assms
    by (auto simp: import_footprint_def)
qed

lemma footprint_no_model_dirs: "dirs (snd (import_footprint cfg rt fpath None w)) = dirs w"
  by (cases fpath) (simp_all add: import_footprint_def footprint_loop_no_model_dirs)

text \<open>
  C10, with the condition it needs. Take a run on a zip file whose description stage
  succeeds and whose model stage returns no model (no \<open>.step\<close> entry, or the operator
  declined), and suppose that before the run no file exists at the staging path of
  any footprint of the archive. Then the run does not return \<open>('OK:',)\<close>: it ends
  with an exception. The footprint stage, where it succeeds, returns a write path at
  which no file exists. And where all four stages succeed and the description library
  is no directory, the first rename is carried out and the run ends in the second:
  the exception is \<open>FileNotFoundError\<close>, \<open>NotADirectoryError\<close> or \<open>AttributeError\<close>, the
  description library holds the staged text, its staging file is gone, and every other
  file is as the stages left it.
\<close>

theorem no_model_run_fails_after_dcm_promotion:
  assumes zip: "is_zipfile zf" "get_remote_info zf = Inr info"
    and dcm: "import_dcm cfg (take (length (zip_name zf) - 4) (zip_name zf)) (remote_type info)
                (dcm_path info) w = (Inr dcm, w1)"
    and model: "import_model cfg (model_path info) (zip_members zf) w1 = (Inr None, w2)"
    and fresh: "\<forall>items. footprint_path info = Inr items \<longrightarrow>
                  (\<forall>item\<in>set items. footprint_name (fst item) \<longrightarrow>
                     files w (footprint_file_write cfg (remote_type info) (fst item)) = None)"
  shows "(\<exists>e. fst (import_all cfg zf w) = Inl e)
       \<and> (\<forall>fp w3 p. import_footprint cfg (remote_type info) (footprint_path info) None w2 = (Inr fp, w3)
                     \<longrightarrow> snd fp = Some p \<longrightarrow> files w3 p = None)
       \<and> (\<forall>st w4. import_stages cfg (take (length (zip_name zf) - 4) (zip_name zf)) info
                     (zip_members zf) w = (Inr st, w4)
                   \<longrightarrow> \<not> is_dir w (dcm_file_read cfg (remote_type info))
                   \<longrightarrow> fst (import_all cfg zf w)
                         \<in> {Inl FileNotFoundError, Inl NotADirectoryError, Inl AttributeError}
                     \<and> files w4 (dcm_file_write cfg (remote_type info)) \<noteq> None
                     \<and> files (snd (import_all cfg zf w)) (dcm_file_read cfg (remote_type info))
                         = files w4 (dcm_file_write cfg (remote_type info))
                     \<and> files (snd (import_all cfg zf w)) (dcm_file_write cfg (remote_type info)) = None
                     \<and> (\<forall>q. q \<noteq> dcm_file_read cfg (remote_type info)
                            \<longrightarrow> q \<noteq> dcm_file_write cfg (remote_type info)
                            \<longrightarrow> files (snd (import_all cfg zf w)) q = files w4 q))"
proof -
  let ?rt = "remote_type info"
  let ?dev = "take (length (zip_name zf) - 4) (zip_name zf)"
  let ?rd = "dcm_file_read cfg ?rt"
  let ?wr = "dcm_file_write cfg ?rt"
  note ia = import_all_stages[OF zip, of cfg w]
  note d = import_dcm_Inr[OF dcm]
  have f2: "files w2 = files w1" using model by (rule import_model_None)
  have fresh2: "files w2 (footprint_file_write cfg ?rt (fst item)) = None"
    if "footprint_path info = Inr items" "item \<in> set items" "footprint_name (fst item)"
    for items item
  proof -
    have "files w1 (footprint_file_write cfg ?rt (fst item))
            = files w (footprint_file_write cfg ?rt (fst item))"
      using import_dcm_files_other[of "footprint_file_write cfg ?rt (fst item)" cfg ?rt ?dev
          "dcm_path info" w] footprint_paths_distinct[OF that(3)] dcm
      by simp
    with fresh that f2 show ?thesis by simp
  qed
  have staging: "fp = (None, None)
       \<or> (\<exists>q p. fp = (Some q, Some p) \<and> files w3 p = None \<and> p \<noteq> ?rd
              \<and> p \<noteq> lib_file_read cfg ?rt \<and> p \<noteq> lib_file_write cfg ?rt)"
    if "import_footprint cfg ?rt (footprint_path info) None w2 = (Inr fp, w3)" for fp w3
    using footprint_no_model_staging[OF that] fresh2 footprint_paths_distinct by auto
  have B: "\<forall>fp w3 p. import_footprint cfg ?rt (footprint_path info) None w2 = (Inr fp, w3)
                     \<longrightarrow> snd fp = Some p \<longrightarrow> files w3 p = None"
    using staging by fastforce
  have stages: "\<exists>fp w3 lib. import_footprint cfg ?rt (footprint_path info) None w2 = (Inr fp, w3)
         \<and> import_lib cfg ?dev ?rt (lib_path info) w3 = (Inr lib, w4)
         \<and> st = \<lparr>dcm_files = (?rd, ?wr), footprint_files = fp, lib_files = lib\<rparr>"
    if "import_stages cfg ?dev info (zip_members zf) w = (Inr st, w4)" for st w4
    using import_stages_Inr[OF that] dcm model d(1) by auto
  have after: "(\<exists>e. promote st w4 = (Inl e, w4) \<and> path_replace ?wr ?rd w4 = Inl e)
       \<or> (\<exists>e w5. promote st w4 = (Inl e, w5) \<and> path_replace ?wr ?rd w4 = Inr w5
              \<and> e \<in> {FileNotFoundError, NotADirectoryError, AttributeError})"
    if st: "import_stages cfg ?dev info (zip_members zf) w = (Inr st, w4)" for st w4
  proof -
    from stages[OF st] obtain fp w3 lib
      where fp: "import_footprint cfg ?rt (footprint_path info) None w2 = (Inr fp, w3)"
        and lib: "import_lib cfg ?dev ?rt (lib_path info) w3 = (Inr lib, w4)"
        and s: "st = \<lparr>dcm_files = (?rd, ?wr), footprint_files = fp, lib_files = lib\<rparr>"
      by blast
    have "footprint_files st = (None, None)
         \<or> (\<exists>q p. footprint_files st = (Some q, Some p) \<and> files w4 p = None
                  \<and> p \<noteq> fst (dcm_files st))"
      using staging[OF fp] import_lib_files_other[of _ cfg ?rt ?dev "lib_path info" w3] lib s
      by auto
    from promote_without_staging[OF this] show ?thesis by (simp add: s)
  qed
  have A: "\<exists>e. fst (import_all cfg zf w) = Inl e"
  proof (cases "import_stages cfg ?dev info (zip_members zf) w")
    case (Pair r w4)
    show ?thesis
    proof (cases r)
      case (Inl e)
      with Pair show ?thesis by (simp add: ia)
    next
      case (Inr st)
      with Pair after[of st w4] show ?thesis by (auto simp: ia)
    qed
  qed
  have C: "fst (import_all cfg zf w) \<in> {Inl FileNotFoundError, Inl NotADirectoryError, Inl AttributeError}
         \<and> files w4 ?wr \<noteq> None
         \<and> files (snd (import_all cfg zf w)) ?rd = files w4 ?wr
         \<and> files (snd (import_all cfg zf w)) ?wr = None
         \<and> (\<forall>q. q \<noteq> ?rd \<longrightarrow> q \<noteq> ?wr \<longrightarrow> files (snd (import_all cfg zf w)) q = files w4 q)"
    if st: "import_stages cfg ?dev info (zip_members zf) w = (Inr st, w4)"
      and nd: "\<not> is_dir w ?rd" for st w4
  proof -
    from stages[OF st] obtain fp w3 lib
      where fp: "import_footprint cfg ?rt (footprint_path info) None w2 = (Inr fp, w3)"
        and lib: "import_lib cfg ?dev ?rt (lib_path info) w3 = (Inr lib, w4)"
      by blast
    have k1: "files w1 ?rd \<noteq> None" "files w1 ?wr \<noteq> None" "?rd \<notin> dirs w1"
      using d nd by (simp_all add: is_dir_def)
    have k2: "files w2 ?rd \<noteq> None" "files w2 ?wr \<noteq> None" "?rd \<notin> dirs w2"
      using k1 f2 import_model_keeps[of w1 ?rd cfg "model_path info" "zip_members zf"] model
      by simp_all
    have o3: "files w3 q = files w2 q" if "q = ?rd \<or> q = ?wr" for q
      using footprint_no_model_other[of q cfg ?rt "footprint_path info" w2] fp that
        footprint_paths_distinct(1,2)[of _ cfg ?rt cfg ?rt]
      by (metis snd_conv)
    have k3: "files w3 ?rd \<noteq> None" "files w3 ?wr \<noteq> None" "?rd \<notin> dirs w3"
      using k2 o3 footprint_no_model_dirs[of cfg ?rt "footprint_path info" w2] fp by simp_all
    have k4: "files w4 ?rd \<noteq> None" "?rd \<notin> dirs w4"
      using import_lib_keeps[OF k3(1,3), of cfg ?dev ?rt "lib_path info"] lib by simp_all
    have k4': "files w4 ?wr \<noteq> None"
      using import_lib_files_other[of ?wr cfg ?rt ?dev "lib_path info" w3] lib k3(2) by simp
    then obtain t where t: "files w4 ?wr = Some t" by blast
    from path_replace_ok[OF t k4]
    have r: "path_replace ?wr ?rd w4 = Inr (w4\<lparr>files := ((files w4)(?wr := None))(?rd \<mapsto> t)\<rparr>)" .
    with after[OF st] obtain e
      where "promote st w4 = (Inl e, w4\<lparr>files := ((files w4)(?wr := None))(?rd \<mapsto> t)\<rparr>)"
        and "e \<in> {FileNotFoundError, NotADirectoryError, AttributeError}"
      by auto
    with st t k4' show ?thesis by (auto simp: ia)
  qed
  from A B C show ?thesis by blast
qed
theorem no_model_run_fails_after_dcm_promotion_witness:
  "fst (import_all sample_config no_model_zip (footprint_world ['''', ''y'']))
     \<in> {Inl FileNotFoundError, Inl NotADirectoryError, Inl AttributeError}
   \<and> files (snd (import_all sample_config no_model_zip (footprint_world ['''', ''y''])))
        (dcm_file_read sample_config SNAPEDA)
     = files (snd (import_stages sample_config ''X'' (sample_info\<lparr>model_path := Inr []\<rparr>)
                     Map.empty (footprint_world ['''', ''y''])))
         (dcm_file_write sample_config SNAPEDA)
   \<and> files (snd (import_all sample_config no_model_zip (footprint_world ['''', ''y''])))
        (dcm_file_write sample_config SNAPEDA) = None"
proof -
  let ?info = "sample_info\<lparr>model_path := Inr []\<rparr>"
  let ?w = "footprint_world ['''', ''y'']"
  let ?dev = "take (length (zip_name no_model_zip) - 4) (zip_name no_model_zip)"
  let ?dcm = "([''lib'', ''SNAPEDA.dcm''], [''lib'', ''SNAPEDA.dcm~''])"
  let ?w1 = "snd (import_dcm sample_config ?dev (remote_type ?info) (dcm_path ?info) ?w)"
  let ?w2 = "snd (import_model sample_config (model_path ?info) (zip_members no_model_zip) ?w1)"
  let ?st = "\<lparr>dcm_files = ?dcm,
              footprint_files = (Some [''fp'', ''SNAPEDA.pretty'', ''X.kicad_mod''],
                                 Some [''fp'', ''SNAPEDA.pretty'', ''X.kicad_mod~'']),
              lib_files = ([''lib'', ''SNAPEDA.lib''], [''lib'', ''SNAPEDA.lib~''])\<rparr>"
  let ?w4 = "snd (import_stages sample_config ?dev ?info (zip_members no_model_zip) ?w)"
  have dev: "?dev = ''X''" by (simp add: no_model_zip_def)
  have mem: "zip_members no_model_zip = Map.empty" by (simp add: no_model_zip_def)
  have z: "is_zipfile no_model_zip" "get_remote_info no_model_zip = Inr ?info"
    by (simp_all add: no_model_zip_def)
  have "fst (import_dcm sample_config ?dev (remote_type ?info) (dcm_path ?info) ?w) = Inr ?dcm"
    by code_simp
  then have d: "import_dcm sample_config ?dev (remote_type ?info) (dcm_path ?info) ?w = (Inr ?dcm, ?w1)"
    by (simp add: prod_eq_iff)
  have "fst (import_model sample_config (model_path ?info) (zip_members no_model_zip) ?w1) = Inr None"
    by code_simp
  then have m: "import_model sample_config (model_path ?info) (zip_members no_model_zip) ?w1
                  = (Inr None, ?w2)"
    by (simp add: prod_eq_iff)
  have f: "\<forall>items. footprint_path ?info = Inr items \<longrightarrow>
             (\<forall>item\<in>set items. footprint_name (fst item) \<longrightarrow>
                files ?w (footprint_file_write sample_config (remote_type ?info) (fst item)) = None)"
    by (simp add: sample_info_def footprint_world_def footprint_file_write_def pjoin_def
        sample_config_def)
  have "fst (import_stages sample_config ?dev ?info (zip_members no_model_zip) ?w) = Inr ?st"
    by code_simp
  then have s: "import_stages sample_config ?dev ?info (zip_members no_model_zip) ?w = (Inr ?st, ?w4)"
    by (simp add: prod_eq_iff)
  have nd: "\<not> is_dir ?w (dcm_file_read sample_config (remote_type ?info))"
    by code_simp
  have rt: "remote_type ?info = SNAPEDA" by (simp add: sample_info_def)
  from no_model_run_fails_after_dcm_promotion[OF z d m f] s nd
  have "fst (import_all sample_config no_model_zip ?w)
          \<in> {Inl FileNotFoundError, Inl NotADirectoryError, Inl AttributeError}
      \<and> files (snd (import_all sample_config no_model_zip ?w)) (dcm_file_read sample_config (remote_type ?info))
          = files ?w4 (dcm_file_write sample_config (remote_type ?info))
      \<and> files (snd (import_all sample_config no_model_zip ?w)) (dcm_file_write sample_config (remote_type ?info))
          = None"
    by blast
  then show ?thesis unfolding rt dev mem .
qed

lemma stale_run_model:
  "fst (import_model sample_config (Inr []) Map.empty
          (snd (import_dcm sample_config ''X'' SNAPEDA (Some (''X.dcm'', sample_dcm))
                  (stale_world ['''', ''y''])))) = Inr None"
  by code_simp

lemma stale_run_ok:
  "fst (import_all sample_config no_model_zip (stale_world ['''', ''y''])) = Inr (Some [''OK:''])"
  by code_simp

lemma stale_run_footprint:
  "files (snd (import_all sample_config no_model_zip (stale_world ['''', ''y''])))
     [''fp'', ''SNAPEDA.pretty'', ''X.kicad_mod''] = Some ''stale''"
  by code_simp

text \<open>
  C10 as stated fails. The archive has no \<open>.step\<close> entry, so the model stage returns
  no model, and the footprint library holds a file \<open>X.kicad_mod~\<close> from before the run.
  The footprint stage writes the footprint in place and returns that path as the
  write path; the second rename finds the old file there, the run returns \<open>('OK:',)\<close>,
  and the footprint installed is the text of the old staging file.
\<close>

theorem stale_staging_file_completes_run:
  "fst (import_model sample_config (Inr []) Map.empty
          (snd (import_dcm sample_config ''X'' SNAPEDA (Some (''X.dcm'', sample_dcm))
                  (stale_world ['''', ''y''])))) = Inr None
   \<and> fst (import_all sample_config no_model_zip (stale_world ['''', ''y''])) = Inr (Some [''OK:''])
   \<and> files (snd (import_all sample_config no_model_zip (stale_world ['''', ''y''])))
        [''fp'', ''SNAPEDA.pretty'', ''X.kicad_mod''] = Some ''stale''"
  using stale_run_model stale_run_ok stale_run_footprint by simp

section \<open>What the stages do to the libraries\<close>

text \<open>The footprint stage, with or without a model, changes the footprint files and
  their staging files only.\<close>

lemma footprint_loop_files:
  "files (snd (import_footprint_loop cfg rt fm items rw w)) q = files w q
   \<or> (\<exists>item\<in>set items. footprint_name (fst item)
         \<and> (q = footprint_file_read cfg rt (fst item) \<or> q = footprint_file_write cfg rt (fst item)))"
proof (induction items arbitrary: rw w)
  case Nil
  show ?case by simp
next
  case (Cons item items)
  let ?rd = "footprint_file_read cfg rt (fst item)"
  let ?wr = "footprint_file_write cfg rt (fst item)"
  let ?L = "import_footprint_loop cfg rt fm (item # items) rw w"
  note defs = footprint_name_def footprint_file_read_def footprint_file_write_def Let_def
  show ?case
  proof (cases "footprint_name (fst item)")
    case False
    with Cons[of rw w] show ?thesis by (auto simp: footprint_name_def)
  next
    case fn: True
    show ?thesis
    proof (cases "q = ?rd \<or> q = ?wr")
      case True
      with fn show ?thesis by auto
    next
      case ne: False
      have step: "files (snd ?L) q = files w q
          \<or> (\<exists>w'. files w' q = files w q
                 \<and> ?L = import_footprint_loop cfg rt fm items (Some ?rd, Some ?wr) w')"
      proof (cases fm)
        case None
        show ?thesis
        proof (cases "write_text ?rd (snd item) w")
          case (Inl e)
          with fn None show ?thesis by (simp add: defs)
        next
          case (Inr w1)
          from write_text_Inr[OF Inr] ne have "files w1 q = files w q" by simp
          moreover from fn None Inr
          have "?L = import_footprint_loop cfg rt fm items (Some ?rd, Some ?wr) w1"
            by (simp add: defs)
          ultimately show ?thesis by blast
        qed
      next
        case (Some m)
        obtain ra replies
          where a: "(if path_exists w ?rd then input (stdin w) else (Inr [], stdin w)) = (ra, replies)"
          by (cases "if path_exists w ?rd then input (stdin w) else (Inr [], stdin w)")
        let ?w0 = "w\<lparr>stdin := replies\<rparr>"
        show ?thesis
        proof (cases ra)
          case (Inl e)
          with fn Some a have "?L = (Inl e, ?w0)" by (simp add: defs)
          then show ?thesis by simp
        next
          case ra: (Inr reply)
          show ?thesis
          proof (cases "dcm_confirmed reply")
            case False
            with fn Some a ra have "?L = (Inr (Some ?rd, Some ?wr), ?w0)" by (simp add: defs)
            then show ?thesis by simp
          next
            case cf: True
            obtain r1 w1 where c1: "check_file ?rd ?w0 = (r1, w1)" by (cases "check_file ?rd ?w0")
            from check_file_result_other[OF c1, of q] ne have f1: "files w1 q = files w q" by simp
            show ?thesis
            proof (cases r1)
              case (Inl e)
              with fn Some a ra cf c1 have "?L = (Inl e, w1)" by (simp add: defs)
              with f1 show ?thesis by simp
            next
              case r1: (Inr u1)
              show ?thesis
              proof (cases "write_text ?rd (snd item) w1")
                case (Inl e)
                with fn Some a ra cf c1 r1 have "?L = (Inl e, w1)" by (simp add: defs)
                with f1 show ?thesis by simp
              next
                case wt1: (Inr w2)
                from write_text_Inr[OF wt1] ne f1 have f2: "files w2 q = files w q" by simp
                obtain r3 w3 where c3: "check_file ?wr w2 = (r3, w3)" by (cases "check_file ?wr w2")
                from check_file_result_other[OF c3, of q] ne f2 have f3: "files w3 q = files w q"
                  by simp
                show ?thesis
                proof (cases r3)
                  case (Inl e)
                  with fn Some a ra cf c1 r1 wt1 c3 have "?L = (Inl e, w3)" by (simp add: defs)
                  with f3 show ?thesis by simp
                next
                  case r3: (Inr u3)
                  show ?thesis
                  proof (cases "files w3 ?rd")
                    case None
                    with fn Some a ra cf c1 r1 wt1 c3 r3 have "?L = (Inl IsADirectoryError, w3)"
                      by (simp add: defs)
                    with f3 show ?thesis by simp
                  next
                    case tx: (Some tx)
                    show ?thesis
                    proof (cases "write_text ?wr (with_model m (readlines tx)) w3")
                      case (Inl e)
                      with fn Some a ra cf c1 r1 wt1 c3 r3 tx have "?L = (Inl e, w3)"
                        by (simp add: defs)
                      with f3 show ?thesis by simp
                    next
                      case wt3: (Inr w4)
                      from write_text_Inr[OF wt3] ne f3 have f4: "files w4 q = files w q" by simp
                      from fn Some a ra cf c1 r1 wt1 c3 r3 tx wt3
                      have "?L = import_footprint_loop cfg rt fm items (Some ?rd, Some ?wr) w4"
                        by (simp add: defs)
                      with f4 show ?thesis by blast
                    qed
                  qed
                qed
              qed
            qed
          qed
        qed
      qed
      then show ?thesis
      proof
        assume "files (snd ?L) q = files w q"
        then show ?thesis by simp
      next
        assume "\<exists>w'. files w' q = files w q
                 \<and> ?L = import_footprint_loop cfg rt fm items (Some ?rd, Some ?wr) w'"
        then obtain w' where w': "files w' q = files w q"
          "?L = import_footprint_loop cfg rt fm items (Some ?rd, Some ?wr) w'"
          by blast
        from Cons[of "(Some ?rd, Some ?wr)" w'] w' show ?thesis by auto
      qed
    qed
  qed
qed

lemma import_footprint_files:
  "files (snd (import_footprint cfg rt fpath fm w)) q = files w q
   \<or> (\<exists>n. footprint_name n
         \<and> (q = footprint_file_read cfg rt n \<or> q = footprint_file_write cfg rt n))"
proof (cases fpath)
  case (Inl e)
  then show ?thesis by (simp add: import_footprint_def)
next
  case (Inr items)
  then show ?thesis
    using footprint_loop_files[of cfg rt fm items "(None, None)" w q]
    by (auto simp: import_footprint_def)
qed

text \<open>The world a run of the stages ends in is the world one of the stages ends in.\<close>

lemma import_stages_world:
  fixes cfg device info members w
  defines "W1 \<equiv> snd (import_dcm cfg device (remote_type info) (dcm_path info) w)"
  defines "W2 \<equiv> snd (import_model cfg (model_path info) members W1)"
  defines "fm \<equiv> (case fst (import_model cfg (model_path info) members W1) of
                    Inl e \<Rightarrow> None | Inr f \<Rightarrow> f)"
  defines "W3 \<equiv> snd (import_footprint cfg (remote_type info) (footprint_path info) fm W2)"
  defines "W4 \<equiv> snd (import_lib cfg device (remote_type info) (lib_path info) W3)"
  shows "snd (import_stages cfg device info members w) \<in> {W1, W2, W3, W4}"
  unfolding import_stages_def W1_def W2_def W3_def W4_def fm_def
  by (auto split: prod.splits sum.splits)

text \<open>What the stages do to the two libraries, however the run of the stages ends:
  a library keeps its text, or it was absent or empty and is now empty or holds the
  template.\<close>

lemma import_stages_dcm_kept:
  fixes cfg device info members w
  defines "p \<equiv> dcm_file_read cfg (remote_type info)"
  defines "w' \<equiv> snd (import_stages cfg device info members w)"
  shows "files w' p = files w p
       \<or> ((files w p = None \<or> files w p = Some [])
          \<and> (files w' p = Some [] \<or> files w' p = Some dcm_template))"
proof -
  let ?rt = "remote_type info"
  let ?W1 = "snd (import_dcm cfg device ?rt (dcm_path info) w)"
  let ?W2 = "snd (import_model cfg (model_path info) members ?W1)"
  let ?fm = "(case fst (import_model cfg (model_path info) members ?W1) of
                    Inl e \<Rightarrow> None | Inr f \<Rightarrow> f)"
  let ?W3 = "snd (import_footprint cfg ?rt (footprint_path info) ?fm ?W2)"
  let ?W4 = "snd (import_lib cfg device ?rt (lib_path info) ?W3)"
  have 2: "files ?W2 p = files ?W1 p"
    using import_model_files[of cfg "model_path info" members ?W1 p] model_paths_distinct(1)
    by (metis p_def)
  have 3: "files ?W3 p = files ?W2 p"
    using import_footprint_files[of cfg ?rt "footprint_path info" ?fm ?W2 p]
      footprint_paths_distinct(1,5)
    by (metis p_def)
  have 4: "files ?W4 p = files ?W3 p"
    by (simp add: p_def import_lib_files_other)
  from import_stages_world[of cfg device info members w]
  have "files w' p = files ?W1 p" using 2 3 4 by (auto simp: w'_def)
  with import_dcm_read_kept[of cfg device ?rt "dcm_path info" w] show ?thesis
    by (simp add: p_def)
qed

lemma import_stages_lib_kept:
  fixes cfg device info members w
  defines "p \<equiv> lib_file_read cfg (remote_type info)"
  defines "w' \<equiv> snd (import_stages cfg device info members w)"
  shows "files w' p = files w p
       \<or> ((files w p = None \<or> files w p = Some [])
          \<and> (files w' p = Some [] \<or> files w' p = Some lib_template))"
proof -
  let ?rt = "remote_type info"
  let ?W1 = "snd (import_dcm cfg device ?rt (dcm_path info) w)"
  let ?W2 = "snd (import_model cfg (model_path info) members ?W1)"
  let ?fm = "(case fst (import_model cfg (model_path info) members ?W1) of
                    Inl e \<Rightarrow> None | Inr f \<Rightarrow> f)"
  let ?W3 = "snd (import_footprint cfg ?rt (footprint_path info) ?fm ?W2)"
  let ?W4 = "snd (import_lib cfg device ?rt (lib_path info) ?W3)"
  have 1: "files ?W1 p = files w p"
    by (simp add: p_def import_dcm_files_other)
  have 2: "files ?W2 p = files ?W1 p"
    using import_model_files[of cfg "model_path info" members ?W1 p] model_paths_distinct(3)
    by (metis p_def)
  have 3: "files ?W3 p = files ?W2 p"
    using import_footprint_files[of cfg ?rt "footprint_path info" ?fm ?W2 p]
      footprint_paths_distinct(3,7)
    by (metis p_def)
  from import_lib_read_kept[of cfg device ?rt "lib_path info" ?W3]
  have 4: "files ?W4 p = files w p
       \<or> ((files w p = None \<or> files w p = Some [])
          \<and> (files ?W4 p = Some [] \<or> files ?W4 p = Some lib_template))"
    using 1 2 3 by (simp add: p_def)
  from import_stages_world[of cfg device info members w]
  have "w' = ?W1 \<or> w' = ?W2 \<or> w' = ?W3 \<or> w' = ?W4" by (simp add: w'_def)
  with 1 2 3 4 show ?thesis by auto
qed

section \<open>A stage that fails\<close>

text \<open>
  C1, for the two libraries. However the four stages of a run end, they leave the
  description library and the symbol library with the text they had, unless the
  library was absent or empty: then it is now empty or holds the template of its
  format. And when a stage raises an exception the run ends with that exception in
  the world the stages left: none of the three renames is carried out.
\<close>

theorem failed_stage_promotes_nothing:
  assumes "is_zipfile zf" and "get_remote_info zf = Inr info"
    and "import_stages cfg (take (length (zip_name zf) - 4) (zip_name zf)) info (zip_members zf) w
           = (r, w')"
  shows "(\<forall>e. r = Inl e \<longrightarrow> import_all cfg zf w = (Inl e, w'))
       \<and> (files w' (dcm_file_read cfg (remote_type info)) = files w (dcm_file_read cfg (remote_type info))
          \<or> ((files w (dcm_file_read cfg (remote_type info)) = None
               \<or> files w (dcm_file_read cfg (remote_type info)) = Some [])
             \<and> (files w' (dcm_file_read cfg (remote_type info)) = Some []
                \<or> files w' (dcm_file_read cfg (remote_type info)) = Some dcm_template)))
       \<and> (files w' (lib_file_read cfg (remote_type info)) = files w (lib_file_read cfg (remote_type info))
          \<or> ((files w (lib_file_read cfg (remote_type info)) = None
               \<or> files w (lib_file_read cfg (remote_type info)) = Some [])
             \<and> (files w' (lib_file_read cfg (remote_type info)) = Some []
                \<or> files w' (lib_file_read cfg (remote_type info)) = Some lib_template)))"
proof -
  let ?dev = "take (length (zip_name zf) - 4) (zip_name zf)"
  have w': "w' = snd (import_stages cfg ?dev info (zip_members zf) w)"
    using assms(3) by simp
  have "\<forall>e. r = Inl e \<longrightarrow> import_all cfg zf w = (Inl e, w')"
    using assms(3) by (simp add: import_all_stages[OF assms(1,2)])
  moreover note import_stages_dcm_kept[of cfg ?dev info "zip_members zf" w, folded w']
  moreover note import_stages_lib_kept[of cfg ?dev info "zip_members zf" w, folded w']
  ultimately show ?thesis by blast
qed

theorem failed_stage_promotes_nothing_witness:
  "fst (import_all sample_config unexpected_zip (sample_world ['''', ''y'']))
     = Inl (Warning [''Unexpected device inX.lib''])
   \<and> files (snd (import_all sample_config unexpected_zip (sample_world ['''', ''y''])))
        (dcm_file_read sample_config SNAPEDA) = Some old_dcm"
proof -
  let ?info = "sample_info\<lparr>lib_path := (''X.lib'', unlines [''DEF Y U 0'', ''ENDDEF''])\<rparr>"
  let ?w = "sample_world ['''', ''y'']"
  let ?dev = "take (length (zip_name unexpected_zip) - 4) (zip_name unexpected_zip)"
  let ?e = "Warning [''Unexpected device inX.lib'']"
  let ?w' = "snd (import_stages sample_config ?dev ?info (zip_members unexpected_zip) ?w)"
  have z: "is_zipfile unexpected_zip" "get_remote_info unexpected_zip = Inr ?info"
    by (simp_all add: unexpected_zip_def)
  have "fst (import_stages sample_config ?dev ?info (zip_members unexpected_zip) ?w) = Inl ?e"
    by code_simp
  then have s: "import_stages sample_config ?dev ?info (zip_members unexpected_zip) ?w = (Inl ?e, ?w')"
    by (simp add: prod_eq_iff)
  have rt: "remote_type ?info = SNAPEDA" by (simp add: sample_info_def)
  have old: "files ?w (dcm_file_read sample_config SNAPEDA) = Some old_dcm"
    by (simp add: sample_world_def dcm_file_read_def sample_config_def pjoin_def)
  have ne: "old_dcm \<noteq> []" by (simp add: old_dcm_def unlines_def)
  from failed_stage_promotes_nothing[OF z s]
  have a: "import_all sample_config unexpected_zip ?w = (Inl ?e, ?w')"
    and k: "files ?w' (dcm_file_read sample_config SNAPEDA) = files ?w (dcm_file_read sample_config SNAPEDA)
          \<or> ((files ?w (dcm_file_read sample_config SNAPEDA) = None
               \<or> files ?w (dcm_file_read sample_config SNAPEDA) = Some [])
             \<and> (files ?w' (dcm_file_read sample_config SNAPEDA) = Some []
                \<or> files ?w' (dcm_file_read sample_config SNAPEDA) = Some dcm_template))"
    unfolding rt by blast+
  from k old ne have "files ?w' (dcm_file_read sample_config SNAPEDA) = Some old_dcm" by auto
  with a show ?thesis by simp
qed

lemma installed_run_error:
  "fst (import_all sample_config unexpected_zip (installed_world ['''', ''y'']))
     = Inl (Warning [''Unexpected device inX.lib''])"
  by code_simp

lemma installed_run_dcm:
  "files (snd (import_all sample_config unexpected_zip (installed_world ['''', ''y''])))
     [''lib'', ''SNAPEDA.dcm''] = Some dcm_template"
  by code_simp

lemma installed_run_footprint:
  "files (snd (import_all sample_config unexpected_zip (installed_world ['''', ''y''])))
     [''fp'', ''SNAPEDA.pretty'', ''X.kicad_mod''] = Some (unlines [''(module X'', '')''])"
  by code_simp

lemma installed_before:
  "files (installed_world ['''', ''y'']) [''lib'', ''SNAPEDA.dcm''] = Some []"
  "files (installed_world ['''', ''y'']) [''fp'', ''SNAPEDA.pretty'', ''X.kicad_mod'']
     = Some (unlines [''(module old'', '')''])"
  by (simp_all add: installed_world_def)

lemma installed_differs:
  "dcm_template \<noteq> []" "unlines [''(module X'', '')''] \<noteq> unlines [''(module old'', '')'']"
  by (simp_all add: unlines_def)

text \<open>
  C1 as stated fails. The symbol file of the archive holds a record of another
  device, so the last stage raises the warning \<open>Unexpected device in\<close> and the run
  ends without a rename. By then the description library, an empty file before the
  run, holds the template of its format, which the description stage wrote to the
  library itself; and the footprint installed earlier holds the footprint of the
  archive, which the footprint stage wrote in place.
\<close>

theorem failed_run_changes_targets:
  "fst (import_all sample_config unexpected_zip (installed_world ['''', ''y'']))
     = Inl (Warning [''Unexpected device inX.lib''])
   \<and> files (installed_world ['''', ''y'']) [''lib'', ''SNAPEDA.dcm''] = Some []
   \<and> files (snd (import_all sample_config unexpected_zip (installed_world ['''', ''y''])))
        [''lib'', ''SNAPEDA.dcm''] = Some dcm_template
   \<and> dcm_template \<noteq> []
   \<and> files (installed_world ['''', ''y'']) [''fp'', ''SNAPEDA.pretty'', ''X.kicad_mod'']
        = Some (unlines [''(module old'', '')''])
   \<and> files (snd (import_all sample_config unexpected_zip (installed_world ['''', ''y''])))
        [''fp'', ''SNAPEDA.pretty'', ''X.kicad_mod''] = Some (unlines [''(module X'', '')''])
   \<and> unlines [''(module X'', '')''] \<noteq> unlines [''(module old'', '')'']"
  using installed_run_error installed_run_dcm installed_run_footprint installed_before
    installed_differs
  by simp

section \<open>What the scans find\<close>

text \<open>What one turn of the first loop of \<open>import_lib\<close> does to the cursors and to the
  line, by the case the line falls in.\<close>

lemma replace1_same: "replace1 d d l = l"
proof (induction l)
  case Nil
  show ?case by simp
next
  case (Cons c cs)
  show ?case
  proof (cases "startswith (c # cs) d")
    case True
    then have "d @ drop (length d) (c # cs) = c # cs"
      unfolding startswith_def by (metis append_take_drop_id)
    with True show ?thesis by simp
  next
    case False
    with Cons show ?thesis by simp
  qed
qed

lemma lib_scan_line_cases:
  assumes "lib_scan_line device rt n idx x s = Inr (x', s')"
  shows "(index_start s = None \<and> startswith x ''#'' \<and> x' = x \<and> index_start s' = None
            \<and> index_end s' = index_end s
            \<and> (index_header_start s' = index_header_start s
                \<or> (index_header_start s = None \<and> index_header_start s' = Some idx)))
       \<or> (index_start s = None \<and> \<not> startswith x ''#'' \<and> startswith x ''DEF ''
            \<and> x' = replace1 (py_split x ! 1) device x \<and> s' = s\<lparr>index_start := Some idx\<rparr>)
       \<or> (index_start s = None \<and> \<not> startswith x ''#'' \<and> \<not> startswith x ''DEF '' \<and> x' = x
            \<and> s' = s\<lparr>index_header_start := None\<rparr>)
       \<or> (index_start s \<noteq> None \<and> index_end s = None \<and> startswith x ''F2'' \<and> s' = s)
       \<or> (index_start s \<noteq> None \<and> index_end s = None \<and> \<not> startswith x ''F2''
            \<and> startswith x ''ENDDEF'' \<and> x' = x \<and> s' = s\<lparr>index_end := Some (idx + 1)\<rparr>)
       \<or> (index_start s \<noteq> None \<and> index_end s = None \<and> \<not> startswith x ''F2''
            \<and> \<not> startswith x ''ENDDEF'' \<and> x' = x \<and> s' = s)
       \<or> (index_start s \<noteq> None \<and> index_end s \<noteq> None \<and> x' = x \<and> s' = s)"
proof (cases "index_start s = None")
  case True
  with assms show ?thesis
    by (auto simp: lib_scan_line_def split: if_splits list.splits)
next
  case st: False
  show ?thesis
  proof (cases "index_end s = None")
    case True
    with st assms show ?thesis
      by (auto simp: lib_scan_line_def Let_def replace1_same split: if_splits list.splits)
  next
    case False
    with st assms show ?thesis
      by (auto simp: lib_scan_line_def split: if_splits)
  qed
qed

lemma lib_scan_loop_snoc:
  assumes "lib_scan_loop device rt n 0 (xs @ [x]) s0 = Inr (out', s')"
  shows "\<exists>out s1 x'. lib_scan_loop device rt n 0 xs s0 = Inr (out, s1)
           \<and> lib_scan_line device rt n (length xs) x s1 = Inr (x', s')
           \<and> out' = out @ [x'] \<and> length out = length xs"
proof -
  from lib_scan_loop_split[OF assms]
  obtain out ys s1 where a: "lib_scan_loop device rt n 0 xs s0 = Inr (out, s1)"
    and b: "lib_scan_loop device rt n (0 + length xs) [x] s1 = Inr (ys, s')"
    and c: "out' = out @ ys" "length out = length xs"
    by blast
  from lib_scan_loop_Cons[OF b] obtain x' where "lib_scan_line device rt n (length xs) x s1 = Inr (x', s')"
    "ys = [x']"
    by auto
  with a c show ?thesis by blast
qed

text \<open>What the first loop of \<open>import_lib\<close> has found, in terms of the lines of the
  source: the opening line at \<open>index_start\<close>, the closing line before \<open>index_end\<close>, the
  comment lines from \<open>index_header_start\<close>, and the lines it has left as they were.\<close>

lemma lib_scan_loop_invariant:
  assumes "lib_scan_loop device rt n 0 xs scan_init = Inr (out, s)"
  shows "length out = length xs
       \<and> (index_start s = None \<longrightarrow> index_end s = None)
       \<and> (\<forall>a. index_start s = Some a \<longrightarrow>
             a < length xs \<and> startswith (xs ! a) ''DEF ''
             \<and> out ! a = replace1 (py_split (xs ! a) ! 1) device (xs ! a))
       \<and> (\<forall>e. index_end s = Some e \<longrightarrow>
             e \<le> length xs \<and> (\<exists>a. index_start s = Some a \<and> a + 1 < e)
             \<and> startswith (xs ! (e - 1)) ''ENDDEF'')
       \<and> (\<forall>h. index_header_start s = Some h \<longrightarrow>
             h < (case index_start s of None \<Rightarrow> length xs | Some a \<Rightarrow> a)
             \<and> (\<forall>i. h \<le> i \<and> i < (case index_start s of None \<Rightarrow> length xs | Some a \<Rightarrow> a)
                    \<longrightarrow> startswith (xs ! i) ''#''))
       \<and> (\<forall>i<length xs. index_start s \<noteq> Some i \<longrightarrow> \<not> startswith (xs ! i) ''F2''
             \<longrightarrow> out ! i = xs ! i)"
  using assms
proof (induction xs arbitrary: out s rule: rev_induct)
  case Nil
  then show ?case by (auto simp: scan_init_def)
next
  case (snoc x xs)
  from lib_scan_loop_snoc[OF snoc.prems]
  obtain out1 s1 x' where l: "lib_scan_loop device rt n 0 xs scan_init = Inr (out1, s1)"
    and x: "lib_scan_line device rt n (length xs) x s1 = Inr (x', s)"
    and o: "out = out1 @ [x']" "length out1 = length xs"
    by blast
  note ih = snoc.IH[OF l]
  from ih have len: "length out1 = length xs" by simp
  from ih have se: "index_start s1 = None \<longrightarrow> index_end s1 = None" by simp
  from ih have st: "\<And>a. index_start s1 = Some a \<Longrightarrow>
             a < length xs \<and> startswith (xs ! a) ''DEF ''
             \<and> out1 ! a = replace1 (py_split (xs ! a) ! 1) device (xs ! a)" by blast
  from ih have en: "\<And>e. index_end s1 = Some e \<Longrightarrow>
             e \<le> length xs \<and> (\<exists>a. index_start s1 = Some a \<and> a + 1 < e)
             \<and> startswith (xs ! (e - 1)) ''ENDDEF''" by blast
  from ih have hd: "\<And>h. index_header_start s1 = Some h \<Longrightarrow>
             h < (case index_start s1 of None \<Rightarrow> length xs | Some a \<Rightarrow> a)
             \<and> (\<forall>i. h \<le> i \<and> i < (case index_start s1 of None \<Rightarrow> length xs | Some a \<Rightarrow> a)
                    \<longrightarrow> startswith (xs ! i) ''#'')" by blast
  from ih have un: "\<And>i. i < length xs \<Longrightarrow> index_start s1 \<noteq> Some i \<Longrightarrow> \<not> startswith (xs ! i) ''F2''
             \<Longrightarrow> out1 ! i = xs ! i" by blast
  have 1: "length out = length (xs @ [x])" using o by simp
  from lib_scan_line_cases[OF x]
  consider
    (hashline) "index_start s1 = None" "startswith x ''#''" "x' = x" "index_start s = None"
      "index_end s = index_end s1"
      "index_header_start s = index_header_start s1
       \<or> (index_header_start s1 = None \<and> index_header_start s = Some (length xs))"
  | (defline) "index_start s1 = None" "\<not> startswith x ''#''" "startswith x ''DEF ''"
      "x' = replace1 (py_split x ! 1) device x" "s = s1\<lparr>index_start := Some (length xs)\<rparr>"
  | (plainline) "index_start s1 = None" "\<not> startswith x ''#''" "x' = x"
      "s = s1\<lparr>index_header_start := None\<rparr>"
  | (f2line) "index_start s1 \<noteq> None" "index_end s1 = None" "startswith x ''F2''" "s = s1"
  | (endline) "index_start s1 \<noteq> None" "index_end s1 = None" "\<not> startswith x ''F2''"
      "startswith x ''ENDDEF''" "x' = x" "s = s1\<lparr>index_end := Some (length xs + 1)\<rparr>"
  | (keptline) "index_start s1 \<noteq> None" "\<not> startswith x ''F2'' \<or> index_end s1 \<noteq> None" "x' = x" "s = s1"
    by (elim disjE) auto
  then show ?case
  proof cases
    case hashline
    have 2: "index_start s = None \<longrightarrow> index_end s = None" using hashline se by simp
    have 3: "\<forall>a. index_start s = Some a \<longrightarrow>
             a < length (xs @ [x]) \<and> startswith ((xs @ [x]) ! a) ''DEF ''
             \<and> out ! a = replace1 (py_split ((xs @ [x]) ! a) ! 1) device ((xs @ [x]) ! a)"
      using hashline by simp
    have 4: "\<forall>e. index_end s = Some e \<longrightarrow>
             e \<le> length (xs @ [x]) \<and> (\<exists>a. index_start s = Some a \<and> a + 1 < e)
             \<and> startswith ((xs @ [x]) ! (e - 1)) ''ENDDEF''"
      using hashline se by simp
    have 5: "\<forall>h. index_header_start s = Some h \<longrightarrow>
             h < (case index_start s of None \<Rightarrow> length (xs @ [x]) | Some a \<Rightarrow> a)
             \<and> (\<forall>i. h \<le> i \<and> i < (case index_start s of None \<Rightarrow> length (xs @ [x]) | Some a \<Rightarrow> a)
                    \<longrightarrow> startswith ((xs @ [x]) ! i) ''#'')"
    proof (intro allI impI)
      fix h assume h: "index_header_start s = Some h"
      from hashline(6) show "h < (case index_start s of None \<Rightarrow> length (xs @ [x]) | Some a \<Rightarrow> a)
             \<and> (\<forall>i. h \<le> i \<and> i < (case index_start s of None \<Rightarrow> length (xs @ [x]) | Some a \<Rightarrow> a)
                    \<longrightarrow> startswith ((xs @ [x]) ! i) ''#'')"
      proof
        assume "index_header_start s = index_header_start s1"
        with h hd[of h] hashline(1,2,4) show ?thesis
          by (auto simp: nth_append less_Suc_eq)
      next
        assume "index_header_start s1 = None \<and> index_header_start s = Some (length xs)"
        with h hashline(2,4) show ?thesis
          by (auto simp: nth_append less_Suc_eq)
      qed
    qed
    have 6: "\<forall>i<length (xs @ [x]). index_start s \<noteq> Some i \<longrightarrow> \<not> startswith ((xs @ [x]) ! i) ''F2''
             \<longrightarrow> out ! i = (xs @ [x]) ! i"
      using hashline(1,3,4) un o by (auto simp: nth_append less_Suc_eq)
    from 1 2 3 4 5 6 show ?thesis by blast
  next
    case defline
    have 2: "index_start s = None \<longrightarrow> index_end s = None" using defline by simp
    have 3: "\<forall>a. index_start s = Some a \<longrightarrow>
             a < length (xs @ [x]) \<and> startswith ((xs @ [x]) ! a) ''DEF ''
             \<and> out ! a = replace1 (py_split ((xs @ [x]) ! a) ! 1) device ((xs @ [x]) ! a)"
      using defline o by (simp add: nth_append)
    have 4: "\<forall>e. index_end s = Some e \<longrightarrow>
             e \<le> length (xs @ [x]) \<and> (\<exists>a. index_start s = Some a \<and> a + 1 < e)
             \<and> startswith ((xs @ [x]) ! (e - 1)) ''ENDDEF''"
      using defline se by simp
    have 5: "\<forall>h. index_header_start s = Some h \<longrightarrow>
             h < (case index_start s of None \<Rightarrow> length (xs @ [x]) | Some a \<Rightarrow> a)
             \<and> (\<forall>i. h \<le> i \<and> i < (case index_start s of None \<Rightarrow> length (xs @ [x]) | Some a \<Rightarrow> a)
                    \<longrightarrow> startswith ((xs @ [x]) ! i) ''#'')"
      using defline(1,5) hd by (auto simp: nth_append)
    have 6: "\<forall>i<length (xs @ [x]). index_start s \<noteq> Some i \<longrightarrow> \<not> startswith ((xs @ [x]) ! i) ''F2''
             \<longrightarrow> out ! i = (xs @ [x]) ! i"
      using defline(1,5) un o by (auto simp: nth_append less_Suc_eq)
    from 1 2 3 4 5 6 show ?thesis by blast
  next
    case plainline
    have 2: "index_start s = None \<longrightarrow> index_end s = None" using plainline se by simp
    have 3: "\<forall>a. index_start s = Some a \<longrightarrow>
             a < length (xs @ [x]) \<and> startswith ((xs @ [x]) ! a) ''DEF ''
             \<and> out ! a = replace1 (py_split ((xs @ [x]) ! a) ! 1) device ((xs @ [x]) ! a)"
      using plainline by simp
    have 4: "\<forall>e. index_end s = Some e \<longrightarrow>
             e \<le> length (xs @ [x]) \<and> (\<exists>a. index_start s = Some a \<and> a + 1 < e)
             \<and> startswith ((xs @ [x]) ! (e - 1)) ''ENDDEF''"
      using plainline se by simp
    have 5: "\<forall>h. index_header_start s = Some h \<longrightarrow>
             h < (case index_start s of None \<Rightarrow> length (xs @ [x]) | Some a \<Rightarrow> a)
             \<and> (\<forall>i. h \<le> i \<and> i < (case index_start s of None \<Rightarrow> length (xs @ [x]) | Some a \<Rightarrow> a)
                    \<longrightarrow> startswith ((xs @ [x]) ! i) ''#'')"
      using plainline by simp
    have 6: "\<forall>i<length (xs @ [x]). index_start s \<noteq> Some i \<longrightarrow> \<not> startswith ((xs @ [x]) ! i) ''F2''
             \<longrightarrow> out ! i = (xs @ [x]) ! i"
      using plainline(1,3,4) un o by (auto simp: nth_append less_Suc_eq)
    from 1 2 3 4 5 6 show ?thesis by blast
  next
    case f2line
    from f2line(1) obtain a where a: "index_start s1 = Some a" by blast
    have 2: "index_start s = None \<longrightarrow> index_end s = None" using f2line by simp
    have 3: "\<forall>a. index_start s = Some a \<longrightarrow>
             a < length (xs @ [x]) \<and> startswith ((xs @ [x]) ! a) ''DEF ''
             \<and> out ! a = replace1 (py_split ((xs @ [x]) ! a) ! 1) device ((xs @ [x]) ! a)"
      using f2line(4) st o by (auto simp: nth_append)
    have 4: "\<forall>e. index_end s = Some e \<longrightarrow>
             e \<le> length (xs @ [x]) \<and> (\<exists>a. index_start s = Some a \<and> a + 1 < e)
             \<and> startswith ((xs @ [x]) ! (e - 1)) ''ENDDEF''"
      using f2line by simp
    have 5: "\<forall>h. index_header_start s = Some h \<longrightarrow>
             h < (case index_start s of None \<Rightarrow> length (xs @ [x]) | Some a \<Rightarrow> a)
             \<and> (\<forall>i. h \<le> i \<and> i < (case index_start s of None \<Rightarrow> length (xs @ [x]) | Some a \<Rightarrow> a)
                    \<longrightarrow> startswith ((xs @ [x]) ! i) ''#'')"
      using f2line(4) a hd st[OF a] by (auto simp: nth_append)
    have 6: "\<forall>i<length (xs @ [x]). index_start s \<noteq> Some i \<longrightarrow> \<not> startswith ((xs @ [x]) ! i) ''F2''
             \<longrightarrow> out ! i = (xs @ [x]) ! i"
      using f2line(3,4) un o by (auto simp: nth_append less_Suc_eq)
    from 1 2 3 4 5 6 show ?thesis by blast
  next
    case endline
    from endline(1) obtain a where a: "index_start s1 = Some a" by blast
    have 2: "index_start s = None \<longrightarrow> index_end s = None" using endline by simp
    have 3: "\<forall>a. index_start s = Some a \<longrightarrow>
             a < length (xs @ [x]) \<and> startswith ((xs @ [x]) ! a) ''DEF ''
             \<and> out ! a = replace1 (py_split ((xs @ [x]) ! a) ! 1) device ((xs @ [x]) ! a)"
      using endline(6) st o by (auto simp: nth_append)
    have 4: "\<forall>e. index_end s = Some e \<longrightarrow>
             e \<le> length (xs @ [x]) \<and> (\<exists>a. index_start s = Some a \<and> a + 1 < e)
             \<and> startswith ((xs @ [x]) ! (e - 1)) ''ENDDEF''"
      using endline(4,6) a st[OF a] by (auto simp: nth_append)
    have 5: "\<forall>h. index_header_start s = Some h \<longrightarrow>
             h < (case index_start s of None \<Rightarrow> length (xs @ [x]) | Some a \<Rightarrow> a)
             \<and> (\<forall>i. h \<le> i \<and> i < (case index_start s of None \<Rightarrow> length (xs @ [x]) | Some a \<Rightarrow> a)
                    \<longrightarrow> startswith ((xs @ [x]) ! i) ''#'')"
      using endline(6) a hd st[OF a] by (auto simp: nth_append)
    have 6: "\<forall>i<length (xs @ [x]). index_start s \<noteq> Some i \<longrightarrow> \<not> startswith ((xs @ [x]) ! i) ''F2''
             \<longrightarrow> out ! i = (xs @ [x]) ! i"
      using endline(5,6) un o by (auto simp: nth_append less_Suc_eq)
    from 1 2 3 4 5 6 show ?thesis by blast
  next
    case keptline
    from keptline(1) obtain a where a: "index_start s1 = Some a" by blast
    have 2: "index_start s = None \<longrightarrow> index_end s = None" using keptline(4) a by simp
    have 3: "\<forall>a. index_start s = Some a \<longrightarrow>
             a < length (xs @ [x]) \<and> startswith ((xs @ [x]) ! a) ''DEF ''
             \<and> out ! a = replace1 (py_split ((xs @ [x]) ! a) ! 1) device ((xs @ [x]) ! a)"
      using keptline(4) st o by (auto simp: nth_append)
    have 4: "\<forall>e. index_end s = Some e \<longrightarrow>
             e \<le> length (xs @ [x]) \<and> (\<exists>a. index_start s = Some a \<and> a + 1 < e)
             \<and> startswith ((xs @ [x]) ! (e - 1)) ''ENDDEF''"
    proof (intro allI impI)
      fix e assume "index_end s = Some e"
      with keptline(4) have e: "index_end s1 = Some e" by simp
      from en[OF e] have "e \<le> length xs" "\<exists>a. index_start s1 = Some a \<and> a + 1 < e"
        "startswith (xs ! (e - 1)) ''ENDDEF''" by simp_all
      then show "e \<le> length (xs @ [x]) \<and> (\<exists>a. index_start s = Some a \<and> a + 1 < e)
             \<and> startswith ((xs @ [x]) ! (e - 1)) ''ENDDEF''"
        using keptline(4) by (auto simp: nth_append)
    qed
    have 5: "\<forall>h. index_header_start s = Some h \<longrightarrow>
             h < (case index_start s of None \<Rightarrow> length (xs @ [x]) | Some a \<Rightarrow> a)
             \<and> (\<forall>i. h \<le> i \<and> i < (case index_start s of None \<Rightarrow> length (xs @ [x]) | Some a \<Rightarrow> a)
                    \<longrightarrow> startswith ((xs @ [x]) ! i) ''#'')"
      using keptline(4) a hd st[OF a] by (auto simp: nth_append)
    have 6: "\<forall>i<length (xs @ [x]). index_start s \<noteq> Some i \<longrightarrow> \<not> startswith ((xs @ [x]) ! i) ''F2''
             \<longrightarrow> out ! i = (xs @ [x]) ! i"
      using keptline(3,4) un o by (auto simp: nth_append less_Suc_eq)
    from 1 2 3 4 5 6 show ?thesis by blast
  qed
qed

text \<open>The same for the first loop of \<open>import_dcm\<close>.\<close>

lemma dcm_scan_line_cases:
  assumes "dcm_scan_line device dp idx x s rs = (Inr (x', s'), rs')"
  shows "(index_start s = None \<and> startswith x ''#'' \<and> x' = x \<and> index_start s' = None
            \<and> index_end s' = index_end s
            \<and> (index_header_start s' = index_header_start s
                \<or> (index_header_start s = None \<and> index_header_start s' = Some idx)))
       \<or> (index_start s = None \<and> \<not> startswith x ''#'' \<and> startswith x ''$CMP ''
            \<and> x' = replace1 (strip (drop 5 x)) device x \<and> s' = s\<lparr>index_start := Some idx\<rparr>)
       \<or> (index_start s = None \<and> \<not> startswith x ''#'' \<and> \<not> startswith x ''$CMP '' \<and> x' = x
            \<and> s' = s\<lparr>index_header_start := None\<rparr>)
       \<or> (index_start s \<noteq> None \<and> index_end s = None \<and> startswith x ''$ENDCMP'' \<and> x' = x
            \<and> s' = s\<lparr>index_end := Some (idx + 1)\<rparr>)
       \<or> (index_start s \<noteq> None \<and> index_end s = None \<and> \<not> startswith x ''$ENDCMP''
            \<and> (startswith x ''D'' \<or> startswith x ''F'') \<and> s' = s)
       \<or> (index_start s \<noteq> None \<and> index_end s = None \<and> \<not> startswith x ''$ENDCMP''
            \<and> \<not> startswith x ''D'' \<and> \<not> startswith x ''F'' \<and> x' = x \<and> s' = s)
       \<or> (index_start s \<noteq> None \<and> index_end s \<noteq> None \<and> x' = x \<and> s' = s)"
proof (cases "index_start s = None")
  case True
  with assms show ?thesis
    by (auto simp: dcm_scan_line_def Let_def split: if_splits)
next
  case st: False
  show ?thesis
  proof (cases "index_end s = None")
    case True
    with st assms show ?thesis
      by (auto simp: dcm_scan_line_def Let_def split: if_splits prod.splits sum.splits)
  next
    case False
    with st assms show ?thesis
      by (auto simp: dcm_scan_line_def split: if_splits)
  qed
qed

lemma dcm_scan_loop_Cons:
  assumes "dcm_scan_loop device dp idx (x # xs) s rs = (Inr (ls, s'), rs')"
  shows "\<exists>x' s0 rs0 rest'. dcm_scan_line device dp idx x s rs = (Inr (x', s0), rs0)
            \<and> dcm_scan_loop device dp (Suc idx) xs s0 rs0 = (Inr (rest', s'), rs')
            \<and> ls = x' # rest'"
proof (cases "dcm_scan_line device dp idx x s rs")
  case (Pair r rs0)
  show ?thesis
  proof (cases r)
    case (Inl e)
    with Pair assms show ?thesis by simp
  next
    case (Inr p)
    obtain x' s0 where p: "p = (x', s0)" by (cases p)
    obtain r1 rs1 where l: "dcm_scan_loop device dp (Suc idx) xs s0 rs0 = (r1, rs1)"
      by (cases "dcm_scan_loop device dp (Suc idx) xs s0 rs0")
    show ?thesis
    proof (cases r1)
      case (Inl e)
      with Pair Inr p l assms show ?thesis by simp
    next
      case r1: (Inr q)
      obtain rest' s2 where q: "q = (rest', s2)" by (cases q)
      with Pair Inr p l r1 assms show ?thesis by simp
    qed
  qed
qed

lemma dcm_scan_loop_split:
  assumes "dcm_scan_loop device dp idx (xs @ ys) s rs = (Inr (ls, s'), rs')"
  shows "\<exists>xs' ys' s1 rs1. dcm_scan_loop device dp idx xs s rs = (Inr (xs', s1), rs1)
            \<and> dcm_scan_loop device dp (idx + length xs) ys s1 rs1 = (Inr (ys', s'), rs')
            \<and> ls = xs' @ ys' \<and> length xs' = length xs"
  using assms
proof (induction xs arbitrary: idx s rs ls)
  case Nil
  then show ?case by simp
next
  case (Cons x xs)
  from dcm_scan_loop_Cons[of device dp idx x "xs @ ys" s rs ls s' rs'] Cons.prems
  obtain x' s0 rs0 rest' where x: "dcm_scan_line device dp idx x s rs = (Inr (x', s0), rs0)"
    and r: "dcm_scan_loop device dp (Suc idx) (xs @ ys) s0 rs0 = (Inr (rest', s'), rs')"
    and l: "ls = x' # rest'"
    by auto
  from Cons.IH[OF r]
  obtain xs' ys' s1 rs1 where a: "dcm_scan_loop device dp (Suc idx) xs s0 rs0 = (Inr (xs', s1), rs1)"
    and b: "dcm_scan_loop device dp (Suc idx + length xs) ys s1 rs1 = (Inr (ys', s'), rs')"
    and c: "rest' = xs' @ ys'" "length xs' = length xs"
    by blast
  have "dcm_scan_loop device dp idx (x # xs) s rs = (Inr (x' # xs', s1), rs1)"
    using x a by simp
  with b c l show ?case by auto
qed

lemma dcm_scan_loop_snoc:
  assumes "dcm_scan_loop device dp 0 (xs @ [x]) s0 rs = (Inr (out', s'), rs')"
  shows "\<exists>out s1 rs1 x'. dcm_scan_loop device dp 0 xs s0 rs = (Inr (out, s1), rs1)
           \<and> dcm_scan_line device dp (length xs) x s1 rs1 = (Inr (x', s'), rs')
           \<and> out' = out @ [x'] \<and> length out = length xs"
proof -
  from dcm_scan_loop_split[OF assms]
  obtain out ys s1 rs1 where a: "dcm_scan_loop device dp 0 xs s0 rs = (Inr (out, s1), rs1)"
    and b: "dcm_scan_loop device dp (0 + length xs) [x] s1 rs1 = (Inr (ys, s'), rs')"
    and c: "out' = out @ ys" "length out = length xs"
    by blast
  from dcm_scan_loop_Cons[OF b]
  obtain x' where "dcm_scan_line device dp (length xs) x s1 rs1 = (Inr (x', s'), rs')" "ys = [x']"
    by auto
  with a c show ?thesis by blast
qed

lemma dcm_scan_loop_invariant:
  assumes "dcm_scan_loop device dp 0 xs scan_init rs = (Inr (out, s), rs')"
  shows "length out = length xs
       \<and> (index_start s = None \<longrightarrow> index_end s = None)
       \<and> (\<forall>a. index_start s = Some a \<longrightarrow>
             a < length xs \<and> startswith (xs ! a) ''$CMP ''
             \<and> out ! a = replace1 (strip (drop 5 (xs ! a))) device (xs ! a))
       \<and> (\<forall>e. index_end s = Some e \<longrightarrow>
             e \<le> length xs \<and> (\<exists>a. index_start s = Some a \<and> a + 1 < e)
             \<and> startswith (xs ! (e - 1)) ''$ENDCMP'')
       \<and> (\<forall>h. index_header_start s = Some h \<longrightarrow>
             h < (case index_start s of None \<Rightarrow> length xs | Some a \<Rightarrow> a)
             \<and> (\<forall>i. h \<le> i \<and> i < (case index_start s of None \<Rightarrow> length xs | Some a \<Rightarrow> a)
                    \<longrightarrow> startswith (xs ! i) ''#''))
       \<and> (\<forall>i<length xs. index_start s \<noteq> Some i \<longrightarrow> \<not> startswith (xs ! i) ''D''
             \<longrightarrow> \<not> startswith (xs ! i) ''F'' \<longrightarrow> out ! i = xs ! i)"
  using assms
proof (induction xs arbitrary: out s rs' rule: rev_induct)
  case Nil
  then show ?case by (auto simp: scan_init_def)
next
  case (snoc x xs)
  from dcm_scan_loop_snoc[OF snoc.prems]
  obtain out1 s1 rs1 x' where l: "dcm_scan_loop device dp 0 xs scan_init rs = (Inr (out1, s1), rs1)"
    and x: "dcm_scan_line device dp (length xs) x s1 rs1 = (Inr (x', s), rs')"
    and o: "out = out1 @ [x']" "length out1 = length xs"
    by blast
  note ih = snoc.IH[OF l]
  from ih have se: "index_start s1 = None \<longrightarrow> index_end s1 = None" by simp
  from ih have st: "\<And>a. index_start s1 = Some a \<Longrightarrow>
             a < length xs \<and> startswith (xs ! a) ''$CMP ''
             \<and> out1 ! a = replace1 (strip (drop 5 (xs ! a))) device (xs ! a)" by blast
  from ih have en: "\<And>e. index_end s1 = Some e \<Longrightarrow>
             e \<le> length xs \<and> (\<exists>a. index_start s1 = Some a \<and> a + 1 < e)
             \<and> startswith (xs ! (e - 1)) ''$ENDCMP''" by blast
  from ih have hd: "\<And>h. index_header_start s1 = Some h \<Longrightarrow>
             h < (case index_start s1 of None \<Rightarrow> length xs | Some a \<Rightarrow> a)
             \<and> (\<forall>i. h \<le> i \<and> i < (case index_start s1 of None \<Rightarrow> length xs | Some a \<Rightarrow> a)
                    \<longrightarrow> startswith (xs ! i) ''#'')" by blast
  from ih have un: "\<And>i. i < length xs \<Longrightarrow> index_start s1 \<noteq> Some i \<Longrightarrow> \<not> startswith (xs ! i) ''D''
             \<Longrightarrow> \<not> startswith (xs ! i) ''F'' \<Longrightarrow> out1 ! i = xs ! i" by blast
  have 1: "length out = length (xs @ [x])" using o by simp
  from dcm_scan_line_cases[OF x]
  consider
    (hashline) "index_start s1 = None" "startswith x ''#''" "x' = x" "index_start s = None"
      "index_end s = index_end s1"
      "index_header_start s = index_header_start s1
       \<or> (index_header_start s1 = None \<and> index_header_start s = Some (length xs))"
  | (cmpline) "index_start s1 = None" "\<not> startswith x ''#''" "startswith x ''$CMP ''"
      "x' = replace1 (strip (drop 5 x)) device x" "s = s1\<lparr>index_start := Some (length xs)\<rparr>"
  | (plainline) "index_start s1 = None" "\<not> startswith x ''#''" "x' = x"
      "s = s1\<lparr>index_header_start := None\<rparr>"
  | (endline) "index_start s1 \<noteq> None" "index_end s1 = None"
      "startswith x ''$ENDCMP''" "x' = x" "s = s1\<lparr>index_end := Some (length xs + 1)\<rparr>"
  | (attrline) "index_start s1 \<noteq> None" "index_end s1 = None"
      "startswith x ''D'' \<or> startswith x ''F''" "s = s1"
  | (keptline) "index_start s1 \<noteq> None" "x' = x" "s = s1"
    by (elim disjE) auto
  then show ?case
  proof cases
    case hashline
    have 2: "index_start s = None \<longrightarrow> index_end s = None" using hashline se by simp
    have 3: "\<forall>a. index_start s = Some a \<longrightarrow>
             a < length (xs @ [x]) \<and> startswith ((xs @ [x]) ! a) ''$CMP ''
             \<and> out ! a = replace1 (strip (drop 5 ((xs @ [x]) ! a))) device ((xs @ [x]) ! a)"
      using hashline by simp
    have 4: "\<forall>e. index_end s = Some e \<longrightarrow>
             e \<le> length (xs @ [x]) \<and> (\<exists>a. index_start s = Some a \<and> a + 1 < e)
             \<and> startswith ((xs @ [x]) ! (e - 1)) ''$ENDCMP''"
      using hashline se by simp
    have 5: "\<forall>h. index_header_start s = Some h \<longrightarrow>
             h < (case index_start s of None \<Rightarrow> length (xs @ [x]) | Some a \<Rightarrow> a)
             \<and> (\<forall>i. h \<le> i \<and> i < (case index_start s of None \<Rightarrow> length (xs @ [x]) | Some a \<Rightarrow> a)
                    \<longrightarrow> startswith ((xs @ [x]) ! i) ''#'')"
    proof (intro allI impI)
      fix h assume h: "index_header_start s = Some h"
      from hashline(6) show "h < (case index_start s of None \<Rightarrow> length (xs @ [x]) | Some a \<Rightarrow> a)
             \<and> (\<forall>i. h \<le> i \<and> i < (case index_start s of None \<Rightarrow> length (xs @ [x]) | Some a \<Rightarrow> a)
                    \<longrightarrow> startswith ((xs @ [x]) ! i) ''#'')"
      proof
        assume "index_header_start s = index_header_start s1"
        with h hd[of h] hashline(1,2,4) show ?thesis
          by (auto simp: nth_append less_Suc_eq)
      next
        assume "index_header_start s1 = None \<and> index_header_start s = Some (length xs)"
        with h hashline(2,4) show ?thesis
          by (auto simp: nth_append less_Suc_eq)
      qed
    qed
    have 6: "\<forall>i<length (xs @ [x]). index_start s \<noteq> Some i \<longrightarrow> \<not> startswith ((xs @ [x]) ! i) ''D''
             \<longrightarrow> \<not> startswith ((xs @ [x]) ! i) ''F'' \<longrightarrow> out ! i = (xs @ [x]) ! i"
      using hashline(1,3,4) un o by (auto simp: nth_append less_Suc_eq)
    from 1 2 3 4 5 6 show ?thesis by blast
  next
    case cmpline
    have 2: "index_start s = None \<longrightarrow> index_end s = None" using cmpline by simp
    have 3: "\<forall>a. index_start s = Some a \<longrightarrow>
             a < length (xs @ [x]) \<and> startswith ((xs @ [x]) ! a) ''$CMP ''
             \<and> out ! a = replace1 (strip (drop 5 ((xs @ [x]) ! a))) device ((xs @ [x]) ! a)"
      using cmpline o by (simp add: nth_append)
    have 4: "\<forall>e. index_end s = Some e \<longrightarrow>
             e \<le> length (xs @ [x]) \<and> (\<exists>a. index_start s = Some a \<and> a + 1 < e)
             \<and> startswith ((xs @ [x]) ! (e - 1)) ''$ENDCMP''"
      using cmpline se by simp
    have 5: "\<forall>h. index_header_start s = Some h \<longrightarrow>
             h < (case index_start s of None \<Rightarrow> length (xs @ [x]) | Some a \<Rightarrow> a)
             \<and> (\<forall>i. h \<le> i \<and> i < (case index_start s of None \<Rightarrow> length (xs @ [x]) | Some a \<Rightarrow> a)
                    \<longrightarrow> startswith ((xs @ [x]) ! i) ''#'')"
      using cmpline(1,5) hd by (auto simp: nth_append)
    have 6: "\<forall>i<length (xs @ [x]). index_start s \<noteq> Some i \<longrightarrow> \<not> startswith ((xs @ [x]) ! i) ''D''
             \<longrightarrow> \<not> startswith ((xs @ [x]) ! i) ''F'' \<longrightarrow> out ! i = (xs @ [x]) ! i"
      using cmpline(1,5) un o by (auto simp: nth_append less_Suc_eq)
    from 1 2 3 4 5 6 show ?thesis by blast
  next
    case plainline
    have 2: "index_start s = None \<longrightarrow> index_end s = None" using plainline se by simp
    have 3: "\<forall>a. index_start s = Some a \<longrightarrow>
             a < length (xs @ [x]) \<and> startswith ((xs @ [x]) ! a) ''$CMP ''
             \<and> out ! a = replace1 (strip (drop 5 ((xs @ [x]) ! a))) device ((xs @ [x]) ! a)"
      using plainline by simp
    have 4: "\<forall>e. index_end s = Some e \<longrightarrow>
             e \<le> length (xs @ [x]) \<and> (\<exists>a. index_start s = Some a \<and> a + 1 < e)
             \<and> startswith ((xs @ [x]) ! (e - 1)) ''$ENDCMP''"
      using plainline se by simp
    have 5: "\<forall>h. index_header_start s = Some h \<longrightarrow>
             h < (case index_start s of None \<Rightarrow> length (xs @ [x]) | Some a \<Rightarrow> a)
             \<and> (\<forall>i. h \<le> i \<and> i < (case index_start s of None \<Rightarrow> length (xs @ [x]) | Some a \<Rightarrow> a)
                    \<longrightarrow> startswith ((xs @ [x]) ! i) ''#'')"
      using plainline by simp
    have 6: "\<forall>i<length (xs @ [x]). index_start s \<noteq> Some i \<longrightarrow> \<not> startswith ((xs @ [x]) ! i) ''D''
             \<longrightarrow> \<not> startswith ((xs @ [x]) ! i) ''F'' \<longrightarrow> out ! i = (xs @ [x]) ! i"
      using plainline(1,3,4) un o by (auto simp: nth_append less_Suc_eq)
    from 1 2 3 4 5 6 show ?thesis by blast
  next
    case endline
    from endline(1) obtain a where a: "index_start s1 = Some a" by blast
    have 2: "index_start s = None \<longrightarrow> index_end s = None" using endline(5) a by simp
    have 3: "\<forall>a. index_start s = Some a \<longrightarrow>
             a < length (xs @ [x]) \<and> startswith ((xs @ [x]) ! a) ''$CMP ''
             \<and> out ! a = replace1 (strip (drop 5 ((xs @ [x]) ! a))) device ((xs @ [x]) ! a)"
      using endline(5) st o by (auto simp: nth_append)
    have 4: "\<forall>e. index_end s = Some e \<longrightarrow>
             e \<le> length (xs @ [x]) \<and> (\<exists>a. index_start s = Some a \<and> a + 1 < e)
             \<and> startswith ((xs @ [x]) ! (e - 1)) ''$ENDCMP''"
      using endline(3,5) a st[OF a] by (auto simp: nth_append)
    have 5: "\<forall>h. index_header_start s = Some h \<longrightarrow>
             h < (case index_start s of None \<Rightarrow> length (xs @ [x]) | Some a \<Rightarrow> a)
             \<and> (\<forall>i. h \<le> i \<and> i < (case index_start s of None \<Rightarrow> length (xs @ [x]) | Some a \<Rightarrow> a)
                    \<longrightarrow> startswith ((xs @ [x]) ! i) ''#'')"
      using endline(5) a hd st[OF a] by (auto simp: nth_append)
    have 6: "\<forall>i<length (xs @ [x]). index_start s \<noteq> Some i \<longrightarrow> \<not> startswith ((xs @ [x]) ! i) ''D''
             \<longrightarrow> \<not> startswith ((xs @ [x]) ! i) ''F'' \<longrightarrow> out ! i = (xs @ [x]) ! i"
      using endline(4,5) un o by (auto simp: nth_append less_Suc_eq)
    from 1 2 3 4 5 6 show ?thesis by blast
  next
    case attrline
    from attrline(1) obtain a where a: "index_start s1 = Some a" by blast
    have 2: "index_start s = None \<longrightarrow> index_end s = None" using attrline(4) a by simp
    have 3: "\<forall>a. index_start s = Some a \<longrightarrow>
             a < length (xs @ [x]) \<and> startswith ((xs @ [x]) ! a) ''$CMP ''
             \<and> out ! a = replace1 (strip (drop 5 ((xs @ [x]) ! a))) device ((xs @ [x]) ! a)"
      using attrline(4) st o by (auto simp: nth_append)
    have 4: "\<forall>e. index_end s = Some e \<longrightarrow>
             e \<le> length (xs @ [x]) \<and> (\<exists>a. index_start s = Some a \<and> a + 1 < e)
             \<and> startswith ((xs @ [x]) ! (e - 1)) ''$ENDCMP''"
      using attrline(2,4) by simp
    have 5: "\<forall>h. index_header_start s = Some h \<longrightarrow>
             h < (case index_start s of None \<Rightarrow> length (xs @ [x]) | Some a \<Rightarrow> a)
             \<and> (\<forall>i. h \<le> i \<and> i < (case index_start s of None \<Rightarrow> length (xs @ [x]) | Some a \<Rightarrow> a)
                    \<longrightarrow> startswith ((xs @ [x]) ! i) ''#'')"
      using attrline(4) a hd st[OF a] by (auto simp: nth_append)
    have 6: "\<forall>i<length (xs @ [x]). index_start s \<noteq> Some i \<longrightarrow> \<not> startswith ((xs @ [x]) ! i) ''D''
             \<longrightarrow> \<not> startswith ((xs @ [x]) ! i) ''F'' \<longrightarrow> out ! i = (xs @ [x]) ! i"
      using attrline(3,4) un o by (auto simp: nth_append less_Suc_eq)
    from 1 2 3 4 5 6 show ?thesis by blast
  next
    case keptline
    from keptline(1) obtain a where a: "index_start s1 = Some a" by blast
    have 2: "index_start s = None \<longrightarrow> index_end s = None" using keptline(3) a by simp
    have 3: "\<forall>a. index_start s = Some a \<longrightarrow>
             a < length (xs @ [x]) \<and> startswith ((xs @ [x]) ! a) ''$CMP ''
             \<and> out ! a = replace1 (strip (drop 5 ((xs @ [x]) ! a))) device ((xs @ [x]) ! a)"
      using keptline(3) st o by (auto simp: nth_append)
    have 4: "\<forall>e. index_end s = Some e \<longrightarrow>
             e \<le> length (xs @ [x]) \<and> (\<exists>a. index_start s = Some a \<and> a + 1 < e)
             \<and> startswith ((xs @ [x]) ! (e - 1)) ''$ENDCMP''"
    proof (intro allI impI)
      fix e assume "index_end s = Some e"
      with keptline(3) have e: "index_end s1 = Some e" by simp
      from en[OF e] have "e \<le> length xs" "\<exists>a. index_start s1 = Some a \<and> a + 1 < e"
        "startswith (xs ! (e - 1)) ''$ENDCMP''" by simp_all
      then show "e \<le> length (xs @ [x]) \<and> (\<exists>a. index_start s = Some a \<and> a + 1 < e)
             \<and> startswith ((xs @ [x]) ! (e - 1)) ''$ENDCMP''"
        using keptline(3) by (auto simp: nth_append)
    qed
    have 5: "\<forall>h. index_header_start s = Some h \<longrightarrow>
             h < (case index_start s of None \<Rightarrow> length (xs @ [x]) | Some a \<Rightarrow> a)
             \<and> (\<forall>i. h \<le> i \<and> i < (case index_start s of None \<Rightarrow> length (xs @ [x]) | Some a \<Rightarrow> a)
                    \<longrightarrow> startswith ((xs @ [x]) ! i) ''#'')"
      using keptline(3) a hd st[OF a] by (auto simp: nth_append)
    have 6: "\<forall>i<length (xs @ [x]). index_start s \<noteq> Some i \<longrightarrow> \<not> startswith ((xs @ [x]) ! i) ''D''
             \<longrightarrow> \<not> startswith ((xs @ [x]) ! i) ''F'' \<longrightarrow> out ! i = (xs @ [x]) ! i"
      using keptline(2,3) un o by (auto simp: nth_append less_Suc_eq)
    from 1 2 3 4 5 6 show ?thesis by blast
  qed
qed

section \<open>The record inserted before the trailer\<close>

lemma lib_scan_record:
  assumes "lib_scan device rt lp = Inr (lines, s)" and "src = splitlines (snd lp)"
  shows "\<exists>a e. index_start s = Some a \<and> index_end s = Some e \<and> a + 1 < e \<and> e \<le> length lines
           \<and> length lines = length src
           \<and> startswith (src ! a) ''DEF ''
           \<and> lines ! a = replace1 (py_split (src ! a) ! 1) device (src ! a)
           \<and> startswith (src ! (e - 1)) ''ENDDEF''
           \<and> (\<forall>h. index_header_start s = Some h \<longrightarrow>
                  h < a \<and> (\<forall>i. h \<le> i \<and> i < a \<longrightarrow> startswith (src ! i) ''#''))
           \<and> (\<forall>i<length lines. i \<noteq> a \<longrightarrow> \<not> startswith (src ! i) ''F2'' \<longrightarrow> lines ! i = src ! i)"
proof -
  from assms(1) have loop: "lib_scan_loop device rt (fst lp) 0 src scan_init = Inr (lines, s)"
    and e: "index_end s \<noteq> None"
    by (auto simp: lib_scan_def assms(2) split: sum.splits if_splits)
  note inv = lib_scan_loop_invariant[OF loop]
  from e obtain e' where e': "index_end s = Some e'" by blast
  with inv obtain a where a: "index_start s = Some a" "a + 1 < e'" by blast
  from inv a e' show ?thesis by auto
qed

lemma dcm_scan_record:
  assumes "dcm_scan device dp rs = (Inr (lines, s), rs')"
    and "src = (case dp of Some p \<Rightarrow> splitlines (snd p)
                | None \<Rightarrow> [''#'', ''# '' @ device, ''#'', ''$CMP '' @ device, ''D'', ''F'', ''$ENDCMP''])"
  shows "\<exists>a e. index_start s = Some a \<and> index_end s = Some e \<and> a + 1 < e \<and> e \<le> length lines
           \<and> length lines = length src
           \<and> startswith (src ! a) ''$CMP ''
           \<and> lines ! a = replace1 (strip (drop 5 (src ! a))) device (src ! a)
           \<and> startswith (src ! (e - 1)) ''$ENDCMP''
           \<and> (\<forall>h. index_header_start s = Some h \<longrightarrow>
                  h < a \<and> (\<forall>i. h \<le> i \<and> i < a \<longrightarrow> startswith (src ! i) ''#''))
           \<and> (\<forall>i<length lines. i \<noteq> a \<longrightarrow> \<not> startswith (src ! i) ''D''
                  \<longrightarrow> \<not> startswith (src ! i) ''F'' \<longrightarrow> lines ! i = src ! i)"
proof -
  from assms(1) have loop: "dcm_scan_loop device dp 0 src scan_init rs = (Inr (lines, s), rs')"
    and e: "index_end s \<noteq> None"
    by (auto simp: dcm_scan_def Let_def assms(2) split: prod.splits sum.splits if_splits)
  note inv = dcm_scan_loop_invariant[OF loop]
  from e obtain e' where e': "index_end s = Some e'" by blast
  with inv obtain a where a: "index_start s = Some a" "a + 1 < e'" by blast
  from inv a e' show ?thesis by auto
qed

text \<open>The two slices of the merge, written out.\<close>

lemma record_lines_slice:
  "index_start s = Some a \<Longrightarrow> index_end s = Some e \<Longrightarrow>
   record_lines lines s = take (e - a) (drop a lines)"
  by (simp add: record_lines_def slice_def bound_def)


lemma join_lines_slice:
  assumes "h < e" "e \<le> length lines"
  shows "join_lines (take (e - h) (drop h lines))
         = concat (map (\<lambda>l. l @ [LF]) (take (e - h) (drop h lines)))"
proof -
  have "take (e - h) (drop h lines) \<noteq> []" using assms by simp
  then show ?thesis by (rule join_lines_concat)
qed











section \<open>The record replaced in the target\<close>

text \<open>Replacing, for each of the two formats.\<close>

lemma import_lib_replaces:
  assumes scan: "lib_scan device rt lp = Inr (lines, s)" and src: "src = splitlines (snd lp)"
    and d: "is_dir w (REMOTE_LIB_PATH cfg)" "\<not> is_dir w (lib_file_read cfg rt)"
      "\<not> is_dir w (lib_file_write cfg rt)"
    and t: "files w (lib_file_read cfg rt) = Some tgt"
      "readlines tgt = pre @ opener # inner @ closer # post @ [t]"
      "\<forall>l\<in>set pre. other_line lib_opening device l" "matching_line lib_opening device opener"
      "\<forall>l\<in>set inner. inner_line lib_opening lib_closing l"
      "closing_line lib_opening lib_closing closer"
      "\<forall>l\<in>set post. other_line lib_opening device l" "is_trailer t"
      "stdin w = reply # replies" "lib_confirmed reply"
  shows "(\<exists>a e. index_start s = Some a \<and> index_end s = Some e
            \<and> a < e \<and> e \<le> length lines \<and> length lines = length src
            \<and> startswith (src ! a) ''DEF '' \<and> startswith (src ! (e - 1)) ''ENDDEF''
            \<and> lines ! a = replace1 (py_split (src ! a) ! 1) device (src ! a)
            \<and> (\<forall>i<length lines. i \<noteq> a \<longrightarrow> \<not> startswith (src ! i) ''F2'' \<longrightarrow> lines ! i = src ! i)
            \<and> files (snd (import_lib cfg device rt lp w)) (lib_file_write cfg rt)
                = Some (concat pre @ concat (map (\<lambda>l. l @ [LF]) (take (e - a) (drop a lines)))
                        @ concat post @ t))
       \<and> fst (import_lib cfg device rt lp w) = Inr (lib_file_read cfg rt, lib_file_write cfg rt)
       \<and> concat pre @ opener @ concat inner @ closer @ concat post @ t = universal_newlines tgt
       \<and> files (snd (import_lib cfg device rt lp w)) (lib_file_read cfg rt) = Some tgt"
proof -
  have d': "is_dir w (parent (lib_file_read cfg rt))"
    "parent (lib_file_write cfg rt) = parent (lib_file_read cfg rt)"
    using d(1) by simp_all
  note m = merge_into_replace[where conf=lib_confirmed,
      OF d' d(2,3) read_write_neq(1) templates_nonempty(1) t]
  from lib_scan_record[OF scan src]
  obtain a e where r: "index_start s = Some a" "index_end s = Some e" "a + 1 < e" "e \<le> length lines"
    "length lines = length src" "startswith (src ! a) ''DEF ''"
    "lines ! a = replace1 (py_split (src ! a) ! 1) device (src ! a)"
    "startswith (src ! (e - 1)) ''ENDDEF''"
    "\<forall>i<length lines. i \<noteq> a \<longrightarrow> \<not> startswith (src ! i) ''F2'' \<longrightarrow> lines ! i = src ! i"
    by blast
  have "record_lines lines s = take (e - a) (drop a lines)"
    using r(1,2) by (rule record_lines_slice)
  moreover have "join_lines (take (e - a) (drop a lines))
      = concat (map (\<lambda>l. l @ [LF]) (take (e - a) (drop a lines)))"
    using r(3,4) by (intro join_lines_slice) simp_all
  ultimately have "files (snd (import_lib cfg device rt lp w)) (lib_file_write cfg rt)
      = Some (concat pre @ concat (map (\<lambda>l. l @ [LF]) (take (e - a) (drop a lines)))
              @ concat post @ t)"
    by (simp add: import_lib_eq scan m(2))
  with r have "\<exists>a e. index_start s = Some a \<and> index_end s = Some e
            \<and> a < e \<and> e \<le> length lines \<and> length lines = length src
            \<and> startswith (src ! a) ''DEF '' \<and> startswith (src ! (e - 1)) ''ENDDEF''
            \<and> lines ! a = replace1 (py_split (src ! a) ! 1) device (src ! a)
            \<and> (\<forall>i<length lines. i \<noteq> a \<longrightarrow> \<not> startswith (src ! i) ''F2'' \<longrightarrow> lines ! i = src ! i)
            \<and> files (snd (import_lib cfg device rt lp w)) (lib_file_write cfg rt)
                = Some (concat pre @ concat (map (\<lambda>l. l @ [LF]) (take (e - a) (drop a lines)))
                        @ concat post @ t)"
    by (intro exI[of _ a] exI[of _ e]) simp
  moreover have "fst (import_lib cfg device rt lp w) = Inr (lib_file_read cfg rt, lib_file_write cfg rt)"
    by (simp add: import_lib_eq scan m(1))
  moreover have "concat pre @ opener @ concat inner @ closer @ concat post @ t = universal_newlines tgt"
  proof -
    have "concat (readlines tgt) = universal_newlines tgt"
      by (simp add: readlines_def concat_keepends)
    then show ?thesis by (simp add: t(2))
  qed
  moreover have "files (snd (import_lib cfg device rt lp w)) (lib_file_read cfg rt) = Some tgt"
    by (simp add: import_lib_eq scan m(3))
  ultimately show ?thesis by blast
qed

lemma import_dcm_replaces:
  assumes scan: "dcm_scan device dp (stdin w) = (Inr (lines, s), reply # replies)"
    and src: "src = (case dp of Some p \<Rightarrow> splitlines (snd p)
                | None \<Rightarrow> [''#'', ''# '' @ device, ''#'', ''$CMP '' @ device, ''D'', ''F'', ''$ENDCMP''])"
    and d: "is_dir w (REMOTE_LIB_PATH cfg)" "\<not> is_dir w (dcm_file_read cfg rt)"
      "\<not> is_dir w (dcm_file_write cfg rt)"
    and t: "files w (dcm_file_read cfg rt) = Some tgt"
      "readlines tgt = pre @ opener # inner @ closer # post @ [t]"
      "\<forall>l\<in>set pre. other_line dcm_opening device l" "matching_line dcm_opening device opener"
      "\<forall>l\<in>set inner. inner_line dcm_opening dcm_closing l"
      "closing_line dcm_opening dcm_closing closer"
      "\<forall>l\<in>set post. other_line dcm_opening device l" "is_trailer t"
      "dcm_confirmed reply"
  shows "(\<exists>a e. index_start s = Some a \<and> index_end s = Some e
            \<and> a < e \<and> e \<le> length lines \<and> length lines = length src
            \<and> startswith (src ! a) ''$CMP '' \<and> startswith (src ! (e - 1)) ''$ENDCMP''
            \<and> lines ! a = replace1 (strip (drop 5 (src ! a))) device (src ! a)
            \<and> (\<forall>i<length lines. i \<noteq> a \<longrightarrow> \<not> startswith (src ! i) ''D''
                  \<longrightarrow> \<not> startswith (src ! i) ''F'' \<longrightarrow> lines ! i = src ! i)
            \<and> files (snd (import_dcm cfg device rt dp w)) (dcm_file_write cfg rt)
                = Some (concat pre @ concat (map (\<lambda>l. l @ [LF]) (take (e - a) (drop a lines)))
                        @ concat post @ t))
       \<and> fst (import_dcm cfg device rt dp w) = Inr (dcm_file_read cfg rt, dcm_file_write cfg rt)
       \<and> concat pre @ opener @ concat inner @ closer @ concat post @ t = universal_newlines tgt
       \<and> files (snd (import_dcm cfg device rt dp w)) (dcm_file_read cfg rt) = Some tgt"
proof -
  let ?w = "w\<lparr>stdin := reply # replies\<rparr>"
  have d': "is_dir ?w (parent (dcm_file_read cfg rt))"
    "parent (dcm_file_write cfg rt) = parent (dcm_file_read cfg rt)"
    "\<not> is_dir ?w (dcm_file_read cfg rt)" "\<not> is_dir ?w (dcm_file_write cfg rt)"
    "files ?w (dcm_file_read cfg rt) = Some tgt" "stdin ?w = reply # replies"
    using d t(1) by (simp_all add: is_dir_def)
  note m = merge_into_replace[where conf=dcm_confirmed,
      OF d'(1-4) read_write_neq(3) templates_nonempty(2) d'(5) t(2-8) d'(6) t(9)]
  from dcm_scan_record[OF scan src]
  obtain a e where r: "index_start s = Some a" "index_end s = Some e" "a + 1 < e" "e \<le> length lines"
    "length lines = length src" "startswith (src ! a) ''$CMP ''"
    "lines ! a = replace1 (strip (drop 5 (src ! a))) device (src ! a)"
    "startswith (src ! (e - 1)) ''$ENDCMP''"
    "\<forall>i<length lines. i \<noteq> a \<longrightarrow> \<not> startswith (src ! i) ''D''
        \<longrightarrow> \<not> startswith (src ! i) ''F'' \<longrightarrow> lines ! i = src ! i"
    by blast
  have "record_lines lines s = take (e - a) (drop a lines)"
    using r(1,2) by (rule record_lines_slice)
  moreover have "join_lines (take (e - a) (drop a lines))
      = concat (map (\<lambda>l. l @ [LF]) (take (e - a) (drop a lines)))"
    using r(3,4) by (intro join_lines_slice) simp_all
  ultimately have "files (snd (import_dcm cfg device rt dp w)) (dcm_file_write cfg rt)
      = Some (concat pre @ concat (map (\<lambda>l. l @ [LF]) (take (e - a) (drop a lines)))
              @ concat post @ t)"
    by (simp add: import_dcm_eq scan m(2))
  with r have "\<exists>a e. index_start s = Some a \<and> index_end s = Some e
            \<and> a < e \<and> e \<le> length lines \<and> length lines = length src
            \<and> startswith (src ! a) ''$CMP '' \<and> startswith (src ! (e - 1)) ''$ENDCMP''
            \<and> lines ! a = replace1 (strip (drop 5 (src ! a))) device (src ! a)
            \<and> (\<forall>i<length lines. i \<noteq> a \<longrightarrow> \<not> startswith (src ! i) ''D''
                  \<longrightarrow> \<not> startswith (src ! i) ''F'' \<longrightarrow> lines ! i = src ! i)
            \<and> files (snd (import_dcm cfg device rt dp w)) (dcm_file_write cfg rt)
                = Some (concat pre @ concat (map (\<lambda>l. l @ [LF]) (take (e - a) (drop a lines)))
                        @ concat post @ t)"
    by (intro exI[of _ a] exI[of _ e]) simp
  moreover have "fst (import_dcm cfg device rt dp w) = Inr (dcm_file_read cfg rt, dcm_file_write cfg rt)"
    by (simp add: import_dcm_eq scan m(1))
  moreover have "concat pre @ opener @ concat inner @ closer @ concat post @ t = universal_newlines tgt"
  proof -
    have "concat (readlines tgt) = universal_newlines tgt"
      by (simp add: readlines_def concat_keepends)
    then show ?thesis by (simp add: t(2))
  qed
  moreover have "files (snd (import_dcm cfg device rt dp w)) (dcm_file_read cfg rt) = Some tgt"
    by (simp add: import_dcm_eq scan m(3))
  ultimately show ?thesis by blast
qed

text \<open>
  C3, as the code has it. A target library, in a library directory that exists, that
  reads as the lines \<open>pre\<close>, the opening line of a record whose name starts with the
  device name, the lines \<open>inner\<close> of that record, its closing line, the lines \<open>post\<close>
  and the trailer as last line; \<open>pre\<close> and \<open>post\<close> hold no line that matches the
  trailer pattern, no opening line of a record whose name starts with the device name
  and no opening line without a name, and \<open>inner\<close> holds no opening line, no closing
  line and no line that matches the trailer pattern. The operator confirms the
  overwrite. Then the merge returns the pair of paths and leaves the target as it is,
  and the staging file holds \<open>pre\<close>, the record of the archive without its header
  block, \<open>post\<close> and the trailer: the lines from the opening line to the closing line
  are replaced, and the header block that precedes the record in the target belongs
  to \<open>pre\<close> and is copied like every other line, as it is read (with \<open>\r\n\<close> and \<open>\r\<close>
  turned into \<open>\n\<close>). The record written is the slice of the scanned lines from \<open>a\<close> to
  \<open>e\<close>, each line followed by \<open>\n\<close>, where the line \<open>a\<close> of the source is its opening
  line (with the name replaced by the device name) and the line before \<open>e\<close> its closing
  line; the other lines are the lines of the source, apart from the fields the scan
  rewrites. For the symbol library and for the description library.
\<close>

theorem existing_record_replaced:
  "(lib_scan device rt lp = Inr (lines, s) \<longrightarrow> src = splitlines (snd lp) \<longrightarrow>
      is_dir w (REMOTE_LIB_PATH cfg) \<longrightarrow> \<not> is_dir w (lib_file_read cfg rt) \<longrightarrow>
      \<not> is_dir w (lib_file_write cfg rt) \<longrightarrow>
      files w (lib_file_read cfg rt) = Some tgt \<longrightarrow>
      readlines tgt = pre @ opener # inner @ closer # post @ [t] \<longrightarrow>
      (\<forall>l\<in>set pre. other_line lib_opening device l) \<longrightarrow> matching_line lib_opening device opener \<longrightarrow>
      (\<forall>l\<in>set inner. inner_line lib_opening lib_closing l) \<longrightarrow>
      closing_line lib_opening lib_closing closer \<longrightarrow>
      (\<forall>l\<in>set post. other_line lib_opening device l) \<longrightarrow> is_trailer t \<longrightarrow>
      stdin w = reply # replies \<longrightarrow> lib_confirmed reply \<longrightarrow>
      (\<exists>a e. index_start s = Some a \<and> index_end s = Some e
          \<and> a < e \<and> e \<le> length lines \<and> length lines = length src
          \<and> startswith (src ! a) ''DEF '' \<and> startswith (src ! (e - 1)) ''ENDDEF''
          \<and> lines ! a = replace1 (py_split (src ! a) ! 1) device (src ! a)
          \<and> (\<forall>i<length lines. i \<noteq> a \<longrightarrow> \<not> startswith (src ! i) ''F2'' \<longrightarrow> lines ! i = src ! i)
          \<and> files (snd (import_lib cfg device rt lp w)) (lib_file_write cfg rt)
              = Some (concat pre @ concat (map (\<lambda>l. l @ [LF]) (take (e - a) (drop a lines)))
                      @ concat post @ t))
      \<and> fst (import_lib cfg device rt lp w) = Inr (lib_file_read cfg rt, lib_file_write cfg rt)
      \<and> concat pre @ opener @ concat inner @ closer @ concat post @ t = universal_newlines tgt
      \<and> files (snd (import_lib cfg device rt lp w)) (lib_file_read cfg rt) = Some tgt)
   \<and> (dcm_scan device dp (stdin w) = (Inr (lines', s'), reply' # replies') \<longrightarrow>
      src' = (case dp of Some p \<Rightarrow> splitlines (snd p)
              | None \<Rightarrow> [''#'', ''# '' @ device, ''#'', ''$CMP '' @ device, ''D'', ''F'', ''$ENDCMP'']) \<longrightarrow>
      is_dir w (REMOTE_LIB_PATH cfg) \<longrightarrow> \<not> is_dir w (dcm_file_read cfg rt) \<longrightarrow>
      \<not> is_dir w (dcm_file_write cfg rt) \<longrightarrow>
      files w (dcm_file_read cfg rt) = Some tgt' \<longrightarrow>
      readlines tgt' = pre' @ opener' # inner' @ closer' # post' @ [t'] \<longrightarrow>
      (\<forall>l\<in>set pre'. other_line dcm_opening device l) \<longrightarrow> matching_line dcm_opening device opener' \<longrightarrow>
      (\<forall>l\<in>set inner'. inner_line dcm_opening dcm_closing l) \<longrightarrow>
      closing_line dcm_opening dcm_closing closer' \<longrightarrow>
      (\<forall>l\<in>set post'. other_line dcm_opening device l) \<longrightarrow> is_trailer t' \<longrightarrow>
      dcm_confirmed reply' \<longrightarrow>
      (\<exists>a e. index_start s' = Some a \<and> index_end s' = Some e
          \<and> a < e \<and> e \<le> length lines' \<and> length lines' = length src'
          \<and> startswith (src' ! a) ''$CMP '' \<and> startswith (src' ! (e - 1)) ''$ENDCMP''
          \<and> lines' ! a = replace1 (strip (drop 5 (src' ! a))) device (src' ! a)
          \<and> (\<forall>i<length lines'. i \<noteq> a \<longrightarrow> \<not> startswith (src' ! i) ''D''
                \<longrightarrow> \<not> startswith (src' ! i) ''F'' \<longrightarrow> lines' ! i = src' ! i)
          \<and> files (snd (import_dcm cfg device rt dp w)) (dcm_file_write cfg rt)
              = Some (concat pre' @ concat (map (\<lambda>l. l @ [LF]) (take (e - a) (drop a lines')))
                      @ concat post' @ t'))
      \<and> fst (import_dcm cfg device rt dp w) = Inr (dcm_file_read cfg rt, dcm_file_write cfg rt)
      \<and> concat pre' @ opener' @ concat inner' @ closer' @ concat post' @ t' = universal_newlines tgt'
      \<and> files (snd (import_dcm cfg device rt dp w)) (dcm_file_read cfg rt) = Some tgt')"
  using import_lib_replaces[of device rt lp lines s src w cfg tgt pre opener inner closer post t
      reply replies]
    import_dcm_replaces[of device dp w lines' s' reply' replies' src' cfg rt tgt' pre' opener'
      inner' closer' post' t']
  by blast

theorem existing_record_replaced_witness:
  "files (snd (import_lib sample_config ''X'' SNAPEDA (lib_path sample_info)
                 (library_world old_dcm x_lib ['''', ''y'']))) (lib_file_write sample_config SNAPEDA)
     = Some (unlines [''EESchema-LIBRARY Version 2.4'', ''#encoding utf-8'', ''#'', ''# X old'', ''#'',
                      ''DEF X U 0'', ''F2 '' @ [DQ] @ ''SNAPEDA:FP1'' @ [DQ] @ '' 0'', ''ENDDEF'',
                      ''#'', ''#End Library''])
   \<and> files (snd (import_dcm sample_config ''X'' SNAPEDA (dcm_path sample_info)
                   (library_world old_dcm x_lib ['''', ''y'']))) (dcm_file_write sample_config SNAPEDA)
     = Some (unlines [''EESchema-DOCLIB  Version 2.0'', ''#'', ''$CMP A'', ''D a'', ''$ENDCMP'', ''#'',
                      ''$CMP X'', ''D new'', ''F url'', ''$ENDCMP'', ''#'', ''#End Doc Library''])"
proof -
  let ?w = "library_world old_dcm x_lib ['''', ''y'']"
  let ?src = "splitlines (snd (lib_path sample_info))"
  let ?src' = "case dcm_path sample_info of Some p \<Rightarrow> splitlines (snd p)
              | None \<Rightarrow> [''#'', ''# '' @ ''X'', ''#'', ''$CMP '' @ ''X'', ''D'', ''F'', ''$ENDCMP'']"
  have l1: "lib_scan ''X'' SNAPEDA (lib_path sample_info) = Inr (fst scanned_lib, snd scanned_lib)"
    by (simp add: scanned_lib_eq)
  have l2: "is_dir ?w (REMOTE_LIB_PATH sample_config)" by code_simp
  have l3: "\<not> is_dir ?w (lib_file_read sample_config SNAPEDA)" by code_simp
  have l4: "\<not> is_dir ?w (lib_file_write sample_config SNAPEDA)" by code_simp
  have l5: "files ?w (lib_file_read sample_config SNAPEDA) = Some x_lib" by code_simp
  have l6: "readlines x_lib = take 5 (readlines x_lib) @ readlines x_lib ! 5 # [readlines x_lib ! 6]
              @ readlines x_lib ! 7 # [readlines x_lib ! 8] @ [readlines x_lib ! 9]" by code_simp
  have l7: "\<forall>l\<in>set (take 5 (readlines x_lib)). other_line lib_opening ''X'' l" by code_simp
  have l8: "matching_line lib_opening ''X'' (readlines x_lib ! 5)" by code_simp
  have l9: "\<forall>l\<in>set [readlines x_lib ! 6]. inner_line lib_opening lib_closing l" by code_simp
  have l10: "closing_line lib_opening lib_closing (readlines x_lib ! 7)" by code_simp
  have l11: "\<forall>l\<in>set [readlines x_lib ! 8]. other_line lib_opening ''X'' l" by code_simp
  have l12: "is_trailer (readlines x_lib ! 9)" by code_simp
  have l13: "stdin ?w = [] # [''y'']" by code_simp
  have l14: "lib_confirmed []" by code_simp
  have d1: "dcm_scan ''X'' (dcm_path sample_info) (stdin ?w)
              = (Inr (fst scanned_dcm, snd scanned_dcm), ''y'' # [])"
    using scanned_dcm_eq[of "[]" "[''y'']"] l13 by simp
  have d3: "\<not> is_dir ?w (dcm_file_read sample_config SNAPEDA)" by code_simp
  have d4: "\<not> is_dir ?w (dcm_file_write sample_config SNAPEDA)" by code_simp
  have d5: "files ?w (dcm_file_read sample_config SNAPEDA) = Some old_dcm" by code_simp
  have d6: "readlines old_dcm = take 6 (readlines old_dcm) @ readlines old_dcm ! 6 # [readlines old_dcm ! 7]
              @ readlines old_dcm ! 8 # [readlines old_dcm ! 9] @ [readlines old_dcm ! 10]" by code_simp
  have d7: "\<forall>l\<in>set (take 6 (readlines old_dcm)). other_line dcm_opening ''X'' l" by code_simp
  have d8: "matching_line dcm_opening ''X'' (readlines old_dcm ! 6)" by code_simp
  have d9: "\<forall>l\<in>set [readlines old_dcm ! 7]. inner_line dcm_opening dcm_closing l" by code_simp
  have d10: "closing_line dcm_opening dcm_closing (readlines old_dcm ! 8)" by code_simp
  have d11: "\<forall>l\<in>set [readlines old_dcm ! 9]. other_line dcm_opening ''X'' l" by code_simp
  have d12: "is_trailer (readlines old_dcm ! 10)" by code_simp
  have d13: "dcm_confirmed ''y''" by code_simp
  note inst = existing_record_replaced[where device="''X''" and rt=SNAPEDA and lp="lib_path sample_info"
        and w="?w" and cfg=sample_config and tgt=x_lib and pre="take 5 (readlines x_lib)"
        and opener="readlines x_lib ! 5" and inner="[readlines x_lib ! 6]"
        and closer="readlines x_lib ! 7" and post="[readlines x_lib ! 8]"
        and t="readlines x_lib ! 9" and reply="[]" and replies="[''y'']"
        and lines="fst scanned_lib" and s="snd scanned_lib" and src="?src"
        and dp="dcm_path sample_info" and tgt'=old_dcm and pre'="take 6 (readlines old_dcm)"
        and opener'="readlines old_dcm ! 6" and inner'="[readlines old_dcm ! 7]"
        and closer'="readlines old_dcm ! 8" and post'="[readlines old_dcm ! 9]"
        and t'="readlines old_dcm ! 10" and reply'="''y''" and replies'="[]"
        and lines'="fst scanned_dcm" and s'="snd scanned_dcm" and src'="?src'"]
  from inst l1 l2 l3 l4 l5 l6 l7 l8 l9 l10 l11 l12 l13 l14
  obtain a e where lib: "index_start (snd scanned_lib) = Some a" "index_end (snd scanned_lib) = Some e"
    "files (snd (import_lib sample_config ''X'' SNAPEDA (lib_path sample_info) ?w))
         (lib_file_write sample_config SNAPEDA)
       = Some (concat (take 5 (readlines x_lib))
               @ concat (map (\<lambda>l. l @ [LF]) (take (e - a) (drop a (fst scanned_lib))))
               @ concat [readlines x_lib ! 8] @ readlines x_lib ! 9)"
    by blast
  from lib(1,2) have "a = 4" "e = 7" by (simp_all add: scanned_lib_def)
  moreover have "concat (take 5 (readlines x_lib))
               @ concat (map (\<lambda>l. l @ [LF]) (take (7 - 4) (drop 4 (fst scanned_lib))))
               @ concat [readlines x_lib ! 8] @ readlines x_lib ! 9
      = unlines [''EESchema-LIBRARY Version 2.4'', ''#encoding utf-8'', ''#'', ''# X old'', ''#'',
                 ''DEF X U 0'', ''F2 '' @ [DQ] @ ''SNAPEDA:FP1'' @ [DQ] @ '' 0'', ''ENDDEF'',
                 ''#'', ''#End Library'']"
    by code_simp
  ultimately have A: "files (snd (import_lib sample_config ''X'' SNAPEDA (lib_path sample_info) ?w))
         (lib_file_write sample_config SNAPEDA)
     = Some (unlines [''EESchema-LIBRARY Version 2.4'', ''#encoding utf-8'', ''#'', ''# X old'', ''#'',
                      ''DEF X U 0'', ''F2 '' @ [DQ] @ ''SNAPEDA:FP1'' @ [DQ] @ '' 0'', ''ENDDEF'',
                      ''#'', ''#End Library''])"
    using lib(3) by simp
  from inst d1 l2 d3 d4 d5 d6 d7 d8 d9 d10 d11 d12 d13
  obtain a' e' where dcm: "index_start (snd scanned_dcm) = Some a'"
    "index_end (snd scanned_dcm) = Some e'"
    "files (snd (import_dcm sample_config ''X'' SNAPEDA (dcm_path sample_info) ?w))
         (dcm_file_write sample_config SNAPEDA)
       = Some (concat (take 6 (readlines old_dcm))
               @ concat (map (\<lambda>l. l @ [LF]) (take (e' - a') (drop a' (fst scanned_dcm))))
               @ concat [readlines old_dcm ! 9] @ readlines old_dcm ! 10)"
    by blast
  from dcm(1,2) have "a' = 2" "e' = 6" by (simp_all add: scanned_dcm_def)
  moreover have "concat (take 6 (readlines old_dcm))
               @ concat (map (\<lambda>l. l @ [LF]) (take (6 - 2) (drop 2 (fst scanned_dcm))))
               @ concat [readlines old_dcm ! 9] @ readlines old_dcm ! 10
      = unlines [''EESchema-DOCLIB  Version 2.0'', ''#'', ''$CMP A'', ''D a'', ''$ENDCMP'', ''#'',
                 ''$CMP X'', ''D new'', ''F url'', ''$ENDCMP'', ''#'', ''#End Doc Library'']"
    by code_simp
  ultimately have B: "files (snd (import_dcm sample_config ''X'' SNAPEDA (dcm_path sample_info) ?w))
         (dcm_file_write sample_config SNAPEDA)
     = Some (unlines [''EESchema-DOCLIB  Version 2.0'', ''#'', ''$CMP A'', ''D a'', ''$ENDCMP'', ''#'',
                      ''$CMP X'', ''D new'', ''F url'', ''$ENDCMP'', ''#'', ''#End Doc Library''])"
    using dcm(3) by simp
  from A B show ?thesis by simp
qed

end
